theory Spec2Isabelle
  imports Main "HOL-Library.Sublist"
begin

section \<open>Values of the Go runtime and of the libraries\<close>

text \<open>
  Go errors. \<open>ErrUnknownLogLevel\<close> is the sentinel of \<^verbatim>\<open>app/logs.go\<close>;
  \<open>LibError\<close> is any error made by a library (its text is opaque);
  \<open>JoinError\<close> is what \<^verbatim>\<open>errors.Join\<close> builds; \<open>Errorf\<close> is a
  \<^verbatim>\<open>fmt.Errorf\<close> without \<^verbatim>\<open>%w\<close>, kept as its format and arguments.
  A nil error is \<open>None\<close> of \<open>error option\<close>.
\<close>

datatype error =
    ErrUnknownLogLevel
  | LibError string
  | JoinError "error list"
  | Errorf string "fmtarg list"
and fmtarg =
    AString string
  | ADuration int
  | ALevel int
  | AError error
  | AAttr string string

text \<open>\<^verbatim>\<open>errors.Is\<close>: the error itself, or (through \<^verbatim>\<open>Unwrap() []error\<close>) any
  error joined into it. Equality of values stands for Go's identity of sentinels.\<close>

fun errors_Is :: "error \<Rightarrow> error \<Rightarrow> bool" where
  "errors_Is (JoinError es) target =
     (JoinError es = target \<or> list_ex (\<lambda>e. errors_Is e target) es)"
| "errors_Is err target = (err = target)"

text \<open>\<^verbatim>\<open>errors.Join\<close> drops nil errors and returns nil when none is left.\<close>

definition errors_Join :: "error option list \<Rightarrow> error option" where
  "errors_Join errs =
     (let es = List.map_filter id errs in if es = [] then None else Some (JoinError es))"

text \<open>\<^verbatim>\<open>slog.Level\<close> is an integer.\<close>

definition LevelDebug :: int where "LevelDebug = - 4"
definition LevelInfo :: int where "LevelInfo = 0"
definition LevelWarn :: int where "LevelWarn = 4"
definition LevelError :: int where "LevelError = 8"

datatype attr = slog_String string string | slog_Any string error

datatype handler_kind = TintHandler | JSONHandler

record Logger =
  handler :: handler_kind
  AddSource :: bool
  Level :: int

subsection \<open>The Pub/Sub client library and the broker behind it\<close>

record DeadLetterPolicy =
  DeadLetterTopic :: string
  MaxDeliveryAttempts :: int

record PushConfig =
  Endpoint :: string

text \<open>The fields of \<^verbatim>\<open>pubsub.SubscriptionConfig\<close> that decide the kind of the
  subscription. A topic handle is represented by its full name; a Go field the
  literal leaves out has its zero value (an empty push endpoint, a nil policy).\<close>

record SubscriptionConfig =
  Topic :: string
  PushConfig :: PushConfig
  AckDeadline :: int
  DeadLetterPolicy :: "DeadLetterPolicy option"

definition Second :: int where "Second = 1000000000"

record broker =
  topics :: "string set"
  subscriptions :: "string \<rightharpoonup> SubscriptionConfig"

datatype call =
    TopicExists string
  | CreateTopic string
  | SubscriptionExists string
  | SubscriptionDelete string
  | CreateSubscription string SubscriptionConfig

datatype event =
    Slog int string "fmtarg list" "attr list"
  | StdLogFatal string "fmtarg list"
  | SetDefault Logger
  | SetLogLoggerLevel int
  | NetDial string string
  | ConnClose
  | Sleep int
  | NewClient string "error option"
  | ClientClose
  | Rpc call "error option"

datatype halt = OsExit int | EarlyReturn

record attempt =
  dial_elapsed :: nat
  dial_err :: "error option"
  oversleep :: nat

text \<open>
  Everything the program reads from outside its own source: the constants of the
  \<^verbatim>\<open>app\<close> package (their file is not part of the sources at hand, so their values
  are parameters), the standard library's level parser, the process environment, the
  working directory, the \<^verbatim>\<open>.env\<close> file, name resolution, and the behaviour of the
  network: the \<open>n\<close>-th dial (how long it takes, whether it fails, how much longer than
  asked the following sleep lasts) and the \<open>n\<close>-th call to the broker (whether the
  transport fails it), and the clock: the time that has passed, since the statement
  before, when the process reads the clock for the \<open>n\<close>-th time. Every dial returns
  after a finite time, and the process is the only client of the broker while it runs.
\<close>

record platform =
  ENVVAR_ENV :: string
  ENVVAR_LOG_LEVEL :: string
  ENVVAR_EMULATOR_HOST :: string
  ENVVAR_GOOGLE_PROJECT_ID :: string
  ENVVAR_TOPIC_ID :: string
  ENVVAR_SUBSCRIPTION_ID :: string
  ENVVAR_DLT_TOPIC_ID :: string
  UnmarshalText :: "string \<Rightarrow> error + int"
  environ :: "string \<rightharpoonup> string"
  Getwd :: "error + string"
  dotenv_file :: "string \<Rightarrow> error + (string \<rightharpoonup> string)"
  ResolveTCPAddr :: "string \<Rightarrow> error + string"
  dial :: "nat \<Rightarrow> attempt"
  NewClient_err :: "error option"
  rpc_fault :: "nat \<Rightarrow> error option"
  boot_time :: int
  tick :: "nat \<Rightarrow> nat"

text \<open>The state a run changes: the broker, the clock (nanoseconds), how many dials
  and broker calls were made, how often the clock was read, and the events of the run,
  oldest first. A \<open>Slog\<close> event
  is a call of a logger method; whether the handler prints it depends on the level.\<close>

record world =
  broker :: broker
  now :: int
  dials :: nat
  rpcs :: nat
  reads :: nat
  trace :: "event list"

definition say :: "event \<Rightarrow> world \<Rightarrow> world" where
  "say e w = w\<lparr>trace := trace w @ [e]\<rparr>"

definition init_world :: "platform \<Rightarrow> broker \<Rightarrow> world" where
  "init_world P b =
     \<lparr>broker = b, now = boot_time P, dials = 0, rpcs = 0, reads = 0, trace = []\<rparr>"

text \<open>\<^verbatim>\<open>os.Getenv\<close>: the empty string for a variable that is not set.\<close>

definition Getenv :: "(string \<rightharpoonup> string) \<Rightarrow> string \<Rightarrow> string" where
  "Getenv env k = (case env k of None \<Rightarrow> [] | Some v \<Rightarrow> v)"

text \<open>\<^verbatim>\<open>godotenv.Load\<close>: the variables of the file, except those already set.\<close>

definition godotenv_Load ::
  "platform \<Rightarrow> string \<Rightarrow> (string \<rightharpoonup> string) \<Rightarrow> error + (string \<rightharpoonup> string)" where
  "godotenv_Load P path env =
     (case dotenv_file P path of Inl e \<Rightarrow> Inl e | Inr kv \<Rightarrow> Inr (kv ++ env))"

text \<open>\<^verbatim>\<open>filepath.Join\<close>, without the cleaning of \<^verbatim>\<open>..\<close>: the \<^verbatim>\<open>.env\<close>
  file is looked up under the joined path as it is.\<close>

definition filepath_Join :: "string \<Rightarrow> string \<Rightarrow> string" where
  "filepath_Join a b = a @ ''/'' @ b"

record Client =
  client_project :: string

definition Client_Topic :: "Client \<Rightarrow> string \<Rightarrow> string" where
  "Client_Topic c ident = ''projects/'' @ client_project c @ ''/topics/'' @ ident"

definition Client_Subscription :: "Client \<Rightarrow> string \<Rightarrow> string" where
  "Client_Subscription c ident = ''projects/'' @ client_project c @ ''/subscriptions/'' @ ident"

text \<open>A call of the client library, as the library documents it (the library and the
  emulator are not part of the sources): the transport may fail it (then the broker is
  left as it is); otherwise the broker answers. \<^verbatim>\<open>Exists\<close> tells whether the name is
  there; creating what exists, deleting what does not, and subscribing to a topic that
  does not exist are the broker's own errors.\<close>

definition called :: "call \<Rightarrow> error option \<Rightarrow> world \<Rightarrow> world" where
  "called c r w = w\<lparr>rpcs := Suc (rpcs w), trace := trace w @ [Rpc c r]\<rparr>"

definition Topic_Exists :: "platform \<Rightarrow> string \<Rightarrow> world \<Rightarrow> (error + bool) \<times> world" where
  "Topic_Exists P name w =
     (case rpc_fault P (rpcs w) of
        Some e \<Rightarrow> (Inl e, called (TopicExists name) (Some e) w)
      | None \<Rightarrow> (Inr (name \<in> topics (broker w)), called (TopicExists name) None w))"

definition Client_CreateTopic ::
  "platform \<Rightarrow> Client \<Rightarrow> string \<Rightarrow> world \<Rightarrow> (error + string) \<times> world" where
  "Client_CreateTopic P c ident w =
     (let name = Client_Topic c ident in
      case rpc_fault P (rpcs w) of
        Some e \<Rightarrow> (Inl e, called (CreateTopic name) (Some e) w)
      | None \<Rightarrow>
          if name \<in> topics (broker w)
          then (Inl (LibError ''AlreadyExists''),
                called (CreateTopic name) (Some (LibError ''AlreadyExists'')) w)
          else (Inr name,
                called (CreateTopic name) None
                  (w\<lparr>broker := (broker w)\<lparr>topics := insert name (topics (broker w))\<rparr>\<rparr>)))"

definition Subscription_Exists ::
  "platform \<Rightarrow> string \<Rightarrow> world \<Rightarrow> (error + bool) \<times> world" where
  "Subscription_Exists P name w =
     (case rpc_fault P (rpcs w) of
        Some e \<Rightarrow> (Inl e, called (SubscriptionExists name) (Some e) w)
      | None \<Rightarrow> (Inr (name \<in> dom (subscriptions (broker w))),
                 called (SubscriptionExists name) None w))"

definition Subscription_Delete ::
  "platform \<Rightarrow> string \<Rightarrow> world \<Rightarrow> error option \<times> world" where
  "Subscription_Delete P name w =
     (case rpc_fault P (rpcs w) of
        Some e \<Rightarrow> (Some e, called (SubscriptionDelete name) (Some e) w)
      | None \<Rightarrow>
          if name \<notin> dom (subscriptions (broker w))
          then (Some (LibError ''NotFound''),
                called (SubscriptionDelete name) (Some (LibError ''NotFound'')) w)
          else (None,
                called (SubscriptionDelete name) None
                  (w\<lparr>broker := (broker w)\<lparr>subscriptions :=
                       (subscriptions (broker w))(name := None)\<rparr>\<rparr>)))"

definition Client_CreateSubscription ::
  "platform \<Rightarrow> Client \<Rightarrow> string \<Rightarrow> SubscriptionConfig \<Rightarrow> world \<Rightarrow> (error + string) \<times> world" where
  "Client_CreateSubscription P c ident cfg w =
     (let name = Client_Subscription c ident in
      case rpc_fault P (rpcs w) of
        Some e \<Rightarrow> (Inl e, called (CreateSubscription name cfg) (Some e) w)
      | None \<Rightarrow>
          if name \<in> dom (subscriptions (broker w))
          then (Inl (LibError ''AlreadyExists''),
                called (CreateSubscription name cfg) (Some (LibError ''AlreadyExists'')) w)
          else if Topic cfg \<notin> topics (broker w)
          then (Inl (LibError ''NotFound''),
                called (CreateSubscription name cfg) (Some (LibError ''NotFound'')) w)
          else (Inr name,
                called (CreateSubscription name cfg) None
                  (w\<lparr>broker := (broker w)\<lparr>subscriptions :=
                       (subscriptions (broker w))(name \<mapsto> cfg)\<rparr>\<rparr>)))"


section \<open>\<^verbatim>\<open>app/logs.go\<close>\<close>

text \<open>\<^verbatim>\<open>NewAppLogger\<close>. The parser \<^verbatim>\<open>slog.Level.UnmarshalText\<close> comes from the
  platform; whatever it answers, a failure resets the level to \<open>LevelInfo\<close> and joins
  the sentinel to the parser's error.\<close>

definition NewAppLogger :: "platform \<Rightarrow> string \<Rightarrow> string \<Rightarrow> Logger \<times> int \<times> error option" where
  "NewAppLogger P env levelStr =
     (let (logLevel, err) =
            (if levelStr \<noteq> []
             then (case UnmarshalText P levelStr of
                     Inl e \<Rightarrow> (LevelInfo, errors_Join [Some ErrUnknownLogLevel, Some e])
                   | Inr l \<Rightarrow> (l, None))
             else (LevelInfo, None));
          logger =
            (if env = ''local''
             then \<lparr>handler = TintHandler, AddSource = True, Level = logLevel\<rparr>
             else \<lparr>handler = JSONHandler, AddSource = False, Level = logLevel\<rparr>)
      in (logger, logLevel, err))"

section \<open>\<^verbatim>\<open>main.go\<close>\<close>

text \<open>A step of \<open>main\<close> either halts the program (\<open>Inl\<close>) or hands a value on;
  \<open>then_do\<close> runs the rest only in the second case.\<close>

definition then_do ::
  "(halt + 'a) \<times> world \<Rightarrow> ('a \<Rightarrow> world \<Rightarrow> (halt + 'b) \<times> world) \<Rightarrow> (halt + 'b) \<times> world" where
  "then_do r k = (case r of (Inl h, w) \<Rightarrow> (Inl h, w) | (Inr a, w) \<Rightarrow> k a w)"

text \<open>\<^verbatim>\<open>log.Fatal\<close>, \<^verbatim>\<open>log.Fatalln\<close>, \<^verbatim>\<open>log.Fatalf\<close>: print, then
  \<^verbatim>\<open>os.Exit(1)\<close>; deferred calls do not run.\<close>

definition log_Fatal :: "string \<Rightarrow> fmtarg list \<Rightarrow> world \<Rightarrow> (halt + 'a) \<times> world" where
  "log_Fatal f args w = (Inl (OsExit 1), say (StdLogFatal f args) w)"

subsection \<open>\<^verbatim>\<open>waitForPubSubEmulator\<close>\<close>

text \<open>\<^verbatim>\<open>time.Now()\<close>: the state after the reading; the time read is its \<open>now\<close>.\<close>

definition time_Now :: "platform \<Rightarrow> world \<Rightarrow> world" where
  "time_Now P w = w\<lparr>now := now w + int (tick P (reads w)), reads := Suc (reads w)\<rparr>"

text \<open>The body of the \<^verbatim>\<open>for\<close> loop. Time passes before a reading of the clock,
  while a dial is under way and during the sleep (the two seconds asked for, and what
  the scheduler adds).\<close>

function waitLoop :: "platform \<Rightarrow> string \<Rightarrow> int \<Rightarrow> int \<Rightarrow> world \<Rightarrow> error option \<times> world" where
  "waitLoop P emulatorHost timeout deadline w =
     (let w0 = time_Now P w in
      if now w0 > deadline
      then (Some (Errorf ''Pub/Sub emulator did not become available within %s''
                    [ADuration timeout]), w0)
      else
        (let a = dial P (dials w0);
             w1 = (say (NetDial ''tcp'' emulatorHost) w0)
                    \<lparr>now := now w0 + int (dial_elapsed a), dials := Suc (dials w0)\<rparr>
         in case dial_err a of
              None \<Rightarrow>
                (None,
                 say (Slog LevelInfo ''Pub/Sub emulator is ready'' []
                        [slog_String ''host'' emulatorHost])
                   (say ConnClose w1))
            | Some err \<Rightarrow>
                waitLoop P emulatorHost timeout deadline
                  ((say (Sleep (2 * Second))
                     (say (Slog LevelDebug ''Waiting for Pub/Sub emulator to be ready...'' []
                             [slog_String ''host'' emulatorHost, slog_Any ''error'' err])
                        w1))
                     \<lparr>now := now w1 + 2 * Second + int (oversleep a)\<rparr>)))"
  by pat_completeness auto
termination
  by (relation "measure (\<lambda>(P, h, t, deadline, w). nat (deadline - now w + 1))")
     (auto simp: say_def time_Now_def Second_def)

declare waitLoop.simps [simp del]

text \<open>The deadline is the time read at line 164 plus the timeout.\<close>

definition waitForPubSubEmulator ::
  "platform \<Rightarrow> string \<Rightarrow> Logger \<Rightarrow> int \<Rightarrow> world \<Rightarrow> error option \<times> world" where
  "waitForPubSubEmulator P emulatorHost logger timeout w =
     (let w0 = time_Now P w;
          deadline = now w0 + timeout
      in waitLoop P emulatorHost timeout deadline w0)"

subsection \<open>The sections of \<^verbatim>\<open>main\<close>\<close>

text \<open>Dotenv initialization (lines 22 to 33): the environment the rest reads.\<close>

definition dotenv_init :: "platform \<Rightarrow> world \<Rightarrow> (halt + (string \<rightharpoonup> string)) \<times> world" where
  "dotenv_init P w =
     (case Getwd P of
        Inl err \<Rightarrow> log_Fatal ''Error getting pwd'' [] w
      | Inr pwd \<Rightarrow>
          (let path = filepath_Join pwd ''../setup-pubsub-emulator/.env'' in
           if Getenv (environ P) (ENVVAR_ENV P) = ''local''
           then (case godotenv_Load P path (environ P) of
                   Inl err \<Rightarrow> log_Fatal ''Error loading .env file'' [] w
                 | Inr env \<Rightarrow> (Inr env, w))
           else (Inr (environ P), w)))"

text \<open>Lines 51 to 64: what \<open>main\<close> does with the error of \<^verbatim>\<open>NewAppLogger\<close>.\<close>

definition check_logger_err ::
  "platform \<Rightarrow> Logger \<Rightarrow> int \<Rightarrow> error option \<Rightarrow> world \<Rightarrow> (halt + unit) \<times> world" where
  "check_logger_err P logger logLevel err w =
     (case err of
        None \<Rightarrow> (Inr (), w)
      | Some e \<Rightarrow>
          if errors_Is e ErrUnknownLogLevel
          then (Inr (),
                say (Slog LevelWarn ''Failed to parse log level envvar'' []
                       [slog_Any ''error''
                          (Errorf ''failed to parse %s envvar, using log level %s, err: %s''
                             [AString (ENVVAR_LOG_LEVEL P), ALevel logLevel, AError e])]) w)
          else (Inl EarlyReturn,
                say (Slog LevelError ''Failed to configure logger'' [] [slog_Any ''error'' e]) w))"

text \<open>Logger setup (lines 41 to 64).\<close>

definition logger_setup ::
  "platform \<Rightarrow> (string \<rightharpoonup> string) \<Rightarrow> world \<Rightarrow> (halt + Logger) \<times> world" where
  "logger_setup P env w =
     (case NewAppLogger P (Getenv env (ENVVAR_ENV P)) (Getenv env (ENVVAR_LOG_LEVEL P)) of
        (logger, logLevel, err) \<Rightarrow>
          then_do
            (check_logger_err P logger logLevel err
               (say (SetLogLoggerLevel logLevel) (say (SetDefault logger) w)))
            (\<lambda>_ w. (Inr logger, w)))"

text \<open>Validation of the environment (lines 65 to 73).\<close>

definition validate_env ::
  "string \<Rightarrow> string \<Rightarrow> string \<Rightarrow> string \<Rightarrow> string \<Rightarrow> world \<Rightarrow> (halt + unit) \<times> world" where
  "validate_env emulatorHost projectID topicID subID dltID w =
     (if emulatorHost = []
      then log_Fatal (''PUBSUB_EMULATOR_HOST environment variable not set. '' @
                      ''Please set it to e.g., 'localhost:8085'' @ [CHR 0x27]) [] w
      else if projectID = []
      then log_Fatal (''PUBSUB_PROJECT_ID environment variable not set. '' @
                      ''Please set it to your dummy project ID.'') [] w
      else if topicID = [] \<or> subID = [] \<or> dltID = []
      then log_Fatal (''PUB_SUB_TOPIC_ID, PUB_SUB_SUBSCRIPTION_ID, or DLT_TOPIC_ID '' @
                      ''environment variable(s) not set.'') [] w
      else (Inr (), w))"

text \<open>Resolution of the emulator's address (lines 75 to 79).\<close>

definition resolve_addr ::
  "platform \<Rightarrow> Logger \<Rightarrow> string \<Rightarrow> world \<Rightarrow> (halt + string) \<times> world" where
  "resolve_addr P logger emulatorHost w =
     (case ResolveTCPAddr P emulatorHost of
        Inl err \<Rightarrow>
          (Inl (OsExit 1),
           say (Slog LevelError ''Failed to resolve emulator hostname'' []
                  [slog_Any ''error'' err]) w)
      | Inr addr \<Rightarrow> (Inr addr, w))"

text \<open>The readiness wait (lines 81 to 85), thirty seconds at most.\<close>

definition wait_ready :: "platform \<Rightarrow> Logger \<Rightarrow> string \<Rightarrow> world \<Rightarrow> (halt + unit) \<times> world" where
  "wait_ready P logger addr w =
     (case waitForPubSubEmulator P addr logger (30 * Second) w of
        (Some err, w') \<Rightarrow>
          (Inl (OsExit 1),
           say (Slog LevelError ''Pub/Sub emulator not ready'' [] [slog_Any ''error'' err]) w')
      | (None, w') \<Rightarrow> (Inr (), w'))"

text \<open>The client (lines 87 to 93).\<close>

definition new_client ::
  "platform \<Rightarrow> Logger \<Rightarrow> string \<Rightarrow> string \<Rightarrow> world \<Rightarrow> (halt + Client) \<times> world" where
  "new_client P logger emulatorHost project w =
     (case NewClient_err P of
        Some err \<Rightarrow>
          log_Fatal ''Failed to create Pub/Sub client: %v'' [AError err]
            (say (NewClient project (Some err)) w)
      | None \<Rightarrow>
          (Inr \<lparr>client_project = project\<rparr>,
           say (Slog LevelInfo ''Connecting to Pub/Sub emulator at %s for project %s''
                  [AAttr ''emulatorHost'' emulatorHost, AAttr ''projectID'' project] [])
             (say (NewClient project None) w)))"

text \<open>1. Create Dead-Letter Topic (lines 95 to 110); the handle is handed on.\<close>

definition create_dlt_topic ::
  "platform \<Rightarrow> Logger \<Rightarrow> Client \<Rightarrow> string \<Rightarrow> world \<Rightarrow> (halt + string) \<times> world" where
  "create_dlt_topic P logger client dltID w =
     (let dltTopic = Client_Topic client dltID in
      case Topic_Exists P dltTopic
             (say (Slog LevelInfo ''Creating DLT topic...'' [] [slog_String ''dltID'' dltID]) w) of
        (Inl err, w1) \<Rightarrow> log_Fatal ''Failed to check DLT topic existence: %v'' [AError err] w1
      | (Inr exists, w1) \<Rightarrow>
          if exists
          then (Inr dltTopic,
                say (Slog LevelWarn ''DLT topic '%s' already exists.''
                       [AAttr ''dltID'' dltID] []) w1)
          else
            (case Client_CreateTopic P client dltID w1 of
               (Inl err, w2) \<Rightarrow>
                 log_Fatal ''Failed to create DLT topic '%s': %v'' [AString dltID, AError err] w2
             | (Inr _, w2) \<Rightarrow>
                 (Inr dltTopic,
                  say (Slog LevelInfo ''DLT topic '%s' created successfully.''
                         [AAttr ''dltID'' dltID] []) w2)))"

text \<open>2. Create Main Topic (lines 112 to 127).\<close>

definition create_main_topic ::
  "platform \<Rightarrow> Logger \<Rightarrow> Client \<Rightarrow> string \<Rightarrow> world \<Rightarrow> (halt + string) \<times> world" where
  "create_main_topic P logger client topicID w =
     (let topic = Client_Topic client topicID in
      case Topic_Exists P topic
             (say (Slog LevelInfo ''Creating main topic '%s'...''
                     [AAttr ''topicID'' topicID] []) w) of
        (Inl err, w1) \<Rightarrow> log_Fatal ''Failed to check main topic existence: %v'' [AError err] w1
      | (Inr exists, w1) \<Rightarrow>
          if exists
          then (Inr topic,
                say (Slog LevelWarn ''Main topic '%s' already exists.''
                       [AAttr ''topicID'' topicID] []) w1)
          else
            (case Client_CreateTopic P client topicID w1 of
               (Inl err, w2) \<Rightarrow>
                 log_Fatal ''Failed to create main topic '%s': %v''
                   [AString topicID, AError err] w2
             | (Inr _, w2) \<Rightarrow>
                 (Inr topic,
                  say (Slog LevelInfo ''Main topic '%s' created successfully.''
                         [AAttr ''topicID'' topicID] []) w2)))"

text \<open>The literal of lines 145 to 152.\<close>

definition subConfig :: "string \<Rightarrow> string \<Rightarrow> SubscriptionConfig" where
  "subConfig topic dltTopic =
     \<lparr>Topic = topic,
      PushConfig = \<lparr>Endpoint = []\<rparr>,
      AckDeadline = 60 * Second,
      DeadLetterPolicy = Some \<lparr>DeadLetterTopic = dltTopic, MaxDeliveryAttempts = 10\<rparr>\<rparr>"

text \<open>3. Create Pull Subscription (lines 129 to 158).\<close>

definition delete_if_present ::
  "platform \<Rightarrow> string \<Rightarrow> string \<Rightarrow> bool \<Rightarrow> world \<Rightarrow> (halt + unit) \<times> world" where
  "delete_if_present P subID sub exists w =
     (if exists
      then (case Subscription_Delete P sub
                   (say (Slog LevelWarn
                           (''Subscription '%s' already exists. '' @
                            ''Deleting and recreating for fresh config.'')
                           [AAttr ''subID'' subID] []) w) of
              (Some err, w1) \<Rightarrow>
                log_Fatal ''Failed to delete existing subscription '%s': %v''
                  [AString subID, AError err] w1
            | (None, w1) \<Rightarrow>
                (Inr (),
                 say (Slog LevelInfo ''Existing subscription '%s' deleted.''
                        [AAttr ''subID'' subID] []) w1))
      else (Inr (), w))"

definition create_pull_subscription ::
  "platform \<Rightarrow> Logger \<Rightarrow> Client \<Rightarrow> string \<Rightarrow> string \<Rightarrow> string \<Rightarrow> string \<Rightarrow> world
     \<Rightarrow> (halt + unit) \<times> world" where
  "create_pull_subscription P logger client subID topicID topic dltTopic w =
     (let sub = Client_Subscription client subID in
      case Subscription_Exists P sub
             (say (Slog LevelInfo ''Creating PULL subscription '%s' to topic '%s'...''
                     [AAttr ''subID'' subID, AAttr ''topicID'' topicID] []) w) of
        (Inl err, w1) \<Rightarrow> log_Fatal ''Failed to check subscription existence: %v'' [AError err] w1
      | (Inr exists, w1) \<Rightarrow>
          then_do (delete_if_present P subID sub exists w1)
            (\<lambda>_ w2.
               case Client_CreateSubscription P client subID (subConfig topic dltTopic) w2 of
                 (Inl err, w3) \<Rightarrow>
                   log_Fatal ''Failed to create push subscription '%s': %v''
                     [AString subID, AError err] w3
               | (Inr _, w3) \<Rightarrow>
                   (Inr (),
                    say (Slog LevelInfo ''PULL subscription '%s' created successfully.''
                           [AAttr ''subID'' subID] []) w3)))"

text \<open>The three numbered sections in their order, then the last log line and the
  deferred \<^verbatim>\<open>client.Close()\<close>, which runs only when \<open>main\<close> returns.\<close>

definition provision ::
  "platform \<Rightarrow> Logger \<Rightarrow> Client \<Rightarrow> string \<Rightarrow> string \<Rightarrow> string \<Rightarrow> world \<Rightarrow> (halt + unit) \<times> world" where
  "provision P logger client topicID subID dltID w =
     then_do (create_dlt_topic P logger client dltID w) (\<lambda>dltTopic w.
     then_do (create_main_topic P logger client topicID w) (\<lambda>topic w.
     then_do (create_pull_subscription P logger client subID topicID topic dltTopic w) (\<lambda>_ w.
       (Inr (), say ClientClose (say (Slog LevelInfo ''Pub/Sub emulator setup complete.'' [] []) w)))))"

text \<open>\<^verbatim>\<open>main\<close> of \<^verbatim>\<open>main.go\<close>, run by a fresh process against the broker \<open>b\<close>.\<close>

definition main :: "platform \<Rightarrow> broker \<Rightarrow> (halt + unit) \<times> world" where
  "main P b =
     then_do (dotenv_init P (init_world P b)) (\<lambda>env w.
       let emulatorHost = Getenv env (ENVVAR_EMULATOR_HOST P);
           projectID = Getenv env (ENVVAR_GOOGLE_PROJECT_ID P);
           topicID = Getenv env (ENVVAR_TOPIC_ID P);
           subID = Getenv env (ENVVAR_SUBSCRIPTION_ID P);
           dltID = Getenv env (ENVVAR_DLT_TOPIC_ID P)
       in
     then_do (logger_setup P env w) (\<lambda>logger w.
     then_do (validate_env emulatorHost projectID topicID subID dltID w) (\<lambda>_ w.
     then_do (resolve_addr P logger emulatorHost w) (\<lambda>addr w.
     then_do (wait_ready P logger addr w) (\<lambda>_ w.
     then_do (new_client P logger emulatorHost projectID w) (\<lambda>client w.
       provision P logger client topicID subID dltID w))))))"


subsection \<open>The earlier \<^verbatim>\<open>main\<close>\<close>

text \<open>The second copy of \<^verbatim>\<open>main\<close> among the sources is an earlier one: it always
  loads the \<^verbatim>\<open>.env\<close> file (from a differently spelt directory) and does not wait for
  the emulator; the rest is the same text.\<close>

definition dotenv_init_part_000 ::
  "platform \<Rightarrow> world \<Rightarrow> (halt + (string \<rightharpoonup> string)) \<times> world" where
  "dotenv_init_part_000 P w =
     (case Getwd P of
        Inl err \<Rightarrow> log_Fatal ''Error getting pwd'' [] w
      | Inr pwd \<Rightarrow>
          (let path = filepath_Join pwd ''../setup-pusbub-emulator/.env'' in
           case godotenv_Load P path (environ P) of
             Inl err \<Rightarrow> log_Fatal ''Error loading .env file'' [] w
           | Inr env \<Rightarrow> (Inr env, w)))"

definition main_part_000 :: "platform \<Rightarrow> broker \<Rightarrow> (halt + unit) \<times> world" where
  "main_part_000 P b =
     then_do (dotenv_init_part_000 P (init_world P b)) (\<lambda>env w.
       let emulatorHost = Getenv env (ENVVAR_EMULATOR_HOST P);
           projectID = Getenv env (ENVVAR_GOOGLE_PROJECT_ID P);
           topicID = Getenv env (ENVVAR_TOPIC_ID P);
           subID = Getenv env (ENVVAR_SUBSCRIPTION_ID P);
           dltID = Getenv env (ENVVAR_DLT_TOPIC_ID P)
       in
     then_do (logger_setup P env w) (\<lambda>logger w.
     then_do (validate_env emulatorHost projectID topicID subID dltID w) (\<lambda>_ w.
     then_do (new_client P logger emulatorHost projectID w) (\<lambda>client w.
       provision P logger client topicID subID dltID w))))"

section \<open>A sample platform\<close>

text \<open>A concrete platform for running the definitions: the variable names of the
  README's \<^verbatim>\<open>.env\<close> example, a parser that knows the four level names of
  \<^verbatim>\<open>slog\<close> in capitals (the real one accepts more spellings), no \<^verbatim>\<open>.env\<close>
  file, an emulator that refuses the first two dials, and a faultless transport.\<close>

definition sample_UnmarshalText :: "string \<Rightarrow> error + int" where
  "sample_UnmarshalText s =
     (if s = ''DEBUG'' then Inr LevelDebug
      else if s = ''INFO'' then Inr LevelInfo
      else if s = ''WARN'' then Inr LevelWarn
      else if s = ''ERROR'' then Inr LevelError
      else Inl (LibError ''slog: level string: unknown name''))"

definition sample_environ :: "string \<rightharpoonup> string" where
  "sample_environ =
     [''PUBSUB_EMULATOR_ENV'' \<mapsto> ''dev'',
      ''PUBSUB_EMULATOR_LOG_LEVEL'' \<mapsto> ''verbose'',
      ''PUBSUB_EMULATOR_HOST'' \<mapsto> ''localhost:8085'',
      ''PUBSUB_EMULATOR_GOOGLE_PROJECT_ID'' \<mapsto> ''p'',
      ''PUBSUB_EMULATOR_TOPIC_ID'' \<mapsto> ''t'',
      ''PUBSUB_EMULATOR_SUBSCRIPTION_ID'' \<mapsto> ''s'',
      ''PUBSUB_EMULATOR_DLT_TOPIC_ID'' \<mapsto> ''d'']"

definition sample_dial :: "nat \<Rightarrow> attempt" where
  "sample_dial n =
     \<lparr>dial_elapsed = 1000000,
      dial_err = (if n < 2 then Some (LibError ''connection refused'') else None),
      oversleep = 0\<rparr>"

definition sample_platform :: platform where
  "sample_platform =
     \<lparr>ENVVAR_ENV = ''PUBSUB_EMULATOR_ENV'',
      ENVVAR_LOG_LEVEL = ''PUBSUB_EMULATOR_LOG_LEVEL'',
      ENVVAR_EMULATOR_HOST = ''PUBSUB_EMULATOR_HOST'',
      ENVVAR_GOOGLE_PROJECT_ID = ''PUBSUB_EMULATOR_GOOGLE_PROJECT_ID'',
      ENVVAR_TOPIC_ID = ''PUBSUB_EMULATOR_TOPIC_ID'',
      ENVVAR_SUBSCRIPTION_ID = ''PUBSUB_EMULATOR_SUBSCRIPTION_ID'',
      ENVVAR_DLT_TOPIC_ID = ''PUBSUB_EMULATOR_DLT_TOPIC_ID'',
      UnmarshalText = sample_UnmarshalText,
      environ = sample_environ,
      Getwd = Inr ''/app'',
      dotenv_file = (\<lambda>path. Inr Map.empty),
      ResolveTCPAddr = (\<lambda>host. Inr ''127.0.0.1:8085''),
      dial = sample_dial,
      NewClient_err = None,
      rpc_fault = (\<lambda>n. None),
      boot_time = 0,
      tick = (\<lambda>n. 100)\<rparr>"

definition empty_broker :: broker where
  "empty_broker = \<lparr>topics = {}, subscriptions = Map.empty\<rparr>"

text \<open>A broker that already holds the subscription, as a push subscription on
  another topic.\<close>

definition stale_broker :: broker where
  "stale_broker =
     \<lparr>topics = {''projects/p/topics/t''},
      subscriptions =
        [''projects/p/subscriptions/s'' \<mapsto>
           \<lparr>Topic = ''projects/p/topics/old'',
            PushConfig = \<lparr>Endpoint = ''http://worker/push''\<rparr>,
            AckDeadline = 10 * Second,
            DeadLetterPolicy = None\<rparr>]\<rparr>"

subsection \<open>Variants of the sample\<close>

text \<open>The network on a later day: every dial succeeds at once and no call fails.\<close>

definition settled_network :: "platform \<Rightarrow> platform" where
  "settled_network P =
     P\<lparr>ResolveTCPAddr := (\<lambda>host. Inr ''[::1]:8085''),
       dial := (\<lambda>n. \<lparr>dial_elapsed = 0, dial_err = None, oversleep = 0\<rparr>),
       NewClient_err := None,
       rpc_fault := (\<lambda>n. None),
       boot_time := 86400 * Second,
       tick := (\<lambda>n. 1)\<rparr>"

text \<open>The broker the sample run leaves.\<close>

definition provisioned_broker :: broker where
  "provisioned_broker =
     \<lparr>topics = {''projects/p/topics/t'', ''projects/p/topics/d''},
      subscriptions =
        [''projects/p/subscriptions/s'' \<mapsto>
           subConfig ''projects/p/topics/t'' ''projects/p/topics/d'']\<rparr>"

text \<open>The transport fails the fifth call to the broker (on the stale broker, the
  deletion of the subscription).\<close>

definition failing_delete :: "platform \<Rightarrow> platform" where
  "failing_delete P =
     P\<lparr>rpc_fault := (\<lambda>n. if n = 4 then Some (LibError ''unavailable'') else None)\<rparr>"

text \<open>The topic identifier is not set.\<close>

definition without_topic_id :: "platform \<Rightarrow> platform" where
  "without_topic_id P = P\<lparr>environ := (environ P)(ENVVAR_TOPIC_ID P := None)\<rparr>"

text \<open>An emulator that refuses every dial.\<close>

definition never_ready :: "platform \<Rightarrow> platform" where
  "never_ready P =
     P\<lparr>dial := (\<lambda>n. \<lparr>dial_elapsed = 0, dial_err = Some (LibError ''connection refused''),
                     oversleep = 0\<rparr>)\<rparr>"

text \<open>An emulator that accepts the first dial, five seconds after it was begun.\<close>

definition slow_ready :: "platform \<Rightarrow> platform" where
  "slow_ready P =
     P\<lparr>dial := (\<lambda>n. \<lparr>dial_elapsed = 5000000000, dial_err = None, oversleep = 0\<rparr>)\<rparr>"

definition sample_logger :: Logger where
  "sample_logger = \<lparr>handler = JSONHandler, AddSource = False, Level = LevelInfo\<rparr>"

definition sample_client :: Client where
  "sample_client = \<lparr>client_project = ''p''\<rparr>"

section \<open>Notions for stating the properties\<close>

text \<open>The events of one round of the polling loop, by the outcome of its dial.\<close>

definition attempt_events :: "string \<Rightarrow> attempt \<Rightarrow> event list" where
  "attempt_events host a =
     (case dial_err a of
        None \<Rightarrow> [NetDial ''tcp'' host, ConnClose,
                 Slog LevelInfo ''Pub/Sub emulator is ready'' [] [slog_String ''host'' host]]
      | Some err \<Rightarrow> [NetDial ''tcp'' host,
                 Slog LevelDebug ''Waiting for Pub/Sub emulator to be ready...'' []
                   [slog_String ''host'' host, slog_Any ''error'' err],
                 Sleep (2 * Second)])"

text \<open>The time the next round of the loop takes, and the clock reading at the check
  of the \<open>j\<close>-th round of a loop entered in the state \<open>w\<close>, if all rounds before it
  failed.\<close>

definition round_time :: "attempt \<Rightarrow> int" where
  "round_time a = int (dial_elapsed a) + 2 * Second + int (oversleep a)"

primrec check_time :: "platform \<Rightarrow> world \<Rightarrow> nat \<Rightarrow> int" where
  "check_time P w 0 = now w + int (tick P (reads w))"
| "check_time P w (Suc j) =
     check_time P w j + round_time (dial P (dials w + j)) + int (tick P (reads w + Suc j))"

text \<open>The state after a round whose dial failed.\<close>

definition after_failed :: "platform \<Rightarrow> string \<Rightarrow> world \<Rightarrow> world" where
  "after_failed P host w =
     w\<lparr>now := check_time P w 0 + round_time (dial P (dials w)),
       dials := Suc (dials w),
       reads := Suc (reads w),
       trace := trace w @ attempt_events host (dial P (dials w))\<rparr>"

text \<open>The state after a round whose dial succeeded.\<close>

definition after_ready :: "platform \<Rightarrow> string \<Rightarrow> world \<Rightarrow> world" where
  "after_ready P host w =
     w\<lparr>now := check_time P w 0 + int (dial_elapsed (dial P (dials w))),
       dials := Suc (dials w),
       reads := Suc (reads w),
       trace := trace w @ attempt_events host (dial P (dials w))\<rparr>"

text \<open>The calls to the broker in a trace, oldest first, each with its result.\<close>

fun rpc_calls :: "event list \<Rightarrow> (call \<times> error option) list" where
  "rpc_calls [] = []"
| "rpc_calls (Rpc c r # tr) = (c, r) # rpc_calls tr"
| "rpc_calls (ev # tr) = rpc_calls tr"

text \<open>No call failed.\<close>

definition succeeded :: "(call \<times> error option) list \<Rightarrow> bool" where
  "succeeded cs = list_all (\<lambda>cr. snd cr = None) cs"

text \<open>After a failed call the trace holds one fatal log line and ends.\<close>

fun halts_on_error :: "event list \<Rightarrow> bool" where
  "halts_on_error [] = True"
| "halts_on_error (Rpc c (Some e) # rest) =
     (case rest of [StdLogFatal f a] \<Rightarrow> True | _ \<Rightarrow> False)"
| "halts_on_error (ev # rest) = halts_on_error rest"

text \<open>The events that only log.\<close>

fun is_logging :: "event \<Rightarrow> bool" where
  "is_logging (Slog lvl msg args attrs) = True"
| "is_logging (StdLogFatal msg args) = True"
| "is_logging (SetDefault logger) = True"
| "is_logging (SetLogLoggerLevel lvl) = True"
| "is_logging ev = False"

text \<open>The calls a run issues when none fails, from the broker \<open>b\<close> it starts on: the
  dead-letter topic \<open>d\<close> first, then the main topic \<open>t\<close> (which is there already when
  it is \<open>d\<close>), then the subscription \<open>s\<close>.\<close>

definition plan ::
  "broker \<Rightarrow> string \<Rightarrow> string \<Rightarrow> string \<Rightarrow> SubscriptionConfig \<Rightarrow> call list" where
  "plan b d t s cfg =
     [TopicExists d] @ (if d \<in> topics b then [] else [CreateTopic d]) @
     [TopicExists t] @ (if t \<in> insert d (topics b) then [] else [CreateTopic t]) @
     [SubscriptionExists s] @ (if s \<in> dom (subscriptions b) then [SubscriptionDelete s] else []) @
     [CreateSubscription s cfg]"

text \<open>The full names of the three resources, from the environment \<open>main\<close> reads.\<close>

definition dltName :: "platform \<Rightarrow> (string \<rightharpoonup> string) \<Rightarrow> string" where
  "dltName P env =
     Client_Topic \<lparr>client_project = Getenv env (ENVVAR_GOOGLE_PROJECT_ID P)\<rparr>
       (Getenv env (ENVVAR_DLT_TOPIC_ID P))"

definition topicName :: "platform \<Rightarrow> (string \<rightharpoonup> string) \<Rightarrow> string" where
  "topicName P env =
     Client_Topic \<lparr>client_project = Getenv env (ENVVAR_GOOGLE_PROJECT_ID P)\<rparr>
       (Getenv env (ENVVAR_TOPIC_ID P))"

definition subName :: "platform \<Rightarrow> (string \<rightharpoonup> string) \<Rightarrow> string" where
  "subName P env =
     Client_Subscription \<lparr>client_project = Getenv env (ENVVAR_GOOGLE_PROJECT_ID P)\<rparr>
       (Getenv env (ENVVAR_SUBSCRIPTION_ID P))"

text \<open>What a topic section and the subscription section can do, as the calls they add
  to the trace, their result and their effect on the broker; and a stretch of a run
  that leaves the broker alone. These serve the proofs only.\<close>

definition topic_step ::
  "string \<Rightarrow> world \<Rightarrow> (halt + string) \<Rightarrow> world \<Rightarrow> (call \<times> error option) list \<Rightarrow> bool" where
  "topic_step d w r w' cs \<longleftrightarrow>
     subscriptions (broker w') = subscriptions (broker w) \<and>
     ((\<exists>e. cs = [(TopicExists d, Some e)] \<and> r = Inl (OsExit 1) \<and>
           topics (broker w') = topics (broker w)) \<or>
      (cs = [(TopicExists d, None)] \<and> d \<in> topics (broker w) \<and> r = Inr d \<and>
           topics (broker w') = topics (broker w)) \<or>
      (\<exists>e. cs = [(TopicExists d, None), (CreateTopic d, Some e)] \<and> d \<notin> topics (broker w) \<and>
           r = Inl (OsExit 1) \<and> topics (broker w') = topics (broker w)) \<or>
      (cs = [(TopicExists d, None), (CreateTopic d, None)] \<and> d \<notin> topics (broker w) \<and>
           r = Inr d \<and> topics (broker w') = insert d (topics (broker w))))"

definition sub_step ::
  "string \<Rightarrow> SubscriptionConfig \<Rightarrow> world \<Rightarrow> (halt + unit) \<Rightarrow> world
     \<Rightarrow> (call \<times> error option) list \<Rightarrow> bool" where
  "sub_step s cfg w r w' cs \<longleftrightarrow>
     topics (broker w') = topics (broker w) \<and>
     ((\<exists>e. cs = [(SubscriptionExists s, Some e)] \<and> r = Inl (OsExit 1)) \<or>
      (\<exists>e. cs = [(SubscriptionExists s, None), (SubscriptionDelete s, Some e)] \<and>
           s \<in> dom (subscriptions (broker w)) \<and> r = Inl (OsExit 1)) \<or>
      (\<exists>e. cs = [(SubscriptionExists s, None), (SubscriptionDelete s, None),
                 (CreateSubscription s cfg, Some e)] \<and>
           s \<in> dom (subscriptions (broker w)) \<and> r = Inl (OsExit 1)) \<or>
      (cs = [(SubscriptionExists s, None), (SubscriptionDelete s, None),
             (CreateSubscription s cfg, None)] \<and>
           s \<in> dom (subscriptions (broker w)) \<and> r = Inr () \<and>
           subscriptions (broker w') = (subscriptions (broker w))(s \<mapsto> cfg)) \<or>
      (\<exists>e. cs = [(SubscriptionExists s, None), (CreateSubscription s cfg, Some e)] \<and>
           s \<notin> dom (subscriptions (broker w)) \<and> r = Inl (OsExit 1)) \<or>
      (cs = [(SubscriptionExists s, None), (CreateSubscription s cfg, None)] \<and>
           s \<notin> dom (subscriptions (broker w)) \<and> r = Inr () \<and>
           subscriptions (broker w') = (subscriptions (broker w))(s \<mapsto> cfg)))"

definition quiet :: "world \<Rightarrow> world \<Rightarrow> bool" where
  "quiet w w' \<longleftrightarrow>
     broker w' = broker w \<and> rpcs w' = rpcs w \<and>
     (\<exists>evs. trace w' = trace w @ evs \<and> rpc_calls evs = [])"

section \<open>Properties\<close>

subsection \<open>The polling loop, round by round\<close>

lemma now_time_Now: "now (time_Now P w) = check_time P w 0"
  by (simp add: time_Now_def)

lemma waitLoop_timeout:
  "deadline < check_time P w 0 \<Longrightarrow>
   waitLoop P host timeout deadline w =
     (Some (Errorf ''Pub/Sub emulator did not become available within %s'' [ADuration timeout]),
      time_Now P w)"
  by (subst waitLoop.simps) (simp add: Let_def now_time_Now)

lemma waitLoop_ready:
  "\<not> deadline < check_time P w 0 \<Longrightarrow> dial_err (dial P (dials w)) = None \<Longrightarrow>
   waitLoop P host timeout deadline w = (None, after_ready P host w)"
  by (subst waitLoop.simps)
     (auto simp: Let_def time_Now_def say_def attempt_events_def after_ready_def
        intro!: world.equality)

lemma waitLoop_retry:
  "\<not> deadline < check_time P w 0 \<Longrightarrow> dial_err (dial P (dials w)) = Some err \<Longrightarrow>
   waitLoop P host timeout deadline w =
     waitLoop P host timeout deadline (after_failed P host w)"
proof -
  assume a: "\<not> deadline < check_time P w 0" "dial_err (dial P (dials w)) = Some err"
  let ?a = "dial P (dials w)"
  let ?w0 = "time_Now P w"
  let ?w1 = "(say (NetDial ''tcp'' host) ?w0)
               \<lparr>now := now ?w0 + int (dial_elapsed ?a), dials := Suc (dials ?w0)\<rparr>"
  have "(say (Sleep (2 * Second))
           (say (Slog LevelDebug ''Waiting for Pub/Sub emulator to be ready...'' []
                   [slog_String ''host'' host, slog_Any ''error'' err]) ?w1))
          \<lparr>now := now ?w1 + 2 * Second + int (oversleep ?a)\<rparr> = after_failed P host w"
    using a by (auto simp: time_Now_def say_def attempt_events_def after_failed_def
        round_time_def intro!: world.equality)
  with a show ?thesis
    by (subst waitLoop.simps) (simp add: Let_def now_time_Now time_Now_def)
qed

lemma after_failed_simps:
  "dials (after_failed P host w) = Suc (dials w)"
  "reads (after_failed P host w) = Suc (reads w)"
  "broker (after_failed P host w) = broker w"
  "rpcs (after_failed P host w) = rpcs w"
  "trace (after_failed P host w) = trace w @ attempt_events host (dial P (dials w))"
  "now (after_failed P host w) = check_time P w 0 + round_time (dial P (dials w))"
  by (simp_all add: after_failed_def)

lemma after_ready_simps:
  "dials (after_ready P host w) = Suc (dials w)"
  "reads (after_ready P host w) = Suc (reads w)"
  "broker (after_ready P host w) = broker w"
  "rpcs (after_ready P host w) = rpcs w"
  "trace (after_ready P host w) = trace w @ attempt_events host (dial P (dials w))"
  "now (after_ready P host w) = check_time P w 0 + int (dial_elapsed (dial P (dials w)))"
  by (simp_all add: after_ready_def)

lemma time_Now_simps:
  "dials (time_Now P w) = dials w"
  "reads (time_Now P w) = Suc (reads w)"
  "broker (time_Now P w) = broker w"
  "rpcs (time_Now P w) = rpcs w"
  "trace (time_Now P w) = trace w"
  by (simp_all add: time_Now_def)

lemma round_time_ge: "2 * Second \<le> round_time a"
  by (simp add: round_time_def)

lemma check_time_after_failed:
  "check_time P (after_failed P host w) j = check_time P w (Suc j)"
  by (induction j) (simp_all add: after_failed_simps)

lemma check_time_mono: "check_time P w j \<le> check_time P w (Suc j)"
  using round_time_ge [of "dial P (dials w + j)"] by (simp add: Second_def)

lemma check_time_grows: "check_time P w 0 + 2 * Second * int j \<le> check_time P w j"
proof (induction j)
  case 0
  show ?case by simp
next
  case (Suc j)
  with round_time_ge [of "dial P (dials w + j)"] show ?case
    by (simp add: algebra_simps)
qed

lemma waitLoop_induct [consumes 0, case_names timeout ready retry]:
  assumes "\<And>w. deadline < check_time P w 0 \<Longrightarrow> Q w"
    and "\<And>w. \<not> deadline < check_time P w 0 \<Longrightarrow> dial_err (dial P (dials w)) = None \<Longrightarrow> Q w"
    and "\<And>w err. \<not> deadline < check_time P w 0 \<Longrightarrow> dial_err (dial P (dials w)) = Some err \<Longrightarrow>
           Q (after_failed P host w) \<Longrightarrow> Q w"
  shows "Q w"
proof (induction w rule: measure_induct_rule [where f = "\<lambda>w. nat (deadline - now w + 1)"])
  case (less w)
  show ?case
  proof (cases "deadline < check_time P w 0")
    case True
    then show ?thesis by (rule assms(1))
  next
    case False
    show ?thesis
    proof (cases "dial_err (dial P (dials w))")
      case None
      with False show ?thesis by (rule assms(2))
    next
      case (Some err)
      have "nat (deadline - now (after_failed P host w) + 1) < nat (deadline - now w + 1)"
        using False round_time_ge [of "dial P (dials w)"]
        by (simp add: after_failed_simps Second_def)
      then have "Q (after_failed P host w)" by (rule less.IH)
      with False Some show ?thesis by (rule assms(3))
    qed
  qed
qed


lemma waitLoop_frame:
  "waitLoop P host timeout deadline w = (r, w') \<Longrightarrow>
     broker w' = broker w \<and> rpcs w' = rpcs w \<and> dials w \<le> dials w'"
proof (induction w rule: waitLoop_induct [where deadline = deadline and P = P and host = host])
  case (timeout w)
  then show ?case by (auto simp: waitLoop_timeout time_Now_simps)
next
  case (ready w)
  then show ?case by (auto simp: waitLoop_ready after_ready_simps)
next
  case (retry w err)
  then show ?case by (simp add: waitLoop_retry after_failed_simps)
qed

lemma waitLoop_trace:
  "waitLoop P host timeout deadline w = (r, w') \<Longrightarrow>
     trace w' = trace w @ concat (map (\<lambda>i. attempt_events host (dial P i)) [dials w..<dials w'])"
proof (induction w rule: waitLoop_induct [where deadline = deadline and P = P and host = host])
  case (timeout w)
  then show ?case by (auto simp: waitLoop_timeout time_Now_simps)
next
  case (ready w)
  then show ?case by (auto simp: waitLoop_ready after_ready_simps)
next
  case (retry w err)
  from retry.prems retry.hyps
  have run: "waitLoop P host timeout deadline (after_failed P host w) = (r, w')"
    by (simp add: waitLoop_retry)
  from waitLoop_frame [OF run] have le: "Suc (dials w) \<le> dials w'"
    by (simp add: after_failed_simps)
  then have "[dials w..<dials w'] = dials w # [Suc (dials w)..<dials w']"
    by (simp add: upt_conv_Cons)
  with retry.IH [OF run] show ?case
    by (simp add: after_failed_simps)
qed

lemma waitLoop_schedule:
  "waitLoop P host timeout deadline w = (r, w') \<Longrightarrow>
     \<exists>k. dials w' = dials w + k \<and>
       (\<forall>j<k. check_time P w j \<le> deadline) \<and>
       (\<forall>j. Suc j < k \<longrightarrow> dial_err (dial P (dials w + j)) \<noteq> None) \<and>
       (case r of
          None \<Rightarrow>
            0 < k \<and> dial_err (dial P (dials w + (k - 1))) = None \<and>
            now w' = check_time P w (k - 1) + int (dial_elapsed (dial P (dials w + (k - 1)))) \<and>
            reads w' = reads w + k
        | Some e \<Rightarrow>
            e = Errorf ''Pub/Sub emulator did not become available within %s''
                  [ADuration timeout] \<and>
            deadline < check_time P w k \<and> now w' = check_time P w k \<and>
            reads w' = Suc (reads w + k) \<and>
            (\<forall>j<k. dial_err (dial P (dials w + j)) \<noteq> None))"
proof (induction w rule: waitLoop_induct [where deadline = deadline and P = P and host = host])
  case (timeout w)
  then have "r = Some (Errorf ''Pub/Sub emulator did not become available within %s''
                  [ADuration timeout])" "w' = time_Now P w"
    by (simp_all add: waitLoop_timeout)
  with timeout(1) show ?case
    by (intro exI [of _ 0]) (simp add: time_Now_simps now_time_Now)
next
  case (ready w)
  then have "r = None" "w' = after_ready P host w"
    by (simp_all add: waitLoop_ready)
  with ready(1,2) show ?case
    by (intro exI [of _ 1]) (simp add: after_ready_simps)
next
  case (retry w err)
  let ?w2 = "after_failed P host w"
  from retry.prems retry.hyps
  have run: "waitLoop P host timeout deadline ?w2 = (r, w')"
    by (simp add: waitLoop_retry)
  from retry.IH [OF run] obtain k where
    d: "dials w' = Suc (dials w) + k" and
    st: "\<forall>j<k. check_time P w (Suc j) \<le> deadline" and
    fl: "\<forall>j. Suc j < k \<longrightarrow> dial_err (dial P (Suc (dials w) + j)) \<noteq> None" and
    res: "case r of
          None \<Rightarrow>
            0 < k \<and> dial_err (dial P (Suc (dials w) + (k - 1))) = None \<and>
            now w' = check_time P w (Suc (k - 1)) +
                     int (dial_elapsed (dial P (Suc (dials w) + (k - 1)))) \<and>
            reads w' = Suc (reads w) + k
        | Some e \<Rightarrow>
            e = Errorf ''Pub/Sub emulator did not become available within %s''
                  [ADuration timeout] \<and>
            deadline < check_time P w (Suc k) \<and> now w' = check_time P w (Suc k) \<and>
            reads w' = Suc (Suc (reads w) + k) \<and>
            (\<forall>j<k. dial_err (dial P (Suc (dials w) + j)) \<noteq> None)"
    unfolding after_failed_simps check_time_after_failed by blast
  have st': "\<forall>j<Suc k. check_time P w j \<le> deadline"
  proof (intro allI impI)
    fix j assume "j < Suc k"
    then show "check_time P w j \<le> deadline"
      using retry.hyps(1) st by (cases j) auto
  qed
  have fl': "\<forall>j. Suc j < Suc k \<longrightarrow> dial_err (dial P (dials w + j)) \<noteq> None"
  proof (intro allI impI)
    fix j assume "Suc j < Suc k"
    then show "dial_err (dial P (dials w + j)) \<noteq> None"
      using retry.hyps(2) fl by (cases j) auto
  qed
  have res': "case r of
          None \<Rightarrow>
            0 < Suc k \<and> dial_err (dial P (dials w + (Suc k - 1))) = None \<and>
            now w' = check_time P w (Suc k - 1) +
                     int (dial_elapsed (dial P (dials w + (Suc k - 1)))) \<and>
            reads w' = reads w + Suc k
        | Some e \<Rightarrow>
            e = Errorf ''Pub/Sub emulator did not become available within %s''
                  [ADuration timeout] \<and>
            deadline < check_time P w (Suc k) \<and> now w' = check_time P w (Suc k) \<and>
            reads w' = Suc (reads w + Suc k) \<and>
            (\<forall>j<Suc k. dial_err (dial P (dials w + j)) \<noteq> None)"
  proof (cases r)
    case None
    with res have "0 < k" by simp
    then obtain k' where k: "k = Suc k'" by (cases k) auto
    from res None show ?thesis unfolding k by simp
  next
    case (Some e)
    have "dial_err (dial P (dials w + j)) \<noteq> None" if "j < Suc k" for j
      using that retry.hyps(2) res Some by (cases j) auto
    with res Some show ?thesis by simp
  qed
  from d st' fl' res' show ?case
    by (intro exI [of _ "Suc k"]) simp
qed


lemma waitLoop_bound:
  assumes "\<forall>j<k. check_time P w j \<le> now w + timeout"
  shows "int k \<le> max 0 (timeout div (2 * Second) + 1)"
proof (cases k)
  case 0
  then show ?thesis by simp
next
  case (Suc k')
  with assms have "check_time P w k' \<le> now w + timeout" by simp
  moreover have "now w \<le> check_time P w 0" by simp
  ultimately have "2 * Second * int k' \<le> timeout"
    using check_time_grows [of P w k'] by linarith
  then have "(2 * Second * int k') div (2 * Second) \<le> timeout div (2 * Second)"
    by (rule zdiv_mono1) (simp add: Second_def)
  moreover have "(2 * Second * int k') div (2 * Second) = int k'"
    by (simp add: Second_def)
  ultimately have "int k' \<le> timeout div (2 * Second)" by simp
  with Suc show ?thesis by simp
qed

subsection \<open>Traces\<close>

lemma rpc_calls_append: "rpc_calls (xs @ ys) = rpc_calls xs @ rpc_calls ys"
  by (induction xs rule: rpc_calls.induct) auto

lemma halts_on_error_append:
  "succeeded (rpc_calls xs) \<Longrightarrow> halts_on_error (xs @ ys) = halts_on_error ys"
  by (induction xs rule: halts_on_error.induct) (auto simp: succeeded_def)

lemma halts_on_error_succeeded: "succeeded (rpc_calls xs) \<Longrightarrow> halts_on_error xs"
  using halts_on_error_append [of xs "[]"] by simp

lemma halts_on_errorD:
  "halts_on_error (pre @ Rpc c (Some e) # post) \<Longrightarrow> \<exists>f a. post = [StdLogFatal f a]"
proof (induction pre)
  case Nil
  then show ?case by (auto split: list.splits event.splits)
next
  case (Cons x pre)
  then show ?case
    by (cases "x # pre @ Rpc c (Some e) # post" rule: halts_on_error.cases)
       (auto split: list.splits event.splits simp: append_eq_Cons_conv)
qed

subsection \<open>The three numbered sections\<close>

lemmas lib_defs = then_do_def log_Fatal_def say_def
  Topic_Exists_def Client_CreateTopic_def Subscription_Exists_def Subscription_Delete_def
  Client_CreateSubscription_def called_def Let_def

lemma create_dlt_topic_step:
  assumes "create_dlt_topic P logger c dltID w = (r, w')"
  shows "\<exists>evs. trace w' = trace w @ evs \<and> halts_on_error evs \<and>
              topic_step (Client_Topic c dltID) w r w' (rpc_calls evs)"
  using assms unfolding create_dlt_topic_def topic_step_def
  by (auto simp: lib_defs split: option.splits if_splits)

lemma create_main_topic_step:
  assumes "create_main_topic P logger c topicID w = (r, w')"
  shows "\<exists>evs. trace w' = trace w @ evs \<and> halts_on_error evs \<and>
              topic_step (Client_Topic c topicID) w r w' (rpc_calls evs)"
  using assms unfolding create_main_topic_def topic_step_def
  by (auto simp: lib_defs split: option.splits if_splits)

lemma create_pull_subscription_step:
  assumes "create_pull_subscription P logger c subID topicID topic dltTopic w = (r, w')"
  shows "\<exists>evs. trace w' = trace w @ evs \<and> halts_on_error evs \<and>
              sub_step (Client_Subscription c subID) (subConfig topic dltTopic) w r w' (rpc_calls evs)"
  using assms unfolding create_pull_subscription_def delete_if_present_def sub_step_def
  by (auto simp: lib_defs split: option.splits if_splits)

lemma provision_cases [consumes 1, case_names dlt_failed topic_failed sub_failed completed]:
  assumes run: "provision P logger c topicID subID dltID w = (r, w')"
  obtains
    (dlt_failed) evs1 where
      "r = Inl (OsExit 1)" "trace w' = trace w @ evs1" "halts_on_error evs1"
      "topic_step (Client_Topic c dltID) w (Inl (OsExit 1)) w' (rpc_calls evs1)"
  | (topic_failed) w1 evs1 evs2 where
      "r = Inl (OsExit 1)" "trace w1 = trace w @ evs1"
      "topic_step (Client_Topic c dltID) w (Inr (Client_Topic c dltID)) w1 (rpc_calls evs1)"
      "trace w' = trace w1 @ evs2" "halts_on_error evs2"
      "topic_step (Client_Topic c topicID) w1 (Inl (OsExit 1)) w' (rpc_calls evs2)"
  | (sub_failed) w1 w2 evs1 evs2 evs3 where
      "r = Inl (OsExit 1)" "trace w1 = trace w @ evs1"
      "topic_step (Client_Topic c dltID) w (Inr (Client_Topic c dltID)) w1 (rpc_calls evs1)"
      "trace w2 = trace w1 @ evs2"
      "topic_step (Client_Topic c topicID) w1 (Inr (Client_Topic c topicID)) w2 (rpc_calls evs2)"
      "trace w' = trace w2 @ evs3" "halts_on_error evs3"
      "sub_step (Client_Subscription c subID)
         (subConfig (Client_Topic c topicID) (Client_Topic c dltID))
         w2 (Inl (OsExit 1)) w' (rpc_calls evs3)"
  | (completed) w1 w2 w3 evs1 evs2 evs3 where
      "r = Inr ()" "trace w1 = trace w @ evs1"
      "topic_step (Client_Topic c dltID) w (Inr (Client_Topic c dltID)) w1 (rpc_calls evs1)"
      "trace w2 = trace w1 @ evs2"
      "topic_step (Client_Topic c topicID) w1 (Inr (Client_Topic c topicID)) w2 (rpc_calls evs2)"
      "trace w3 = trace w2 @ evs3"
      "sub_step (Client_Subscription c subID)
         (subConfig (Client_Topic c topicID) (Client_Topic c dltID))
         w2 (Inr ()) w3 (rpc_calls evs3)"
      "broker w' = broker w3"
      "trace w' = trace w3 @
         [Slog LevelInfo ''Pub/Sub emulator setup complete.'' [] [], ClientClose]"
proof -
  obtain r1 w1 where s1: "create_dlt_topic P logger c dltID w = (r1, w1)"
    by (cases "create_dlt_topic P logger c dltID w")
  from create_dlt_topic_step [OF s1] obtain evs1 where
    e1: "trace w1 = trace w @ evs1" "halts_on_error evs1"
        "topic_step (Client_Topic c dltID) w r1 w1 (rpc_calls evs1)"
    by blast
  show thesis
  proof (cases r1)
    case (Inl h)
    with run s1 have "r = Inl h" "w' = w1"
      by (simp_all add: provision_def then_do_def)
    moreover from e1(3) Inl have "h = OsExit 1"
      by (auto simp: topic_step_def)
    ultimately show thesis using e1 Inl by (intro dlt_failed [of evs1]) simp_all
  next
    case (Inr dltTopic)
    with e1(3) have d: "dltTopic = Client_Topic c dltID"
      by (auto simp: topic_step_def)
    note r1 = Inr [unfolded d]
    obtain r2 w2 where s2: "create_main_topic P logger c topicID w1 = (r2, w2)"
      by (cases "create_main_topic P logger c topicID w1")
    from create_main_topic_step [OF s2] obtain evs2 where
      e2: "trace w2 = trace w1 @ evs2" "halts_on_error evs2"
          "topic_step (Client_Topic c topicID) w1 r2 w2 (rpc_calls evs2)"
      by blast
    show thesis
    proof (cases r2)
      case (Inl h)
      with run s1 s2 r1 have "r = Inl h" "w' = w2"
        by (simp_all add: provision_def then_do_def)
      moreover from e2(3) Inl have "h = OsExit 1"
        by (auto simp: topic_step_def)
      ultimately show thesis using e1 e2 Inl r1
        by (intro topic_failed [of w1 evs1 evs2]) simp_all
    next
      case (Inr topic)
      with e2(3) have t: "topic = Client_Topic c topicID"
        by (auto simp: topic_step_def)
      note r2 = Inr [unfolded t]
      obtain r3 w3 where
        s3: "create_pull_subscription P logger c subID topicID
               (Client_Topic c topicID) (Client_Topic c dltID) w2 = (r3, w3)"
        by (cases "create_pull_subscription P logger c subID topicID
               (Client_Topic c topicID) (Client_Topic c dltID) w2")
      from create_pull_subscription_step [OF s3] obtain evs3 where
        e3: "trace w3 = trace w2 @ evs3" "halts_on_error evs3"
            "sub_step (Client_Subscription c subID)
               (subConfig (Client_Topic c topicID) (Client_Topic c dltID))
               w2 r3 w3 (rpc_calls evs3)"
        by blast
      show thesis
      proof (cases r3)
        case (Inl h)
        with run s1 s2 s3 r1 r2 have "r = Inl h" "w' = w3"
          by (simp_all add: provision_def then_do_def)
        moreover from e3(3) Inl have "h = OsExit 1"
          by (auto simp: sub_step_def)
        ultimately show thesis using e1 e2 e3 Inl r1 r2
          by (intro sub_failed [of w1 evs1 w2 evs2 evs3]) simp_all
      next
        case (Inr u)
        with run s1 s2 s3 r1 r2 have "r = Inr ()" "broker w' = broker w3"
          "trace w' = trace w3 @
             [Slog LevelInfo ''Pub/Sub emulator setup complete.'' [] [], ClientClose]"
          by (auto simp: provision_def then_do_def say_def)
        then show thesis using e1 e2 e3 Inr r1 r2
          by (intro completed [of w1 evs1 w2 evs2 w3 evs3]) simp_all
      qed
    qed
  qed
qed

lemma topic_step_Inr:
  assumes "topic_step d w (Inr x) w' cs"
  shows "cs = (TopicExists d, None) #
              (if d \<in> topics (broker w) then [] else [(CreateTopic d, None)])"
    and "topics (broker w') = insert d (topics (broker w))"
    and "subscriptions (broker w') = subscriptions (broker w)"
  using assms by (auto simp: topic_step_def)

lemma topic_step_Inl:
  assumes "topic_step d w (Inl h) w' cs"
  shows "(\<exists>e. cs = [(TopicExists d, Some e)]) \<or>
         d \<notin> topics (broker w) \<and> (\<exists>e. cs = [(TopicExists d, None), (CreateTopic d, Some e)])"
    and "topics (broker w') = topics (broker w)"
    and "subscriptions (broker w') = subscriptions (broker w)"
  using assms by (auto simp: topic_step_def)

lemma sub_step_Inr:
  assumes "sub_step s cfg w (Inr u) w' cs"
  shows "cs = (SubscriptionExists s, None) #
              (if s \<in> dom (subscriptions (broker w)) then [(SubscriptionDelete s, None)] else []) @
              [(CreateSubscription s cfg, None)]"
    and "topics (broker w') = topics (broker w)"
    and "subscriptions (broker w') = (subscriptions (broker w))(s \<mapsto> cfg)"
  using assms by (auto simp: sub_step_def)

lemma sub_step_Inl:
  assumes "sub_step s cfg w (Inl h) w' cs"
  shows "\<exists>e. cs = [(SubscriptionExists s, Some e)] \<or>
             cs = [(SubscriptionExists s, None), (SubscriptionDelete s, Some e)] \<and>
               s \<in> dom (subscriptions (broker w)) \<or>
             cs = (SubscriptionExists s, None) #
                  (if s \<in> dom (subscriptions (broker w)) then [(SubscriptionDelete s, None)]
                   else []) @
                  [(CreateSubscription s cfg, Some e)]"
    and "topics (broker w') = topics (broker w)"
  using assms by (auto simp: sub_step_def)

lemma provision_trace:
  assumes "provision P logger c topicID subID dltID w = (r, w')"
  shows "\<exists>evs. trace w' = trace w @ evs \<and> halts_on_error evs \<and>
           (r = Inr () \<longrightarrow> succeeded (rpc_calls evs)) \<and>
           (r \<noteq> Inr () \<longrightarrow> r = Inl (OsExit 1) \<and> \<not> succeeded (rpc_calls evs))"
  using assms
proof (cases rule: provision_cases)
  case (dlt_failed evs1)
  from topic_step_Inl(1) [OF dlt_failed(4)] have "\<not> succeeded (rpc_calls evs1)"
    by (auto simp: succeeded_def split: if_splits)
  with dlt_failed show ?thesis by auto
next
  case (topic_failed w1 evs1 evs2)
  from topic_step_Inr(1) [OF topic_failed(3)] have ok1: "succeeded (rpc_calls evs1)"
    by (simp add: succeeded_def)
  from topic_step_Inl(1) [OF topic_failed(6)] have "\<not> succeeded (rpc_calls evs2)"
    by (auto simp: succeeded_def split: if_splits)
  then have "\<not> succeeded (rpc_calls (evs1 @ evs2))"
    by (simp add: rpc_calls_append succeeded_def)
  moreover have "halts_on_error (evs1 @ evs2)"
    using ok1 topic_failed(5) by (simp add: halts_on_error_append)
  moreover have "trace w' = trace w @ evs1 @ evs2"
    using topic_failed by simp
  ultimately show ?thesis using topic_failed(1) by blast
next
  case (sub_failed w1 w2 evs1 evs2 evs3)
  from topic_step_Inr(1) [OF sub_failed(3)] have ok1: "succeeded (rpc_calls evs1)"
    by (simp add: succeeded_def)
  from topic_step_Inr(1) [OF sub_failed(5)] have ok2: "succeeded (rpc_calls evs2)"
    by (simp add: succeeded_def)
  from sub_step_Inl(1) [OF sub_failed(8)] have "\<not> succeeded (rpc_calls evs3)"
    by (auto simp: succeeded_def split: if_splits)
  then have "\<not> succeeded (rpc_calls (evs1 @ evs2 @ evs3))"
    by (simp add: rpc_calls_append succeeded_def)
  moreover have "halts_on_error (evs1 @ evs2 @ evs3)"
    using ok1 ok2 sub_failed(7) by (simp add: halts_on_error_append)
  moreover have "trace w' = trace w @ evs1 @ evs2 @ evs3"
    using sub_failed by simp
  ultimately show ?thesis using sub_failed(1) by blast
next
  case (completed w1 w2 w3 evs1 evs2 evs3)
  let ?fin = "[Slog LevelInfo ''Pub/Sub emulator setup complete.'' [] [], ClientClose]"
  from topic_step_Inr(1) [OF completed(3)] have ok1: "succeeded (rpc_calls evs1)"
    by (simp add: succeeded_def)
  from topic_step_Inr(1) [OF completed(5)] have ok2: "succeeded (rpc_calls evs2)"
    by (simp add: succeeded_def)
  from sub_step_Inr(1) [OF completed(7)] have ok3: "succeeded (rpc_calls evs3)"
    by (simp add: succeeded_def)
  from ok1 ok2 ok3 have ok: "succeeded (rpc_calls (evs1 @ evs2 @ evs3 @ ?fin))"
    by (simp add: rpc_calls_append succeeded_def)
  then have "halts_on_error (evs1 @ evs2 @ evs3 @ ?fin)"
    by (rule halts_on_error_succeeded)
  moreover have "trace w' = trace w @ evs1 @ evs2 @ evs3 @ ?fin"
    using completed by simp
  ultimately show ?thesis using completed(1) ok by blast
qed

lemma provision_calls:
  assumes "provision P logger c topicID subID dltID w = (r, w')"
  defines "d \<equiv> Client_Topic c dltID" and "t \<equiv> Client_Topic c topicID"
    and "s \<equiv> Client_Subscription c subID"
  defines "cfg \<equiv> subConfig t d"
  shows "\<exists>cs. rpc_calls (trace w') = rpc_calls (trace w) @ cs \<and>
           prefix (map fst cs) (plan (broker w) d t s cfg) \<and>
           (r = Inr () \<longrightarrow> map fst cs = plan (broker w) d t s cfg) \<and>
           (CreateSubscription s cfg \<in> set (map fst cs) \<longrightarrow>
              map fst cs = plan (broker w) d t s cfg \<and> succeeded (butlast cs) \<and>
              d \<in> topics (broker w') \<and> t \<in> topics (broker w'))"
  using assms(1)
proof (cases rule: provision_cases)
  case (dlt_failed evs1)
  let ?cs = "rpc_calls evs1"
  have tr: "rpc_calls (trace w') = rpc_calls (trace w) @ ?cs"
    using dlt_failed(2) by (simp add: rpc_calls_append)
  from topic_step_Inl(1) [OF dlt_failed(4)]
  have "prefix (map fst ?cs) (plan (broker w) d t s cfg) \<and>
        CreateSubscription s cfg \<notin> set (map fst ?cs)"
    unfolding d_def by (auto simp: plan_def)
  with tr dlt_failed(1) show ?thesis
    by (intro exI [of _ ?cs]) simp
next
  case (topic_failed w1 evs1 evs2)
  note a = topic_step_Inr [OF topic_failed(3)]
  let ?cs = "rpc_calls evs1 @ rpc_calls evs2"
  have tr: "rpc_calls (trace w') = rpc_calls (trace w) @ ?cs"
    using topic_failed(2,4) by (simp add: rpc_calls_append)
  from topic_step_Inl(1) [OF topic_failed(6)]
  have "prefix (map fst ?cs) (plan (broker w) d t s cfg) \<and>
        CreateSubscription s cfg \<notin> set (map fst ?cs)"
    unfolding d_def t_def a(1) a(2) by (auto simp: plan_def)
  with tr topic_failed(1) show ?thesis
    by (intro exI [of _ ?cs]) simp
next
  case (sub_failed w1 w2 evs1 evs2 evs3)
  note a = topic_step_Inr [OF sub_failed(3)]
  note b = topic_step_Inr [OF sub_failed(5)]
  note c = sub_step_Inl [OF sub_failed(8)]
  let ?cs = "rpc_calls evs1 @ rpc_calls evs2 @ rpc_calls evs3"
  have tr: "rpc_calls (trace w') = rpc_calls (trace w) @ ?cs"
    using sub_failed(2,4,6) by (simp add: rpc_calls_append)
  have topics': "d \<in> topics (broker w') \<and> t \<in> topics (broker w')"
    using a(2) b(2) c(2) by (simp add: d_def t_def)
  have subs: "subscriptions (broker w2) = subscriptions (broker w)"
    using a(3) b(3) by simp
  from c(1)
  have "prefix (map fst ?cs) (plan (broker w) d t s cfg) \<and>
        (CreateSubscription s cfg \<in> set (map fst ?cs) \<longrightarrow>
          map fst ?cs = plan (broker w) d t s cfg \<and> succeeded (butlast ?cs))"
    unfolding d_def t_def s_def cfg_def a(1) b(1) a(2) subs
    by (auto simp: plan_def succeeded_def)
  with tr topics' sub_failed(1) show ?thesis
    by (intro exI [of _ ?cs]) simp
next
  case (completed w1 w2 w3 evs1 evs2 evs3)
  note a = topic_step_Inr [OF completed(3)]
  note b = topic_step_Inr [OF completed(5)]
  note c = sub_step_Inr [OF completed(7)]
  let ?cs = "rpc_calls evs1 @ rpc_calls evs2 @ rpc_calls evs3"
  have tr: "rpc_calls (trace w') = rpc_calls (trace w) @ ?cs"
    using completed(2,4,6,9) by (simp add: rpc_calls_append)
  have topics': "d \<in> topics (broker w') \<and> t \<in> topics (broker w')"
    using a(2) b(2) c(2) completed(8) by (simp add: d_def t_def)
  have subs: "subscriptions (broker w2) = subscriptions (broker w)"
    using a(3) b(3) by simp
  have "map fst ?cs = plan (broker w) d t s cfg \<and> succeeded (butlast ?cs)"
    unfolding d_def t_def s_def cfg_def a(1) b(1) c(1) a(2) subs
    by (auto simp: plan_def succeeded_def)
  with tr topics' show ?thesis
    by (intro exI [of _ ?cs]) simp
qed

lemma provision_topics_mono:
  assumes "provision P logger c topicID subID dltID w = (r, w')"
  shows "topics (broker w) \<subseteq> topics (broker w')"
  using assms
proof (cases rule: provision_cases)
  case (dlt_failed evs1)
  then show ?thesis using topic_step_Inl(2) by auto
next
  case (topic_failed w1 evs1 evs2)
  then show ?thesis using topic_step_Inl(2) topic_step_Inr(2) by auto
next
  case (sub_failed w1 w2 evs1 evs2 evs3)
  then show ?thesis using sub_step_Inl(2) topic_step_Inr(2) by auto
next
  case (completed w1 w2 w3 evs1 evs2 evs3)
  then show ?thesis using sub_step_Inr(2) topic_step_Inr(2) by auto
qed

lemma provision_done:
  assumes "provision P logger c topicID subID dltID w = (Inr (), w')"
  shows "topics (broker w') =
           insert (Client_Topic c topicID) (insert (Client_Topic c dltID) (topics (broker w)))"
    and "subscriptions (broker w') =
           (subscriptions (broker w))(Client_Subscription c subID \<mapsto>
              subConfig (Client_Topic c topicID) (Client_Topic c dltID))"
  using assms
  by (cases rule: provision_cases;
      use sub_step_Inr(2,3) topic_step_Inr(2,3) in auto)+

subsection \<open>The start of main\<close>

lemma quiet_refl: "quiet w w"
  by (simp add: quiet_def)

lemma quiet_trans: "quiet w w1 \<Longrightarrow> quiet w1 w2 \<Longrightarrow> quiet w w2"
  by (auto simp: quiet_def rpc_calls_append)

lemma quiet_say: "rpc_calls [ev] = [] \<Longrightarrow> quiet w (say ev w)"
  by (simp add: quiet_def say_def)

lemma rpc_calls_attempts:
  "rpc_calls (concat (map (\<lambda>i. attempt_events host (dial P i)) is)) = []"
  by (induction "is") (auto simp: attempt_events_def rpc_calls_append split: option.splits)

lemma waitLoop_quiet:
  assumes "waitLoop P host timeout deadline w = (r, w')"
  shows "quiet w w'"
  using waitLoop_frame [OF assms] waitLoop_trace [OF assms]
  by (simp add: quiet_def rpc_calls_attempts)

lemma waitLoop_closes:
  "waitLoop P host timeout deadline w = (None, w') \<Longrightarrow> ConnClose \<in> set (trace w')"
proof (induction w rule: waitLoop_induct [where deadline = deadline and P = P and host = host])
  case (timeout w)
  then show ?case by (simp add: waitLoop_timeout)
next
  case (ready w)
  then show ?case by (auto simp: waitLoop_ready after_ready_simps attempt_events_def)
next
  case (retry w err)
  then show ?case by (simp add: waitLoop_retry)
qed

lemma quiet_time_Now: "quiet w (time_Now P w)"
  by (simp add: quiet_def time_Now_simps)

lemma dotenv_init_world: "dotenv_init P w = (Inr env, w') \<Longrightarrow> w' = w"
  by (auto simp: dotenv_init_def log_Fatal_def Let_def split: sum.splits if_splits)

lemma dotenv_init_quiet: "dotenv_init P w = (r, w') \<Longrightarrow> quiet w w'"
  by (auto simp: dotenv_init_def log_Fatal_def Let_def quiet_refl quiet_say
      split: sum.splits if_splits)

lemma dotenv_init_part_000_quiet: "dotenv_init_part_000 P w = (r, w') \<Longrightarrow> quiet w w'"
  by (auto simp: dotenv_init_part_000_def log_Fatal_def Let_def quiet_refl quiet_say
      split: sum.splits if_splits)

lemma check_logger_err_quiet: "check_logger_err P logger lvl err w = (r, w') \<Longrightarrow> quiet w w'"
  by (auto simp: check_logger_err_def quiet_refl quiet_say split: option.splits if_splits)

lemma logger_setup_quiet:
  assumes "logger_setup P env w = (r, w')"
  shows "quiet w w'"
proof -
  obtain logger lvl err where
    n: "NewAppLogger P (Getenv env (ENVVAR_ENV P)) (Getenv env (ENVVAR_LOG_LEVEL P)) =
          (logger, lvl, err)"
    by (cases "NewAppLogger P (Getenv env (ENVVAR_ENV P)) (Getenv env (ENVVAR_LOG_LEVEL P))")
  let ?w1 = "say (SetLogLoggerLevel lvl) (say (SetDefault logger) w)"
  obtain r1 w1 where c: "check_logger_err P logger lvl err ?w1 = (r1, w1)"
    by (cases "check_logger_err P logger lvl err ?w1")
  have "quiet w ?w1"
    by (intro quiet_trans [OF quiet_say quiet_say]) simp_all
  moreover have "quiet ?w1 w1" using c by (rule check_logger_err_quiet)
  moreover have "w' = w1"
    using assms n c by (auto simp: logger_setup_def then_do_def split: sum.splits)
  ultimately show ?thesis using quiet_trans by blast
qed

lemma validate_env_quiet: "validate_env h p t s d w = (r, w') \<Longrightarrow> quiet w w'"
  by (auto simp: validate_env_def log_Fatal_def quiet_refl quiet_say split: if_splits)

lemma validate_env_ok:
  "validate_env h p t s d w = (Inr u, w') \<Longrightarrow>
     w' = w \<and> h \<noteq> [] \<and> p \<noteq> [] \<and> t \<noteq> [] \<and> s \<noteq> [] \<and> d \<noteq> []"
  by (auto simp: validate_env_def log_Fatal_def split: if_splits)

lemma resolve_addr_quiet: "resolve_addr P logger h w = (r, w') \<Longrightarrow> quiet w w'"
  by (auto simp: resolve_addr_def quiet_refl quiet_say split: sum.splits)

lemma wait_ready_quiet:
  assumes "wait_ready P logger addr w = (r, w')"
  shows "quiet w w'"
proof -
  obtain e w1 where
    run: "waitLoop P addr (30 * Second) (now (time_Now P w) + 30 * Second) (time_Now P w) =
            (e, w1)"
    by (cases "waitLoop P addr (30 * Second) (now (time_Now P w) + 30 * Second) (time_Now P w)")
  have q: "quiet w w1"
    using quiet_time_Now waitLoop_quiet [OF run] by (rule quiet_trans)
  show ?thesis
  proof (cases e)
    case None
    with assms run have "w' = w1"
      by (simp add: wait_ready_def waitForPubSubEmulator_def Let_def)
    with q show ?thesis by simp
  next
    case (Some err)
    with assms run have
      "w' = say (Slog LevelError ''Pub/Sub emulator not ready'' [] [slog_Any ''error'' err]) w1"
      by (simp add: wait_ready_def waitForPubSubEmulator_def Let_def)
    with quiet_trans [OF q quiet_say] show ?thesis by simp
  qed
qed

lemma wait_ready_closes:
  assumes "wait_ready P logger addr w = (Inr u, w')"
  shows "ConnClose \<in> set (trace w')"
proof -
  obtain e w1 where
    run: "waitLoop P addr (30 * Second) (now (time_Now P w) + 30 * Second) (time_Now P w) =
            (e, w1)"
    by (cases "waitLoop P addr (30 * Second) (now (time_Now P w) + 30 * Second) (time_Now P w)")
  with assms have "e = None \<and> w' = w1"
    by (auto simp: wait_ready_def waitForPubSubEmulator_def Let_def split: option.splits)
  with run show ?thesis by (auto dest: waitLoop_closes)
qed

lemma new_client_quiet: "new_client P logger h p w = (r, w') \<Longrightarrow> quiet w w'"
  by (auto simp: new_client_def log_Fatal_def quiet_def say_def split: option.splits)

lemma new_client_ok:
  "new_client P logger h p w = (Inr c, w') \<Longrightarrow> c = \<lparr>client_project = p\<rparr>"
  by (auto simp: new_client_def log_Fatal_def split: option.splits)

lemma quiet_set: "quiet w w' \<Longrightarrow> set (trace w) \<subseteq> set (trace w')"
  by (auto simp: quiet_def)

lemma main_cases [consumes 1, case_names halted provisioned]:
  assumes run: "main P b = (r, w')"
  obtains
    (halted) h where "r = Inl h" "quiet (init_world P b) w'"
  | (provisioned) env logger w1 where
      "fst (dotenv_init P (init_world P b)) = Inr env"
      "Getenv env (ENVVAR_EMULATOR_HOST P) \<noteq> []"
      "Getenv env (ENVVAR_GOOGLE_PROJECT_ID P) \<noteq> []"
      "Getenv env (ENVVAR_TOPIC_ID P) \<noteq> []"
      "Getenv env (ENVVAR_SUBSCRIPTION_ID P) \<noteq> []"
      "Getenv env (ENVVAR_DLT_TOPIC_ID P) \<noteq> []"
      "quiet (init_world P b) w1" "ConnClose \<in> set (trace w1)"
      "provision P logger \<lparr>client_project = Getenv env (ENVVAR_GOOGLE_PROJECT_ID P)\<rparr>
         (Getenv env (ENVVAR_TOPIC_ID P)) (Getenv env (ENVVAR_SUBSCRIPTION_ID P))
         (Getenv env (ENVVAR_DLT_TOPIC_ID P)) w1 = (r, w')"
proof -
  let ?w0 = "init_world P b"
  obtain r0 w0 where s0: "dotenv_init P ?w0 = (r0, w0)"
    by (cases "dotenv_init P ?w0")
  note q0 = dotenv_init_quiet [OF s0]
  show thesis
  proof (cases r0)
    case (Inl h)
    with run s0 have "r = Inl h" "w' = w0"
      by (simp_all add: main_def then_do_def)
    with q0 show thesis by (intro halted [of h]) simp_all
  next
    case (Inr env)
    note r0 = this
    with s0 have w0: "w0 = ?w0" by (simp add: dotenv_init_world)
    let ?h = "Getenv env (ENVVAR_EMULATOR_HOST P)"
    let ?p = "Getenv env (ENVVAR_GOOGLE_PROJECT_ID P)"
    let ?t = "Getenv env (ENVVAR_TOPIC_ID P)"
    let ?s = "Getenv env (ENVVAR_SUBSCRIPTION_ID P)"
    let ?d = "Getenv env (ENVVAR_DLT_TOPIC_ID P)"
    obtain r1 w1 where s1: "logger_setup P env ?w0 = (r1, w1)"
      by (cases "logger_setup P env ?w0")
    note q1 = logger_setup_quiet [OF s1]
    show thesis
    proof (cases r1)
      case (Inl h)
      with run s0 r0 w0 s1 have "r = Inl h" "w' = w1"
        by (simp_all add: main_def then_do_def Let_def)
      with q1 show thesis by (intro halted [of h]) simp_all
    next
      case (Inr logger)
      note r1 = this
      obtain r2 w2 where s2: "validate_env ?h ?p ?t ?s ?d w1 = (r2, w2)"
        by (cases "validate_env ?h ?p ?t ?s ?d w1")
      note q2 = quiet_trans [OF q1 validate_env_quiet [OF s2]]
      show thesis
      proof (cases r2)
        case (Inl h)
        with run s0 r0 w0 s1 r1 s2 have "r = Inl h" "w' = w2"
          by (simp_all add: main_def then_do_def Let_def)
        with q2 show thesis by (intro halted [of h]) simp_all
      next
        case (Inr u)
        note r2 = this
        from validate_env_ok [OF s2 [unfolded r2]] have
          ne: "w2 = w1" "?h \<noteq> []" "?p \<noteq> []" "?t \<noteq> []" "?s \<noteq> []" "?d \<noteq> []"
          by simp_all
        obtain r3 w3 where s3: "resolve_addr P logger ?h w2 = (r3, w3)"
          by (cases "resolve_addr P logger ?h w2")
        note q3 = quiet_trans [OF q2 resolve_addr_quiet [OF s3]]
        show thesis
        proof (cases r3)
          case (Inl h)
          with run s0 r0 w0 s1 r1 s2 r2 s3 have "r = Inl h" "w' = w3"
            by (simp_all add: main_def then_do_def Let_def)
          with q3 show thesis by (intro halted [of h]) simp_all
        next
          case (Inr addr)
          note r3 = this
          obtain r4 w4 where s4: "wait_ready P logger addr w3 = (r4, w4)"
            by (cases "wait_ready P logger addr w3")
          note q4 = quiet_trans [OF q3 wait_ready_quiet [OF s4]]
          show thesis
          proof (cases r4)
            case (Inl h)
            with run s0 r0 w0 s1 r1 s2 r2 s3 r3 s4 have "r = Inl h" "w' = w4"
              by (simp_all add: main_def then_do_def Let_def)
            with q4 show thesis by (intro halted [of h]) simp_all
          next
            case (Inr u4)
            note r4 = this
            from wait_ready_closes [OF s4 [unfolded r4]] have cl: "ConnClose \<in> set (trace w4)" .
            obtain r5 w5 where s5: "new_client P logger ?h ?p w4 = (r5, w5)"
              by (cases "new_client P logger ?h ?p w4")
            note q5 = quiet_trans [OF q4 new_client_quiet [OF s5]]
            show thesis
            proof (cases r5)
              case (Inl h)
              with run s0 r0 w0 s1 r1 s2 r2 s3 r3 s4 r4 s5 have "r = Inl h" "w' = w5"
                by (simp_all add: main_def then_do_def Let_def)
              with q5 show thesis by (intro halted [of h]) simp_all
            next
              case (Inr client)
              note r5 = this
              from new_client_ok [OF s5 [unfolded r5]]
              have c: "client = \<lparr>client_project = ?p\<rparr>" .
              from run s0 r0 w0 s1 r1 s2 r2 s3 r3 s4 r4 s5 r5
              have "provision P logger client ?t ?s ?d w5 = (r, w')"
                by (simp add: main_def then_do_def Let_def)
              moreover from cl quiet_set [OF new_client_quiet [OF s5]]
              have "ConnClose \<in> set (trace w5)" by blast
              ultimately show thesis
                using s0 r0 w0 ne q5 c by (intro provisioned [of env w5 logger]) simp_all
            qed
          qed
        qed
      qed
    qed
  qed
qed

lemma main_part_000_cases [consumes 1, case_names halted provisioned]:
  assumes run: "main_part_000 P b = (r, w')"
  obtains
    (halted) h where "r = Inl h" "quiet (init_world P b) w'"
  | (provisioned) env logger w1 where
      "fst (dotenv_init_part_000 P (init_world P b)) = Inr env"
      "Getenv env (ENVVAR_EMULATOR_HOST P) \<noteq> []"
      "Getenv env (ENVVAR_GOOGLE_PROJECT_ID P) \<noteq> []"
      "Getenv env (ENVVAR_TOPIC_ID P) \<noteq> []"
      "Getenv env (ENVVAR_SUBSCRIPTION_ID P) \<noteq> []"
      "Getenv env (ENVVAR_DLT_TOPIC_ID P) \<noteq> []"
      "quiet (init_world P b) w1"
      "provision P logger \<lparr>client_project = Getenv env (ENVVAR_GOOGLE_PROJECT_ID P)\<rparr>
         (Getenv env (ENVVAR_TOPIC_ID P)) (Getenv env (ENVVAR_SUBSCRIPTION_ID P))
         (Getenv env (ENVVAR_DLT_TOPIC_ID P)) w1 = (r, w')"
proof -
  let ?w0 = "init_world P b"
  obtain r0 w0 where s0: "dotenv_init_part_000 P ?w0 = (r0, w0)"
    by (cases "dotenv_init_part_000 P ?w0")
  note q0 = dotenv_init_part_000_quiet [OF s0]
  show thesis
  proof (cases r0)
    case (Inl h)
    with run s0 have "r = Inl h" "w' = w0"
      by (simp_all add: main_part_000_def then_do_def)
    with q0 show thesis by (intro halted [of h]) simp_all
  next
    case (Inr env)
    note r0 = this
    let ?h = "Getenv env (ENVVAR_EMULATOR_HOST P)"
    let ?p = "Getenv env (ENVVAR_GOOGLE_PROJECT_ID P)"
    let ?t = "Getenv env (ENVVAR_TOPIC_ID P)"
    let ?s = "Getenv env (ENVVAR_SUBSCRIPTION_ID P)"
    let ?d = "Getenv env (ENVVAR_DLT_TOPIC_ID P)"
    obtain r1 w1 where s1: "logger_setup P env w0 = (r1, w1)"
      by (cases "logger_setup P env w0")
    note q1 = quiet_trans [OF q0 logger_setup_quiet [OF s1]]
    show thesis
    proof (cases r1)
      case (Inl h)
      with run s0 r0 s1 have "r = Inl h" "w' = w1"
        by (simp_all add: main_part_000_def then_do_def Let_def)
      with q1 show thesis by (intro halted [of h]) simp_all
    next
      case (Inr logger)
      note r1 = this
      obtain r2 w2 where s2: "validate_env ?h ?p ?t ?s ?d w1 = (r2, w2)"
        by (cases "validate_env ?h ?p ?t ?s ?d w1")
      note q2 = quiet_trans [OF q1 validate_env_quiet [OF s2]]
      show thesis
      proof (cases r2)
        case (Inl h)
        with run s0 r0 s1 r1 s2 have "r = Inl h" "w' = w2"
          by (simp_all add: main_part_000_def then_do_def Let_def)
        with q2 show thesis by (intro halted [of h]) simp_all
      next
        case (Inr u)
        note r2 = this
        from validate_env_ok [OF s2 [unfolded r2]] have
          ne: "w2 = w1" "?h \<noteq> []" "?p \<noteq> []" "?t \<noteq> []" "?s \<noteq> []" "?d \<noteq> []"
          by simp_all
        obtain r5 w5 where s5: "new_client P logger ?h ?p w2 = (r5, w5)"
          by (cases "new_client P logger ?h ?p w2")
        note q5 = quiet_trans [OF q2 new_client_quiet [OF s5]]
        show thesis
        proof (cases r5)
          case (Inl h)
          with run s0 r0 s1 r1 s2 r2 s5 have "r = Inl h" "w' = w5"
            by (simp_all add: main_part_000_def then_do_def Let_def)
          with q5 show thesis by (intro halted [of h]) simp_all
        next
          case (Inr client)
          note r5 = this
          from new_client_ok [OF s5 [unfolded r5]]
          have c: "client = \<lparr>client_project = ?p\<rparr>" .
          from run s0 r0 s1 r1 s2 r2 s5 r5
          have "provision P logger client ?t ?s ?d w5 = (r, w')"
            by (simp add: main_part_000_def then_do_def Let_def)
          then show thesis
            using s0 r0 ne q5 c by (intro provisioned [of env w5 logger]) simp_all
        qed
      qed
    qed
  qed
qed

subsection \<open>Runs that reach the end\<close>

lemmas sample_defs = sample_platform_def sample_environ_def sample_dial_def
  sample_UnmarshalText_def empty_broker_def stale_broker_def

lemmas run_defs = main_def dotenv_init_def logger_setup_def check_logger_err_def
  NewAppLogger_def validate_env_def resolve_addr_def wait_ready_def waitForPubSubEmulator_def
  new_client_def provision_def create_dlt_topic_def create_main_topic_def
  create_pull_subscription_def delete_if_present_def subConfig_def init_world_def
  Getenv_def godotenv_Load_def filepath_Join_def errors_Join_def List.map_filter_def
  Client_Topic_def Client_Subscription_def Second_def time_Now_def

lemma sample_dotenv: "fst (dotenv_init sample_platform w) = Inr sample_environ"
  by (simp add: dotenv_init_def sample_defs Getenv_def)

lemma sample_names:
  "dltName sample_platform sample_environ = ''projects/p/topics/d''"
  "topicName sample_platform sample_environ = ''projects/p/topics/t''"
  "subName sample_platform sample_environ = ''projects/p/subscriptions/s''"
  by (simp_all add: dltName_def topicName_def subName_def sample_defs Getenv_def
        Client_Topic_def Client_Subscription_def)

lemma sample_run_completes: "fst (main sample_platform empty_broker) = Inr ()"
  by (simp add: run_defs lib_defs sample_defs waitLoop.simps)

lemma main_completed:
  assumes "main P b = (Inr (), w')"
  shows "\<exists>env. fst (dotenv_init P (init_world P b)) = Inr env \<and>
           topics (broker w') = insert (topicName P env) (insert (dltName P env) (topics b)) \<and>
           subscriptions (broker w') =
             (subscriptions b)(subName P env \<mapsto> subConfig (topicName P env) (dltName P env))"
  using assms
proof (cases rule: main_cases)
  case (halted h)
  then show ?thesis by simp
next
  case (provisioned env logger w1)
  from provisioned(7) have "broker w1 = b"
    by (simp add: quiet_def init_world_def)
  with provision_done [OF provisioned(9)] provisioned(1) show ?thesis
    by (intro exI [of _ env]) (simp add: topicName_def dltName_def subName_def)
qed

lemma main_part_000_completed:
  assumes "main_part_000 P b = (Inr (), w')"
  shows "\<exists>env. fst (dotenv_init_part_000 P (init_world P b)) = Inr env \<and>
           topics (broker w') = insert (topicName P env) (insert (dltName P env) (topics b)) \<and>
           subscriptions (broker w') =
             (subscriptions b)(subName P env \<mapsto> subConfig (topicName P env) (dltName P env))"
  using assms
proof (cases rule: main_part_000_cases)
  case (halted h)
  then show ?thesis by simp
next
  case (provisioned env logger w1)
  from provisioned(7) have "broker w1 = b"
    by (simp add: quiet_def init_world_def)
  with provision_done [OF provisioned(8)] provisioned(1) show ?thesis
    by (intro exI [of _ env]) (simp add: topicName_def dltName_def subName_def)
qed

text \<open>
  C1. After a run of \<open>main\<close> that reaches its end, the broker holds the main topic
  and the dead-letter topic named by the environment, and a subscription under the
  subscription's name that has no push endpoint (a pull subscription) and whose
  dead-letter policy names the dead-letter topic. The same holds of the earlier
  \<open>main\<close>.
\<close>

theorem main_ensures_resources:
  "(main P b = (Inr (), w') \<longrightarrow>
      (\<exists>env. fst (dotenv_init P (init_world P b)) = Inr env \<and>
         topicName P env \<in> topics (broker w') \<and> dltName P env \<in> topics (broker w') \<and>
         (\<exists>cfg dlp. subscriptions (broker w') (subName P env) = Some cfg \<and>
            Endpoint (PushConfig cfg) = [] \<and> DeadLetterPolicy cfg = Some dlp \<and>
            DeadLetterTopic dlp = dltName P env))) \<and>
   (main_part_000 P b = (Inr (), w') \<longrightarrow>
      (\<exists>env. fst (dotenv_init_part_000 P (init_world P b)) = Inr env \<and>
         topicName P env \<in> topics (broker w') \<and> dltName P env \<in> topics (broker w') \<and>
         (\<exists>cfg dlp. subscriptions (broker w') (subName P env) = Some cfg \<and>
            Endpoint (PushConfig cfg) = [] \<and> DeadLetterPolicy cfg = Some dlp \<and>
            DeadLetterTopic dlp = dltName P env)))"
proof (intro conjI impI)
  assume "main P b = (Inr (), w')"
  from main_completed [OF this] show
    "\<exists>env. fst (dotenv_init P (init_world P b)) = Inr env \<and>
         topicName P env \<in> topics (broker w') \<and> dltName P env \<in> topics (broker w') \<and>
         (\<exists>cfg dlp. subscriptions (broker w') (subName P env) = Some cfg \<and>
            Endpoint (PushConfig cfg) = [] \<and> DeadLetterPolicy cfg = Some dlp \<and>
            DeadLetterTopic dlp = dltName P env)"
    by (auto simp: subConfig_def)
next
  assume "main_part_000 P b = (Inr (), w')"
  from main_part_000_completed [OF this] show
    "\<exists>env. fst (dotenv_init_part_000 P (init_world P b)) = Inr env \<and>
         topicName P env \<in> topics (broker w') \<and> dltName P env \<in> topics (broker w') \<and>
         (\<exists>cfg dlp. subscriptions (broker w') (subName P env) = Some cfg \<and>
            Endpoint (PushConfig cfg) = [] \<and> DeadLetterPolicy cfg = Some dlp \<and>
            DeadLetterTopic dlp = dltName P env)"
    by (auto simp: subConfig_def)
qed

theorem main_ensures_resources_witness:
  "fst (main sample_platform empty_broker) = Inr () \<and>
   ''projects/p/topics/t'' \<in> topics (broker (snd (main sample_platform empty_broker))) \<and>
   ''projects/p/topics/d'' \<in> topics (broker (snd (main sample_platform empty_broker))) \<and>
   (\<exists>cfg dlp.
      subscriptions (broker (snd (main sample_platform empty_broker)))
        ''projects/p/subscriptions/s'' = Some cfg \<and>
      Endpoint (PushConfig cfg) = [] \<and> DeadLetterPolicy cfg = Some dlp \<and>
      DeadLetterTopic dlp = ''projects/p/topics/d'')"
proof -
  have run: "main sample_platform empty_broker =
               (Inr (), snd (main sample_platform empty_broker))"
    using sample_run_completes by (simp add: prod_eq_iff)
  from main_ensures_resources [of sample_platform empty_broker
      "snd (main sample_platform empty_broker)"] run
  show ?thesis
    by (simp add: sample_dotenv sample_names sample_run_completes)
qed

subsection \<open>The subscription is deleted, then created\<close>

lemma rpc_calls_mem: "(c, e) \<in> set (rpc_calls tr) \<longleftrightarrow> Rpc c e \<in> set tr"
  by (induction tr rule: rpc_calls.induct) auto

lemma quiet_start:
  assumes "quiet (init_world P b) w1"
  shows "broker w1 = b" and "rpc_calls (trace w1) = []"
  using assms by (auto simp: quiet_def init_world_def)

lemma provision_delete_first:
  assumes "provision P logger c topicID subID dltID w = (r, w')"
    and "Client_Subscription c subID \<in> dom (subscriptions (broker w))"
    and "rpc_calls (trace w) = []"
    and "(CreateSubscription (Client_Subscription c subID) cfg, e) \<in> set (rpc_calls (trace w'))"
  shows "\<exists>pre. rpc_calls (trace w') =
           pre @ [(SubscriptionDelete (Client_Subscription c subID), None),
                  (CreateSubscription (Client_Subscription c subID) cfg, e)]"
  using assms(1)
proof (cases rule: provision_cases)
  case (dlt_failed evs1)
  from topic_step_Inl(1) [OF dlt_failed(4)] assms(3,4) dlt_failed(2)
  show ?thesis by (auto simp: rpc_calls_append)
next
  case (topic_failed w1 evs1 evs2)
  from topic_step_Inl(1) [OF topic_failed(6)] topic_step_Inr(1) [OF topic_failed(3)]
    assms(3,4) topic_failed(2,4)
  show ?thesis by (auto simp: rpc_calls_append split: if_splits)
next
  case (sub_failed w1 w2 evs1 evs2 evs3)
  note a = topic_step_Inr [OF sub_failed(3)]
  note b = topic_step_Inr [OF sub_failed(5)]
  note c = sub_step_Inl [OF sub_failed(8)]
  have subs: "Client_Subscription c subID \<in> dom (subscriptions (broker w2))"
    using a(3) b(3) assms(2) by simp
  have tr: "rpc_calls (trace w') = rpc_calls evs1 @ rpc_calls evs2 @ rpc_calls evs3"
    using sub_failed(2,4,6) assms(3) by (simp add: rpc_calls_append)
  have no1: "(CreateSubscription (Client_Subscription c subID) cfg, e)
               \<notin> set (rpc_calls evs1 @ rpc_calls evs2)"
    unfolding a(1) b(1) by simp
  with assms(4) tr have "(CreateSubscription (Client_Subscription c subID) cfg, e)
      \<in> set (rpc_calls evs3)" by auto
  with c(1) subs have "rpc_calls evs3 =
      [(SubscriptionExists (Client_Subscription c subID), None)] @
      [(SubscriptionDelete (Client_Subscription c subID), None),
       (CreateSubscription (Client_Subscription c subID) cfg, e)]"
    by auto
  with tr show ?thesis
    by (intro exI [of _ "rpc_calls evs1 @ rpc_calls evs2 @
          [(SubscriptionExists (Client_Subscription c subID), None)]"]) simp
next
  case (completed w1 w2 w3 evs1 evs2 evs3)
  note a = topic_step_Inr [OF completed(3)]
  note b = topic_step_Inr [OF completed(5)]
  note c = sub_step_Inr [OF completed(7)]
  have subs: "Client_Subscription c subID \<in> dom (subscriptions (broker w2))"
    using a(3) b(3) assms(2) by simp
  have tr: "rpc_calls (trace w') = rpc_calls evs1 @ rpc_calls evs2 @ rpc_calls evs3"
    using completed(2,4,6,9) assms(3) by (simp add: rpc_calls_append)
  have no1: "(CreateSubscription (Client_Subscription c subID) cfg, e)
               \<notin> set (rpc_calls evs1 @ rpc_calls evs2)"
    unfolding a(1) b(1) by simp
  with assms(4) tr have "(CreateSubscription (Client_Subscription c subID) cfg, e)
      \<in> set (rpc_calls evs3)" by auto
  with c(1) subs have "rpc_calls evs3 =
      [(SubscriptionExists (Client_Subscription c subID), None)] @
      [(SubscriptionDelete (Client_Subscription c subID), None),
       (CreateSubscription (Client_Subscription c subID) cfg, e)]"
    by auto
  with tr show ?thesis
    by (intro exI [of _ "rpc_calls evs1 @ rpc_calls evs2 @
          [(SubscriptionExists (Client_Subscription c subID), None)]"]) simp
qed

lemma provision_completed_calls:
  assumes "provision P logger c topicID subID dltID w = (Inr (), w')"
    and "rpc_calls (trace w) = []"
  shows "\<exists>pre. rpc_calls (trace w') =
           pre @ [(CreateSubscription (Client_Subscription c subID)
                     (subConfig (Client_Topic c topicID) (Client_Topic c dltID)), None)]"
  using assms(1)
proof (cases rule: provision_cases)
  case (completed w1 w2 w3 evs1 evs2 evs3)
  note c = sub_step_Inr [OF completed(7)]
  have tr: "rpc_calls (trace w') = rpc_calls evs1 @ rpc_calls evs2 @ rpc_calls evs3"
    using completed(2,4,6,9) assms(2) by (simp add: rpc_calls_append)
  show ?thesis unfolding tr c(1)
    by (intro exI [of _ "rpc_calls evs1 @ rpc_calls evs2 @
          (SubscriptionExists (Client_Subscription c subID), None) #
          (if Client_Subscription c subID \<in> dom (subscriptions (broker w2))
           then [(SubscriptionDelete (Client_Subscription c subID), None)] else [])"]) simp
qed simp_all


lemma provisioned_recreates:
  assumes q: "quiet (init_world P b) w1"
    and run: "provision P logger \<lparr>client_project = Getenv env (ENVVAR_GOOGLE_PROJECT_ID P)\<rparr>
         (Getenv env (ENVVAR_TOPIC_ID P)) (Getenv env (ENVVAR_SUBSCRIPTION_ID P))
         (Getenv env (ENVVAR_DLT_TOPIC_ID P)) w1 = (r, w')"
  shows "
      (subName P env \<in> dom (subscriptions b) \<and>
       Rpc (CreateSubscription (subName P env) cfg) e \<in> set (trace w') \<longrightarrow>
         (\<exists>pre. rpc_calls (trace w') =
            pre @ [(SubscriptionDelete (subName P env), None),
                   (CreateSubscription (subName P env) cfg, e)])) \<and>
      (r = Inr () \<longrightarrow>
         subscriptions (broker w') (subName P env) =
           Some \<lparr>Topic = topicName P env,
                 PushConfig = \<lparr>Endpoint = []\<rparr>,
                 AckDeadline = 60000000000,
                 DeadLetterPolicy =
                   Some \<lparr>DeadLetterTopic = dltName P env, MaxDeliveryAttempts = 10\<rparr>\<rparr> \<and>
         (\<exists>pre. rpc_calls (trace w') =
            pre @ [(CreateSubscription (subName P env)
                      (subConfig (topicName P env) (dltName P env)), None)]))"
proof -
  note s = quiet_start [OF q]
  have a: "\<exists>pre. rpc_calls (trace w') =
            pre @ [(SubscriptionDelete (subName P env), None),
                   (CreateSubscription (subName P env) cfg, e)]"
    if "subName P env \<in> dom (subscriptions b)"
      and "Rpc (CreateSubscription (subName P env) cfg) e \<in> set (trace w')"
    using provision_delete_first [OF run _ s(2), of cfg e] that s(1)
    by (simp add: subName_def rpc_calls_mem)
  have b: "subscriptions (broker w') (subName P env) =
           Some \<lparr>Topic = topicName P env,
                 PushConfig = \<lparr>Endpoint = []\<rparr>,
                 AckDeadline = 60000000000,
                 DeadLetterPolicy =
                   Some \<lparr>DeadLetterTopic = dltName P env, MaxDeliveryAttempts = 10\<rparr>\<rparr>"
    if "r = Inr ()"
    using provision_done(2) [OF run [unfolded that]]
    by (simp add: subName_def topicName_def dltName_def subConfig_def Second_def)
  have c: "\<exists>pre. rpc_calls (trace w') =
            pre @ [(CreateSubscription (subName P env)
                      (subConfig (topicName P env) (dltName P env)), None)]"
    if "r = Inr ()"
    using provision_completed_calls [OF run [unfolded that] s(2)]
    by (simp add: subName_def topicName_def dltName_def)
  from a b c show ?thesis by blast
qed

text \<open>
  C2. Whenever the subscription exists at the start and \<open>main\<close> issues a
  \<^verbatim>\<open>CreateSubscription\<close> for it, the call just before was the successful deletion of
  that subscription. After a run that reaches its end, the subscription has the
  configuration of the literal (the main topic, no push endpoint, a deadline of sixty
  seconds, a dead-letter policy on the dead-letter topic with ten delivery attempts),
  whatever was there before, and creating it was the last call. Both copies of
  \<open>main\<close>.
\<close>

theorem main_recreates_subscription:
  "(main P b = (r, w') \<and> fst (dotenv_init P (init_world P b)) = Inr env \<longrightarrow>
      
      (subName P env \<in> dom (subscriptions b) \<and>
       Rpc (CreateSubscription (subName P env) cfg) e \<in> set (trace w') \<longrightarrow>
         (\<exists>pre. rpc_calls (trace w') =
            pre @ [(SubscriptionDelete (subName P env), None),
                   (CreateSubscription (subName P env) cfg, e)])) \<and>
      (r = Inr () \<longrightarrow>
         subscriptions (broker w') (subName P env) =
           Some \<lparr>Topic = topicName P env,
                 PushConfig = \<lparr>Endpoint = []\<rparr>,
                 AckDeadline = 60000000000,
                 DeadLetterPolicy =
                   Some \<lparr>DeadLetterTopic = dltName P env, MaxDeliveryAttempts = 10\<rparr>\<rparr> \<and>
         (\<exists>pre. rpc_calls (trace w') =
            pre @ [(CreateSubscription (subName P env)
                      (subConfig (topicName P env) (dltName P env)), None)]))) \<and>
   (main_part_000 P b = (r, w') \<and> fst (dotenv_init_part_000 P (init_world P b)) = Inr env \<longrightarrow>
      
      (subName P env \<in> dom (subscriptions b) \<and>
       Rpc (CreateSubscription (subName P env) cfg) e \<in> set (trace w') \<longrightarrow>
         (\<exists>pre. rpc_calls (trace w') =
            pre @ [(SubscriptionDelete (subName P env), None),
                   (CreateSubscription (subName P env) cfg, e)])) \<and>
      (r = Inr () \<longrightarrow>
         subscriptions (broker w') (subName P env) =
           Some \<lparr>Topic = topicName P env,
                 PushConfig = \<lparr>Endpoint = []\<rparr>,
                 AckDeadline = 60000000000,
                 DeadLetterPolicy =
                   Some \<lparr>DeadLetterTopic = dltName P env, MaxDeliveryAttempts = 10\<rparr>\<rparr> \<and>
         (\<exists>pre. rpc_calls (trace w') =
            pre @ [(CreateSubscription (subName P env)
                      (subConfig (topicName P env) (dltName P env)), None)])))"
proof (rule conjI; (rule impI, elim conjE))
  assume run: "main P b = (r, w')" and env: "fst (dotenv_init P (init_world P b)) = Inr env"
  from run show "
      (subName P env \<in> dom (subscriptions b) \<and>
       Rpc (CreateSubscription (subName P env) cfg) e \<in> set (trace w') \<longrightarrow>
         (\<exists>pre. rpc_calls (trace w') =
            pre @ [(SubscriptionDelete (subName P env), None),
                   (CreateSubscription (subName P env) cfg, e)])) \<and>
      (r = Inr () \<longrightarrow>
         subscriptions (broker w') (subName P env) =
           Some \<lparr>Topic = topicName P env,
                 PushConfig = \<lparr>Endpoint = []\<rparr>,
                 AckDeadline = 60000000000,
                 DeadLetterPolicy =
                   Some \<lparr>DeadLetterTopic = dltName P env, MaxDeliveryAttempts = 10\<rparr>\<rparr> \<and>
         (\<exists>pre. rpc_calls (trace w') =
            pre @ [(CreateSubscription (subName P env)
                      (subConfig (topicName P env) (dltName P env)), None)]))"
  proof (cases rule: main_cases)
    case (halted h)
    with quiet_start(2) [OF halted(2)] show ?thesis
      by (auto simp: rpc_calls_mem [symmetric])
  next
    case (provisioned env' logger w1)
    with env have "env' = env" by simp
    with provisioned(7,9) show ?thesis
      by (intro provisioned_recreates [of P b w1 logger env r w']) simp_all
  qed
next
  assume run: "main_part_000 P b = (r, w')"
    and env: "fst (dotenv_init_part_000 P (init_world P b)) = Inr env"
  from run show "
      (subName P env \<in> dom (subscriptions b) \<and>
       Rpc (CreateSubscription (subName P env) cfg) e \<in> set (trace w') \<longrightarrow>
         (\<exists>pre. rpc_calls (trace w') =
            pre @ [(SubscriptionDelete (subName P env), None),
                   (CreateSubscription (subName P env) cfg, e)])) \<and>
      (r = Inr () \<longrightarrow>
         subscriptions (broker w') (subName P env) =
           Some \<lparr>Topic = topicName P env,
                 PushConfig = \<lparr>Endpoint = []\<rparr>,
                 AckDeadline = 60000000000,
                 DeadLetterPolicy =
                   Some \<lparr>DeadLetterTopic = dltName P env, MaxDeliveryAttempts = 10\<rparr>\<rparr> \<and>
         (\<exists>pre. rpc_calls (trace w') =
            pre @ [(CreateSubscription (subName P env)
                      (subConfig (topicName P env) (dltName P env)), None)]))"
  proof (cases rule: main_part_000_cases)
    case (halted h)
    with quiet_start(2) [OF halted(2)] show ?thesis
      by (auto simp: rpc_calls_mem [symmetric])
  next
    case (provisioned env' logger w1)
    with env have "env' = env" by simp
    with provisioned(7,8) show ?thesis
      by (intro provisioned_recreates [of P b w1 logger env r w']) simp_all
  qed
qed


lemma sample_stale_run:
  "fst (main sample_platform stale_broker) = Inr ()"
  "rpc_calls (trace (snd (main sample_platform stale_broker))) =
     [(TopicExists ''projects/p/topics/d'', None),
      (CreateTopic ''projects/p/topics/d'', None),
      (TopicExists ''projects/p/topics/t'', None),
      (SubscriptionExists ''projects/p/subscriptions/s'', None),
      (SubscriptionDelete ''projects/p/subscriptions/s'', None),
      (CreateSubscription ''projects/p/subscriptions/s''
         (subConfig ''projects/p/topics/t'' ''projects/p/topics/d''), None)]"
  by (simp_all add: run_defs lib_defs sample_defs waitLoop.simps)

theorem main_recreates_subscription_witness:
  "''projects/p/subscriptions/s'' \<in> dom (subscriptions stale_broker) \<and>
   Rpc (CreateSubscription ''projects/p/subscriptions/s''
          (subConfig ''projects/p/topics/t'' ''projects/p/topics/d'')) None
     \<in> set (trace (snd (main sample_platform stale_broker))) \<and>
   fst (main sample_platform stale_broker) = Inr () \<and>
   subscriptions (broker (snd (main sample_platform stale_broker)))
       ''projects/p/subscriptions/s'' =
     Some \<lparr>Topic = ''projects/p/topics/t'',
           PushConfig = \<lparr>Endpoint = []\<rparr>,
           AckDeadline = 60000000000,
           DeadLetterPolicy =
             Some \<lparr>DeadLetterTopic = ''projects/p/topics/d'', MaxDeliveryAttempts = 10\<rparr>\<rparr> \<and>
   (\<exists>pre. rpc_calls (trace (snd (main sample_platform stale_broker))) =
      pre @ [(SubscriptionDelete ''projects/p/subscriptions/s'', None),
             (CreateSubscription ''projects/p/subscriptions/s''
                (subConfig ''projects/p/topics/t'' ''projects/p/topics/d''), None)])"
proof -
  have dom: "''projects/p/subscriptions/s'' \<in> dom (subscriptions stale_broker)"
    by (simp add: stale_broker_def)
  have issued: "Rpc (CreateSubscription ''projects/p/subscriptions/s''
          (subConfig ''projects/p/topics/t'' ''projects/p/topics/d'')) None
     \<in> set (trace (snd (main sample_platform stale_broker)))"
    by (simp add: rpc_calls_mem [symmetric] sample_stale_run(2))
  have run: "main sample_platform stale_broker =
               (Inr (), snd (main sample_platform stale_broker))"
    using sample_stale_run(1) by (simp add: prod_eq_iff)
  from main_recreates_subscription [of sample_platform stale_broker
      "Inr ()" "snd (main sample_platform stale_broker)"
      sample_environ "subConfig ''projects/p/topics/t'' ''projects/p/topics/d''" None]
    dom issued run sample_stale_run(1)
  show ?thesis
    by (simp add: sample_dotenv sample_names)
qed

subsection \<open>A second run\<close>

lemma dotenv_init_network:
  "fst (dotenv_init (P\<lparr>ResolveTCPAddr := rs, dial := dl, NewClient_err := nc,
                        rpc_fault := f, boot_time := t0, tick := tk\<rparr>) w) =
   fst (dotenv_init P w0)"
  by (simp add: dotenv_init_def log_Fatal_def godotenv_Load_def Let_def split: sum.splits)

lemma names_network:
  "dltName (P\<lparr>ResolveTCPAddr := rs, dial := dl, NewClient_err := nc,
               rpc_fault := f, boot_time := t0, tick := tk\<rparr>) env = dltName P env"
  "topicName (P\<lparr>ResolveTCPAddr := rs, dial := dl, NewClient_err := nc,
                 rpc_fault := f, boot_time := t0, tick := tk\<rparr>) env = topicName P env"
  "subName (P\<lparr>ResolveTCPAddr := rs, dial := dl, NewClient_err := nc,
               rpc_fault := f, boot_time := t0, tick := tk\<rparr>) env = subName P env"
  by (simp_all add: dltName_def topicName_def subName_def)

text \<open>
  C5. Run \<open>main\<close> to its end, then run it again on the broker it left, with the same
  process configuration and any behaviour of the network (name resolution, dials,
  client creation, transport faults, clock): if the second run reaches its end too,
  the broker is the one the first run left.
\<close>

theorem main_idempotent:
  assumes first: "main P b = (Inr (), w1)"
    and second: "main (P\<lparr>ResolveTCPAddr := rs, dial := dl, NewClient_err := nc,
                          rpc_fault := f, boot_time := t0, tick := tk\<rparr>) (broker w1) = (Inr (), w2)"
  shows "broker w2 = broker w1"
proof -
  let ?P = "P\<lparr>ResolveTCPAddr := rs, dial := dl, NewClient_err := nc,
               rpc_fault := f, boot_time := t0, tick := tk\<rparr>"
  from main_completed [OF first] obtain env where
    env: "fst (dotenv_init P (init_world P b)) = Inr env" and
    t1: "topics (broker w1) = insert (topicName P env) (insert (dltName P env) (topics b))" and
    s1: "subscriptions (broker w1) =
           (subscriptions b)(subName P env \<mapsto> subConfig (topicName P env) (dltName P env))"
    by blast
  from main_completed [OF second] obtain env' where
    env': "fst (dotenv_init ?P (init_world ?P (broker w1))) = Inr env'" and
    t2: "topics (broker w2) =
           insert (topicName ?P env') (insert (dltName ?P env') (topics (broker w1)))" and
    s2: "subscriptions (broker w2) =
           (subscriptions (broker w1))(subName ?P env' \<mapsto>
              subConfig (topicName ?P env') (dltName ?P env'))"
    by blast
  from env env' have same: "env' = env"
    by (simp add: dotenv_init_network [where ?w0.0 = "init_world P b"])
  have "topics (broker w2) = topics (broker w1)"
    unfolding t2 same names_network t1 by auto
  moreover have "subscriptions (broker w2) = subscriptions (broker w1)"
    unfolding s2 same names_network s1 by simp
  ultimately show ?thesis by (simp add: broker.equality)
qed

lemma sample_run_broker: "broker (snd (main sample_platform empty_broker)) = provisioned_broker"
  by (simp add: run_defs lib_defs sample_defs waitLoop.simps provisioned_broker_def)

lemma sample_second_run:
  "fst (main (settled_network sample_platform) provisioned_broker) = Inr ()"
  by (simp add: run_defs lib_defs sample_defs waitLoop.simps provisioned_broker_def
        settled_network_def)

theorem main_idempotent_witness:
  "fst (main sample_platform empty_broker) = Inr () \<and>
   fst (main (settled_network sample_platform)
          (broker (snd (main sample_platform empty_broker)))) = Inr () \<and>
   broker (snd (main (settled_network sample_platform)
                  (broker (snd (main sample_platform empty_broker))))) =
   broker (snd (main sample_platform empty_broker))"
proof -
  let ?w1 = "snd (main sample_platform empty_broker)"
  let ?w2 = "snd (main (settled_network sample_platform) (broker ?w1))"
  have first: "main sample_platform empty_broker = (Inr (), ?w1)"
    using sample_run_completes by (simp add: prod_eq_iff)
  have ok2: "fst (main (settled_network sample_platform) (broker ?w1)) = Inr ()"
    by (simp add: sample_run_broker sample_second_run)
  then have second: "main (settled_network sample_platform) (broker ?w1) = (Inr (), ?w2)"
    by (simp add: prod_eq_iff)
  from main_idempotent [OF first second [unfolded settled_network_def]]
  have "broker ?w2 = broker ?w1" by (simp add: settled_network_def)
  with sample_run_completes ok2 show ?thesis by simp
qed

subsection \<open>The calls follow the plan\<close>

lemma plan_CreateSubscription:
  "CreateSubscription n cfg \<in> set (plan b d t s c0) \<Longrightarrow> n = s \<and> cfg = c0"
  by (auto simp: plan_def split: if_splits)

lemma provisioned_calls:
  assumes q: "quiet (init_world P b) w1"
    and run: "provision P logger \<lparr>client_project = Getenv env (ENVVAR_GOOGLE_PROJECT_ID P)\<rparr>
         (Getenv env (ENVVAR_TOPIC_ID P)) (Getenv env (ENVVAR_SUBSCRIPTION_ID P))
         (Getenv env (ENVVAR_DLT_TOPIC_ID P)) w1 = (r, w')"
  defines "pl \<equiv> plan b (dltName P env) (topicName P env) (subName P env)
                   (subConfig (topicName P env) (dltName P env))"
  shows "prefix (map fst (rpc_calls (trace w'))) pl"
    and "r = Inr () \<Longrightarrow> map fst (rpc_calls (trace w')) = pl"
    and "Rpc (CreateSubscription n cfg) e \<in> set (trace w') \<Longrightarrow>
           cfg = subConfig (topicName P env) (dltName P env) \<and>
           map fst (rpc_calls (trace w')) = pl \<and> succeeded (butlast (rpc_calls (trace w'))) \<and>
           dltName P env \<in> topics (broker w') \<and> topicName P env \<in> topics (broker w')"
proof -
  note s = quiet_start [OF q]
  from provision_calls [OF run] obtain cs where
    cs: "rpc_calls (trace w') = cs" and
    p: "prefix (map fst cs) pl" and
    d: "r = Inr () \<longrightarrow> map fst cs = pl" and
    c: "CreateSubscription (subName P env) (subConfig (topicName P env) (dltName P env))
          \<in> set (map fst cs) \<longrightarrow>
        map fst cs = pl \<and> succeeded (butlast cs) \<and>
        dltName P env \<in> topics (broker w') \<and> topicName P env \<in> topics (broker w')"
    unfolding pl_def dltName_def topicName_def subName_def s by auto
  from p cs show "prefix (map fst (rpc_calls (trace w'))) pl" by simp
  from d cs show "r = Inr () \<Longrightarrow> map fst (rpc_calls (trace w')) = pl" by simp
  assume "Rpc (CreateSubscription n cfg) e \<in> set (trace w')"
  then have m: "CreateSubscription n cfg \<in> set (map fst cs)"
    using cs by (force simp: rpc_calls_mem [symmetric])
  with p have "CreateSubscription n cfg \<in> set pl"
    using set_mono_prefix by blast
  then have "n = subName P env \<and> cfg = subConfig (topicName P env) (dltName P env)"
    unfolding pl_def by (rule plan_CreateSubscription)
  with m c cs show "cfg = subConfig (topicName P env) (dltName P env) \<and>
           map fst (rpc_calls (trace w')) = pl \<and> succeeded (butlast (rpc_calls (trace w'))) \<and>
           dltName P env \<in> topics (broker w') \<and> topicName P env \<in> topics (broker w')"
    by simp
qed

text \<open>
  C6. Every \<^verbatim>\<open>CreateSubscription\<close> call that a run of \<open>main\<close> (either copy) issues
  carries a configuration with an empty push endpoint: the subscription asked for is a
  pull subscription.
\<close>

theorem main_creates_pull_subscription:
  "(main P b = (r, w') \<and> Rpc (CreateSubscription n cfg) e \<in> set (trace w') \<longrightarrow>
      Endpoint (PushConfig cfg) = []) \<and>
   (main_part_000 P b = (r, w') \<and> Rpc (CreateSubscription n cfg) e \<in> set (trace w') \<longrightarrow>
      Endpoint (PushConfig cfg) = [])"
proof (rule conjI; (rule impI, elim conjE))
  assume run: "main P b = (r, w')"
    and issued: "Rpc (CreateSubscription n cfg) e \<in> set (trace w')"
  from run show "Endpoint (PushConfig cfg) = []"
  proof (cases rule: main_cases)
    case (halted h)
    with quiet_start(2) [OF halted(2)] issued show ?thesis
      by (simp add: rpc_calls_mem [symmetric])
  next
    case (provisioned env logger w1)
    from provisioned_calls(3) [OF provisioned(7,9) issued] show ?thesis
      by (simp add: subConfig_def)
  qed
next
  assume run: "main_part_000 P b = (r, w')"
    and issued: "Rpc (CreateSubscription n cfg) e \<in> set (trace w')"
  from run show "Endpoint (PushConfig cfg) = []"
  proof (cases rule: main_part_000_cases)
    case (halted h)
    with quiet_start(2) [OF halted(2)] issued show ?thesis
      by (simp add: rpc_calls_mem [symmetric])
  next
    case (provisioned env logger w1)
    from provisioned_calls(3) [OF provisioned(7,8) issued] show ?thesis
      by (simp add: subConfig_def)
  qed
qed

theorem main_creates_pull_subscription_witness:
  "Rpc (CreateSubscription ''projects/p/subscriptions/s''
          (subConfig ''projects/p/topics/t'' ''projects/p/topics/d'')) None
     \<in> set (trace (snd (main sample_platform stale_broker))) \<and>
   Endpoint (PushConfig (subConfig ''projects/p/topics/t'' ''projects/p/topics/d'')) = []"
proof -
  have issued: "Rpc (CreateSubscription ''projects/p/subscriptions/s''
          (subConfig ''projects/p/topics/t'' ''projects/p/topics/d'')) None
     \<in> set (trace (snd (main sample_platform stale_broker)))"
    by (simp add: rpc_calls_mem [symmetric] sample_stale_run(2))
  have run: "main sample_platform stale_broker =
               (fst (main sample_platform stale_broker), snd (main sample_platform stale_broker))"
    by simp
  from main_creates_pull_subscription [THEN conjunct1, rule_format, OF conjI [OF run issued]]
    issued
  show ?thesis by simp
qed

subsection \<open>A failed call ends the run\<close>

lemma provisioned_halts:
  assumes q: "quiet (init_world P b) w1"
    and run: "provision P logger c topicID subID dltID w1 = (r, w')"
    and failed: "Rpc call (Some e) \<in> set (trace w')"
  shows "r = Inl (OsExit 1) \<and> (\<exists>pre f a. trace w' = pre @ [Rpc call (Some e), StdLogFatal f a])"
proof -
  note s = quiet_start [OF q]
  from provision_trace [OF run] obtain evs where
    tr: "trace w' = trace w1 @ evs" and h: "halts_on_error evs" and
    ok: "r = Inr () \<longrightarrow> succeeded (rpc_calls evs)" and
    bad: "r \<noteq> Inr () \<longrightarrow> r = Inl (OsExit 1) \<and> \<not> succeeded (rpc_calls evs)"
    by blast
  from failed have "(call, Some e) \<in> set (rpc_calls (trace w'))"
    by (simp add: rpc_calls_mem)
  with tr s(2) have mem: "(call, Some e) \<in> set (rpc_calls evs)"
    by (simp add: rpc_calls_append)
  then have "\<not> succeeded (rpc_calls evs)"
    by (force simp: succeeded_def list_all_iff)
  with ok bad have r: "r = Inl (OsExit 1)" by blast
  from mem have "Rpc call (Some e) \<in> set evs" by (simp add: rpc_calls_mem)
  then obtain pre post where split: "evs = pre @ Rpc call (Some e) # post"
    by (auto dest: split_list)
  with h halts_on_errorD obtain f a where "post = [StdLogFatal f a]" by blast
  with split tr have "trace w' = (trace w1 @ pre) @ [Rpc call (Some e), StdLogFatal f a]"
    by simp
  with r show ?thesis by blast
qed

text \<open>
  C8. In a run of \<open>main\<close> (either copy), a call of the client library that returns an
  error is followed by one fatal log line and nothing else, and the program exits with
  status 1: no call to the broker is issued after a failed one.
\<close>

theorem main_halts_on_error:
  "(main P b = (r, w') \<and> Rpc c (Some e) \<in> set (trace w') \<longrightarrow>
      r = Inl (OsExit 1) \<and>
      (\<exists>pre f a. trace w' = pre @ [Rpc c (Some e), StdLogFatal f a])) \<and>
   (main_part_000 P b = (r, w') \<and> Rpc c (Some e) \<in> set (trace w') \<longrightarrow>
      r = Inl (OsExit 1) \<and>
      (\<exists>pre f a. trace w' = pre @ [Rpc c (Some e), StdLogFatal f a]))"
proof (rule conjI; (rule impI, elim conjE))
  assume run: "main P b = (r, w')" and failed: "Rpc c (Some e) \<in> set (trace w')"
  from run show "r = Inl (OsExit 1) \<and>
      (\<exists>pre f a. trace w' = pre @ [Rpc c (Some e), StdLogFatal f a])"
  proof (cases rule: main_cases)
    case (halted h)
    with quiet_start(2) [OF halted(2)] failed show ?thesis
      by (simp add: rpc_calls_mem [symmetric])
  next
    case (provisioned env logger w1)
    from provisioned_halts [OF provisioned(7,9) failed] show ?thesis .
  qed
next
  assume run: "main_part_000 P b = (r, w')" and failed: "Rpc c (Some e) \<in> set (trace w')"
  from run show "r = Inl (OsExit 1) \<and>
      (\<exists>pre f a. trace w' = pre @ [Rpc c (Some e), StdLogFatal f a])"
  proof (cases rule: main_part_000_cases)
    case (halted h)
    with quiet_start(2) [OF halted(2)] failed show ?thesis
      by (simp add: rpc_calls_mem [symmetric])
  next
    case (provisioned env logger w1)
    from provisioned_halts [OF provisioned(7,8) failed] show ?thesis .
  qed
qed

lemma sample_failing_delete:
  "rpc_calls (trace (snd (main (failing_delete sample_platform) stale_broker))) =
     [(TopicExists ''projects/p/topics/d'', None),
      (CreateTopic ''projects/p/topics/d'', None),
      (TopicExists ''projects/p/topics/t'', None),
      (SubscriptionExists ''projects/p/subscriptions/s'', None),
      (SubscriptionDelete ''projects/p/subscriptions/s'', Some (LibError ''unavailable''))]"
  by (simp add: run_defs lib_defs sample_defs waitLoop.simps failing_delete_def)

theorem main_halts_on_error_witness:
  "Rpc (SubscriptionDelete ''projects/p/subscriptions/s'') (Some (LibError ''unavailable''))
     \<in> set (trace (snd (main (failing_delete sample_platform) stale_broker))) \<and>
   fst (main (failing_delete sample_platform) stale_broker) = Inl (OsExit 1) \<and>
   (\<exists>pre f a. trace (snd (main (failing_delete sample_platform) stale_broker)) =
      pre @ [Rpc (SubscriptionDelete ''projects/p/subscriptions/s'')
               (Some (LibError ''unavailable'')),
             StdLogFatal f a])"
proof -
  let ?run = "main (failing_delete sample_platform) stale_broker"
  have failed: "Rpc (SubscriptionDelete ''projects/p/subscriptions/s'')
       (Some (LibError ''unavailable'')) \<in> set (trace (snd ?run))"
    by (simp add: rpc_calls_mem [symmetric] sample_failing_delete)
  have run: "?run = (fst ?run, snd ?run)" by simp
  from main_halts_on_error [THEN conjunct1, rule_format, OF conjI [OF run failed]] failed
  show ?thesis by simp
qed

subsection \<open>The order of the steps\<close>

lemma quiet_before_rpc:
  assumes "xs @ ys = pre @ Rpc c e # post" and "rpc_calls xs = []"
  shows "set xs \<subseteq> set pre"
proof -
  from assms(1) consider
    us where "xs = pre @ us" "us @ ys = Rpc c e # post"
  | us where "xs @ us = pre"
    by (auto simp: append_eq_append_conv2)
  then show ?thesis
  proof cases
    case 1
    show ?thesis
    proof (cases us)
      case Nil
      with 1 show ?thesis by simp
    next
      case (Cons u us')
      with 1 assms(2) show ?thesis by (simp add: rpc_calls_append)
    qed
  next
    case 2
    then show ?thesis by auto
  qed
qed

text \<open>
  C9. In a run of \<open>main\<close>: before any call to the broker, a dial has succeeded and its
  connection was closed (the readiness wait returned nil); the calls to the broker are
  an initial part of \<open>plan\<close>, which puts the dead-letter topic first, the main topic
  second and the subscription last; and a \<^verbatim>\<open>CreateSubscription\<close> is issued only when
  every call of \<open>plan\<close> before it succeeded, so that the topic and the dead-letter
  topic its configuration names are in the broker.
\<close>

theorem main_order:
  "main P b = (r, w') \<and> fst (dotenv_init P (init_world P b)) = Inr env \<longrightarrow>
     (trace w' = pre @ Rpc c e # post \<longrightarrow> ConnClose \<in> set pre) \<and>
     prefix (map fst (rpc_calls (trace w')))
       (plan b (dltName P env) (topicName P env) (subName P env)
          (subConfig (topicName P env) (dltName P env))) \<and>
     (Rpc (CreateSubscription n cfg) e' \<in> set (trace w') \<longrightarrow>
        map fst (rpc_calls (trace w')) =
          plan b (dltName P env) (topicName P env) (subName P env)
            (subConfig (topicName P env) (dltName P env)) \<and>
        succeeded (butlast (rpc_calls (trace w'))) \<and>
        Topic cfg \<in> topics (broker w') \<and>
        (\<exists>dlp. DeadLetterPolicy cfg = Some dlp \<and> DeadLetterTopic dlp \<in> topics (broker w')))"
proof (rule impI, elim conjE)
  assume run: "main P b = (r, w')" and env: "fst (dotenv_init P (init_world P b)) = Inr env"
  let ?pl = "plan b (dltName P env) (topicName P env) (subName P env)
               (subConfig (topicName P env) (dltName P env))"
  from run show
    "(trace w' = pre @ Rpc c e # post \<longrightarrow> ConnClose \<in> set pre) \<and>
     prefix (map fst (rpc_calls (trace w'))) ?pl \<and>
     (Rpc (CreateSubscription n cfg) e' \<in> set (trace w') \<longrightarrow>
        map fst (rpc_calls (trace w')) = ?pl \<and>
        succeeded (butlast (rpc_calls (trace w'))) \<and>
        Topic cfg \<in> topics (broker w') \<and>
        (\<exists>dlp. DeadLetterPolicy cfg = Some dlp \<and> DeadLetterTopic dlp \<in> topics (broker w')))"
  proof (cases rule: main_cases)
    case (halted h)
    note none = quiet_start(2) [OF halted(2)]
    have "trace w' \<noteq> pre @ Rpc c e # post"
    proof
      assume "trace w' = pre @ Rpc c e # post"
      then have "Rpc c e \<in> set (trace w')" by simp
      with none show False by (simp add: rpc_calls_mem [symmetric])
    qed
    moreover have "Rpc (CreateSubscription n cfg) e' \<notin> set (trace w')"
      using none by (simp add: rpc_calls_mem [symmetric])
    ultimately show ?thesis using none by simp
  next
    case (provisioned env' logger w1)
    with env have same: "env' = env" by simp
    note q = provisioned(7)
    note prov = provisioned(9) [unfolded same]
    from provision_trace [OF prov] obtain evs where tr: "trace w' = trace w1 @ evs"
      by blast
    have a: "ConnClose \<in> set pre" if "trace w' = pre @ Rpc c e # post"
      using quiet_before_rpc [of "trace w1" evs pre c e post] that tr
        quiet_start(2) [OF q] provisioned(8) by auto
    note calls = provisioned_calls [OF q prov]
    have b: "map fst (rpc_calls (trace w')) = ?pl \<and>
        succeeded (butlast (rpc_calls (trace w'))) \<and>
        Topic cfg \<in> topics (broker w') \<and>
        (\<exists>dlp. DeadLetterPolicy cfg = Some dlp \<and> DeadLetterTopic dlp \<in> topics (broker w'))"
      if "Rpc (CreateSubscription n cfg) e' \<in> set (trace w')"
      using calls(3) [OF that] by (simp add: subConfig_def)
    from a b calls(1) show ?thesis by blast
  qed
qed

theorem main_order_witness:
  "(\<exists>pre post. trace (snd (main sample_platform stale_broker)) =
       pre @ Rpc (TopicExists ''projects/p/topics/d'') None # post \<and>
     ConnClose \<in> set pre) \<and>
   map fst (rpc_calls (trace (snd (main sample_platform stale_broker)))) =
     [TopicExists ''projects/p/topics/d'', CreateTopic ''projects/p/topics/d'',
      TopicExists ''projects/p/topics/t'',
      SubscriptionExists ''projects/p/subscriptions/s'',
      SubscriptionDelete ''projects/p/subscriptions/s'',
      CreateSubscription ''projects/p/subscriptions/s''
        (subConfig ''projects/p/topics/t'' ''projects/p/topics/d'')] \<and>
   ''projects/p/topics/t'' \<in> topics (broker (snd (main sample_platform stale_broker))) \<and>
   ''projects/p/topics/d'' \<in> topics (broker (snd (main sample_platform stale_broker)))"
proof -
  let ?run = "main sample_platform stale_broker"
  let ?cfg = "subConfig ''projects/p/topics/t'' ''projects/p/topics/d''"
  have run: "?run = (fst ?run, snd ?run)" by simp
  have env: "fst (dotenv_init sample_platform (init_world sample_platform stale_broker)) =
               Inr sample_environ"
    by (rule sample_dotenv)
  have "Rpc (TopicExists ''projects/p/topics/d'') None \<in> set (trace (snd ?run))"
    by (simp add: rpc_calls_mem [symmetric] sample_stale_run(2))
  then obtain pre post where
    split: "trace (snd ?run) = pre @ Rpc (TopicExists ''projects/p/topics/d'') None # post"
    by (auto dest: split_list)
  have issued: "Rpc (CreateSubscription ''projects/p/subscriptions/s'' ?cfg) None
                  \<in> set (trace (snd ?run))"
    by (simp add: rpc_calls_mem [symmetric] sample_stale_run(2))
  note th = main_order [of sample_platform stale_broker "fst ?run" "snd ?run" sample_environ
      pre "TopicExists ''projects/p/topics/d''" None post
      "''projects/p/subscriptions/s''" ?cfg None, rule_format, OF conjI [OF run env]]
  from th [THEN conjunct1, rule_format, OF split] have closed: "ConnClose \<in> set pre" .
  from th [THEN conjunct2, THEN conjunct2, rule_format, OF issued]
  have "Topic ?cfg \<in> topics (broker (snd ?run))"
    and "\<exists>dlp. DeadLetterPolicy ?cfg = Some dlp \<and> DeadLetterTopic dlp \<in> topics (broker (snd ?run))"
    by blast+
  then have "''projects/p/topics/t'' \<in> topics (broker (snd ?run))"
    and "''projects/p/topics/d'' \<in> topics (broker (snd ?run))"
    by (simp_all add: subConfig_def)
  moreover from split closed have "\<exists>pre post. trace (snd ?run) =
       pre @ Rpc (TopicExists ''projects/p/topics/d'') None # post \<and> ConnClose \<in> set pre"
    by blast
  ultimately show ?thesis
    by (simp add: sample_stale_run(2))
qed

subsection \<open>Validation of the environment\<close>

lemma NewAppLogger_err:
  "NewAppLogger P env levelStr = (logger, lvl, Some e) \<Longrightarrow>
     errors_Is e ErrUnknownLogLevel \<and> lvl = LevelInfo \<and> Level logger = LevelInfo"
  by (auto simp: NewAppLogger_def errors_Join_def List.map_filter_def Let_def
      split: if_splits sum.splits)

lemma logger_setup_continues:
  "\<exists>logger w1 evs. logger_setup P env w = (Inr logger, w1) \<and> broker w1 = broker w \<and>
     trace w1 = trace w @ evs \<and> list_all is_logging evs"
proof -
  obtain logger lvl err where
    n: "NewAppLogger P (Getenv env (ENVVAR_ENV P)) (Getenv env (ENVVAR_LOG_LEVEL P)) =
          (logger, lvl, err)"
    by (cases "NewAppLogger P (Getenv env (ENVVAR_ENV P)) (Getenv env (ENVVAR_LOG_LEVEL P))")
  show ?thesis
  proof (cases err)
    case None
    with n show ?thesis
      by (simp add: logger_setup_def check_logger_err_def then_do_def say_def)
  next
    case (Some e)
    with n NewAppLogger_err have "errors_Is e ErrUnknownLogLevel" by blast
    with n Some show ?thesis
      by (simp add: logger_setup_def check_logger_err_def then_do_def say_def)
  qed
qed

lemma validate_env_missing:
  assumes "h = [] \<or> p = [] \<or> t = [] \<or> s = [] \<or> d = []"
  shows "\<exists>f. validate_env h p t s d w = (Inl (OsExit 1), say (StdLogFatal f []) w)"
  using assms by (auto simp: validate_env_def log_Fatal_def)

text \<open>
  C7. Once the dotenv section has passed: if one of the five values \<open>main\<close> reads
  (emulator host, project, topic, subscription, dead-letter topic) is empty, the run
  ends inside the validation of the environment with exit status 1, the broker is
  untouched, and every event of the run is a logging call: no dial, no client, no call
  to the broker. Both copies of \<open>main\<close>.
\<close>

theorem main_validates_environment:
  "(fst (dotenv_init P (init_world P b)) = Inr env \<and>
    (Getenv env (ENVVAR_EMULATOR_HOST P) = [] \<or> Getenv env (ENVVAR_GOOGLE_PROJECT_ID P) = [] \<or>
     Getenv env (ENVVAR_TOPIC_ID P) = [] \<or> Getenv env (ENVVAR_SUBSCRIPTION_ID P) = [] \<or>
     Getenv env (ENVVAR_DLT_TOPIC_ID P) = []) \<longrightarrow>
      (\<exists>w1. main P b =
         validate_env (Getenv env (ENVVAR_EMULATOR_HOST P))
           (Getenv env (ENVVAR_GOOGLE_PROJECT_ID P)) (Getenv env (ENVVAR_TOPIC_ID P))
           (Getenv env (ENVVAR_SUBSCRIPTION_ID P)) (Getenv env (ENVVAR_DLT_TOPIC_ID P)) w1) \<and>
      fst (main P b) = Inl (OsExit 1) \<and> broker (snd (main P b)) = b \<and>
      list_all is_logging (trace (snd (main P b))) \<and>
      (\<exists>f. last (trace (snd (main P b))) = StdLogFatal f [])) \<and>
   (fst (dotenv_init_part_000 P (init_world P b)) = Inr env \<and>
    (Getenv env (ENVVAR_EMULATOR_HOST P) = [] \<or> Getenv env (ENVVAR_GOOGLE_PROJECT_ID P) = [] \<or>
     Getenv env (ENVVAR_TOPIC_ID P) = [] \<or> Getenv env (ENVVAR_SUBSCRIPTION_ID P) = [] \<or>
     Getenv env (ENVVAR_DLT_TOPIC_ID P) = []) \<longrightarrow>
      (\<exists>w1. main_part_000 P b =
         validate_env (Getenv env (ENVVAR_EMULATOR_HOST P))
           (Getenv env (ENVVAR_GOOGLE_PROJECT_ID P)) (Getenv env (ENVVAR_TOPIC_ID P))
           (Getenv env (ENVVAR_SUBSCRIPTION_ID P)) (Getenv env (ENVVAR_DLT_TOPIC_ID P)) w1) \<and>
      fst (main_part_000 P b) = Inl (OsExit 1) \<and> broker (snd (main_part_000 P b)) = b \<and>
      list_all is_logging (trace (snd (main_part_000 P b))) \<and>
      (\<exists>f. last (trace (snd (main_part_000 P b))) = StdLogFatal f []))"
proof (rule conjI; (rule impI, elim conjE))
  let ?h = "Getenv env (ENVVAR_EMULATOR_HOST P)"
  let ?p = "Getenv env (ENVVAR_GOOGLE_PROJECT_ID P)"
  let ?t = "Getenv env (ENVVAR_TOPIC_ID P)"
  let ?s = "Getenv env (ENVVAR_SUBSCRIPTION_ID P)"
  let ?d = "Getenv env (ENVVAR_DLT_TOPIC_ID P)"
  let ?w0 = "init_world P b"
  assume env: "fst (dotenv_init P ?w0) = Inr env"
    and missing: "?h = [] \<or> ?p = [] \<or> ?t = [] \<or> ?s = [] \<or> ?d = []"
  from env have d: "dotenv_init P ?w0 = (Inr env, ?w0)"
    using dotenv_init_world [of P ?w0 env "snd (dotenv_init P ?w0)"]
    by (simp add: prod_eq_iff)
  from logger_setup_continues [of P env ?w0] obtain logger w1 evs where
    l: "logger_setup P env ?w0 = (Inr logger, w1)" and b1: "broker w1 = b" and
    t1: "trace w1 = evs" "list_all is_logging evs"
    by (auto simp: init_world_def)
  from validate_env_missing [OF missing] obtain f where
    v: "validate_env ?h ?p ?t ?s ?d w1 = (Inl (OsExit 1), say (StdLogFatal f []) w1)"
    by blast
  from d l v have m: "main P b = validate_env ?h ?p ?t ?s ?d w1"
    by (simp add: main_def then_do_def Let_def)
  then have "\<exists>w1. main P b = validate_env ?h ?p ?t ?s ?d w1" by blast
  moreover from m v b1 t1 have
    "fst (main P b) = Inl (OsExit 1) \<and> broker (snd (main P b)) = b \<and>
      list_all is_logging (trace (snd (main P b))) \<and>
      (\<exists>f. last (trace (snd (main P b))) = StdLogFatal f [])"
    by (simp add: say_def)
  ultimately show
    "(\<exists>w1. main P b = validate_env ?h ?p ?t ?s ?d w1) \<and>
      fst (main P b) = Inl (OsExit 1) \<and> broker (snd (main P b)) = b \<and>
      list_all is_logging (trace (snd (main P b))) \<and>
      (\<exists>f. last (trace (snd (main P b))) = StdLogFatal f [])"
    by blast
next
  let ?h = "Getenv env (ENVVAR_EMULATOR_HOST P)"
  let ?p = "Getenv env (ENVVAR_GOOGLE_PROJECT_ID P)"
  let ?t = "Getenv env (ENVVAR_TOPIC_ID P)"
  let ?s = "Getenv env (ENVVAR_SUBSCRIPTION_ID P)"
  let ?d = "Getenv env (ENVVAR_DLT_TOPIC_ID P)"
  let ?w0 = "init_world P b"
  assume env: "fst (dotenv_init_part_000 P ?w0) = Inr env"
    and missing: "?h = [] \<or> ?p = [] \<or> ?t = [] \<or> ?s = [] \<or> ?d = []"
  from env have d: "dotenv_init_part_000 P ?w0 = (Inr env, ?w0)"
    by (auto simp: dotenv_init_part_000_def log_Fatal_def Let_def split: sum.splits)
  from logger_setup_continues [of P env ?w0] obtain logger w1 evs where
    l: "logger_setup P env ?w0 = (Inr logger, w1)" and b1: "broker w1 = b" and
    t1: "trace w1 = evs" "list_all is_logging evs"
    by (auto simp: init_world_def)
  from validate_env_missing [OF missing] obtain f where
    v: "validate_env ?h ?p ?t ?s ?d w1 = (Inl (OsExit 1), say (StdLogFatal f []) w1)"
    by blast
  from d l v have m: "main_part_000 P b = validate_env ?h ?p ?t ?s ?d w1"
    by (simp add: main_part_000_def then_do_def Let_def)
  then have "\<exists>w1. main_part_000 P b = validate_env ?h ?p ?t ?s ?d w1" by blast
  moreover from m v b1 t1 have
    "fst (main_part_000 P b) = Inl (OsExit 1) \<and> broker (snd (main_part_000 P b)) = b \<and>
      list_all is_logging (trace (snd (main_part_000 P b))) \<and>
      (\<exists>f. last (trace (snd (main_part_000 P b))) = StdLogFatal f [])"
    by (simp add: say_def)
  ultimately show
    "(\<exists>w1. main_part_000 P b = validate_env ?h ?p ?t ?s ?d w1) \<and>
      fst (main_part_000 P b) = Inl (OsExit 1) \<and> broker (snd (main_part_000 P b)) = b \<and>
      list_all is_logging (trace (snd (main_part_000 P b))) \<and>
      (\<exists>f. last (trace (snd (main_part_000 P b))) = StdLogFatal f [])"
    by blast
qed

lemma without_topic_id_dotenv:
  "fst (dotenv_init (without_topic_id sample_platform) w) =
     Inr (sample_environ(''PUBSUB_EMULATOR_TOPIC_ID'' := None))"
  by (simp add: dotenv_init_def sample_defs Getenv_def without_topic_id_def)

theorem main_validates_environment_witness:
  "Getenv (sample_environ(''PUBSUB_EMULATOR_TOPIC_ID'' := None))
     (ENVVAR_TOPIC_ID (without_topic_id sample_platform)) = [] \<and>
   fst (main (without_topic_id sample_platform) stale_broker) = Inl (OsExit 1) \<and>
   broker (snd (main (without_topic_id sample_platform) stale_broker)) = stale_broker \<and>
   list_all is_logging (trace (snd (main (without_topic_id sample_platform) stale_broker)))"
proof -
  have empty: "Getenv (sample_environ(''PUBSUB_EMULATOR_TOPIC_ID'' := None))
     (ENVVAR_TOPIC_ID (without_topic_id sample_platform)) = []"
    by (simp add: Getenv_def without_topic_id_def sample_platform_def)
  from main_validates_environment [of "without_topic_id sample_platform" stale_broker
      "sample_environ(''PUBSUB_EMULATOR_TOPIC_ID'' := None)", THEN conjunct1, rule_format,
      OF conjI [OF without_topic_id_dotenv]] empty
  show ?thesis by blast
qed

subsection \<open>The log level\<close>

lemma then_do_mono:
  assumes run: "then_do m k = (r, w')"
    and m: "set (trace w) \<subseteq> set (trace (snd m))"
    and k: "\<And>a w1. m = (Inr a, w1) \<Longrightarrow> k a w1 = (r, w') \<Longrightarrow> set (trace w1) \<subseteq> set (trace w')"
  shows "set (trace w) \<subseteq> set (trace w')"
proof (cases m)
  case (Pair x w1)
  show ?thesis
  proof (cases x)
    case (Inl h)
    with run Pair m show ?thesis by (simp add: then_do_def)
  next
    case (Inr a)
    with run Pair have "k a w1 = (r, w')" by (simp add: then_do_def)
    with k [of a w1] Pair Inr m show ?thesis by auto
  qed
qed

lemma steps_mono:
  "set (trace w) \<subseteq> set (trace (snd (validate_env h p t s d w)))"
  "set (trace w) \<subseteq> set (trace (snd (resolve_addr P logger h w)))"
  "set (trace w) \<subseteq> set (trace (snd (wait_ready P logger addr w)))"
  "set (trace w) \<subseteq> set (trace (snd (new_client P logger h p w)))"
  using validate_env_quiet [of h p t s d w] resolve_addr_quiet [of P logger h w]
    wait_ready_quiet [of P logger addr w] new_client_quiet [of P logger h p w]
  by (simp_all add: quiet_set prod_eq_iff)

lemma provision_mono:
  "provision P logger c t s d w = (r, w') \<Longrightarrow> set (trace w) \<subseteq> set (trace w')"
  using provision_trace [of P logger c t s d w r w'] by auto

lemma main_keeps_logger_trace:
  assumes env: "fst (dotenv_init P (init_world P b)) = Inr env"
  shows "set (trace (snd (logger_setup P env (init_world P b)))) \<subseteq> set (trace (snd (main P b)))"
proof -
  let ?w0 = "init_world P b"
  from env have d: "dotenv_init P ?w0 = (Inr env, ?w0)"
    using dotenv_init_world [of P ?w0 env "snd (dotenv_init P ?w0)"]
    by (simp add: prod_eq_iff)
  from logger_setup_continues [of P env ?w0] obtain logger w1 where
    l: "logger_setup P env ?w0 = (Inr logger, w1)" by blast
  obtain r w' where run: "main P b = (r, w')" by (cases "main P b")
  from run d l have "set (trace w1) \<subseteq> set (trace w')"
    unfolding main_def
    apply (simp add: then_do_def [of "(Inr env, ?w0)"] then_do_def [of "(Inr logger, w1)"] Let_def)
    apply (erule then_do_mono, rule steps_mono)+
    apply (erule provision_mono)
    done
  with l run show ?thesis by simp
qed

lemma halts_with_exit:
  "validate_env h p t s d w = (Inl x, w') \<Longrightarrow> x = OsExit 1"
  "resolve_addr P logger h w = (Inl x, w') \<Longrightarrow> x = OsExit 1"
  "wait_ready P logger addr w = (Inl x, w') \<Longrightarrow> x = OsExit 1"
  "new_client P logger h p w = (Inl x, w') \<Longrightarrow> x = OsExit 1"
  "dotenv_init P w = (Inl x, w') \<Longrightarrow> x = OsExit 1"
  by (auto simp: validate_env_def resolve_addr_def wait_ready_def new_client_def
      dotenv_init_def log_Fatal_def Let_def split: if_splits sum.splits option.splits prod.splits)

lemma main_never_returns_early: "fst (main P b) \<noteq> Inl EarlyReturn"
proof
  assume early: "fst (main P b) = Inl EarlyReturn"
  then have run: "main P b = (Inl EarlyReturn, snd (main P b))"
    by (simp add: prod_eq_iff)
  from run show False
  proof (cases rule: main_cases)
    case (provisioned env logger w1)
    from provision_trace [OF provisioned(9)] show False by auto
  next
    case (halted h)
    let ?w0 = "init_world P b"
    obtain r0 w0 where s0: "dotenv_init P ?w0 = (r0, w0)" by (cases "dotenv_init P ?w0")
    show False
    proof (cases r0)
      case (Inl x)
      with s0 halts_with_exit(5) have "x = OsExit 1" by blast
      with run s0 Inl show False by (simp add: main_def then_do_def)
    next
      case (Inr env)
      with s0 have w0: "w0 = ?w0" by (simp add: dotenv_init_world)
      from logger_setup_continues [of P env ?w0] obtain logger w1 where
        l: "logger_setup P env ?w0 = (Inr logger, w1)" by blast
      from run s0 Inr w0 l show False
        unfolding main_def
        apply (simp add: then_do_def [of "(Inr env, ?w0)"] then_do_def [of "(Inr logger, w1)"]
            Let_def)
        apply (auto simp: then_do_def split: sum.splits prod.splits
            dest: halts_with_exit provision_trace)
        done
    qed
  qed
qed

text \<open>
  C10. \<^verbatim>\<open>NewAppLogger\<close>, for every \<open>env\<close>: with an empty level string it returns
  level Info and a nil error; with a level string the parser rejects it returns a logger
  at level Info and an error that \<^verbatim>\<open>errors.Is\<close> the sentinel. \<open>main\<close> answers an
  error that is the sentinel with a warning and goes on, and any other error with an
  error log and an early return; since \<^verbatim>\<open>NewAppLogger\<close> makes no other error,
  \<open>main\<close> never returns early, and with a rejected level string its trace holds the
  warning.
\<close>

theorem logger_level_never_fatal:
  "(NewAppLogger P env [] = (logger, lvl, err) \<longrightarrow>
      lvl = LevelInfo \<and> err = None \<and> Level logger = LevelInfo) \<and>
   (levelStr \<noteq> [] \<and> UnmarshalText P levelStr = Inl e0 \<and>
    NewAppLogger P env levelStr = (logger, lvl, err) \<longrightarrow>
      lvl = LevelInfo \<and> Level logger = LevelInfo \<and>
      handler logger = (if env = ''local'' then TintHandler else JSONHandler) \<and>
      (\<exists>e. err = Some e \<and> errors_Is e ErrUnknownLogLevel)) \<and>
   (errors_Is e ErrUnknownLogLevel \<longrightarrow>
      check_logger_err P logger lvl (Some e) w =
        (Inr (),
         say (Slog LevelWarn ''Failed to parse log level envvar'' []
                [slog_Any ''error''
                   (Errorf ''failed to parse %s envvar, using log level %s, err: %s''
                      [AString (ENVVAR_LOG_LEVEL P), ALevel lvl, AError e])]) w)) \<and>
   (\<not> errors_Is e ErrUnknownLogLevel \<longrightarrow>
      check_logger_err P logger lvl (Some e) w =
        (Inl EarlyReturn,
         say (Slog LevelError ''Failed to configure logger'' [] [slog_Any ''error'' e]) w)) \<and>
   fst (main P b) \<noteq> Inl EarlyReturn \<and>
   (fst (dotenv_init P (init_world P b)) = Inr env' \<and>
    Getenv env' (ENVVAR_LOG_LEVEL P) \<noteq> [] \<and>
    UnmarshalText P (Getenv env' (ENVVAR_LOG_LEVEL P)) = Inl e0 \<longrightarrow>
      (\<exists>a. Slog LevelWarn ''Failed to parse log level envvar'' [] a
             \<in> set (trace (snd (main P b)))))"
proof (intro conjI impI; (elim conjE)?)
  assume "NewAppLogger P env [] = (logger, lvl, err)"
  then show "lvl = LevelInfo" "err = None" "Level logger = LevelInfo"
    by (auto simp: NewAppLogger_def Let_def split: if_splits)
next
  assume a: "levelStr \<noteq> []" "UnmarshalText P levelStr = Inl e0"
    "NewAppLogger P env levelStr = (logger, lvl, err)"
  then show "lvl = LevelInfo" "Level logger = LevelInfo"
    "handler logger = (if env = ''local'' then TintHandler else JSONHandler)"
    by (auto simp: NewAppLogger_def Let_def split: if_splits)
  from a have "err = Some (JoinError [ErrUnknownLogLevel, e0])"
    by (auto simp: NewAppLogger_def Let_def errors_Join_def List.map_filter_def
        split: if_splits)
  then show "\<exists>e. err = Some e \<and> errors_Is e ErrUnknownLogLevel" by simp
next
  assume "errors_Is e ErrUnknownLogLevel"
  then show "check_logger_err P logger lvl (Some e) w =
        (Inr (),
         say (Slog LevelWarn ''Failed to parse log level envvar'' []
                [slog_Any ''error''
                   (Errorf ''failed to parse %s envvar, using log level %s, err: %s''
                      [AString (ENVVAR_LOG_LEVEL P), ALevel lvl, AError e])]) w)"
    by (simp add: check_logger_err_def)
next
  assume "\<not> errors_Is e ErrUnknownLogLevel"
  then show "check_logger_err P logger lvl (Some e) w =
        (Inl EarlyReturn,
         say (Slog LevelError ''Failed to configure logger'' [] [slog_Any ''error'' e]) w)"
    by (simp add: check_logger_err_def)
next
  show "fst (main P b) \<noteq> Inl EarlyReturn" by (rule main_never_returns_early)
next
  assume env: "fst (dotenv_init P (init_world P b)) = Inr env'"
    and bad: "Getenv env' (ENVVAR_LOG_LEVEL P) \<noteq> []"
      "UnmarshalText P (Getenv env' (ENVVAR_LOG_LEVEL P)) = Inl e0"
  from bad have "\<exists>a. Slog LevelWarn ''Failed to parse log level envvar'' [] a
      \<in> set (trace (snd (logger_setup P env' (init_world P b))))"
    by (auto simp: logger_setup_def NewAppLogger_def check_logger_err_def then_do_def say_def
        errors_Join_def List.map_filter_def Let_def)
  with main_keeps_logger_trace [OF env]
  show "\<exists>a. Slog LevelWarn ''Failed to parse log level envvar'' [] a
             \<in> set (trace (snd (main P b)))"
    by blast
qed

theorem logger_level_never_fatal_witness:
  "Getenv sample_environ (ENVVAR_LOG_LEVEL sample_platform) = ''verbose'' \<and>
   UnmarshalText sample_platform ''verbose'' =
     Inl (LibError ''slog: level string: unknown name'') \<and>
   NewAppLogger sample_platform ''dev'' ''verbose'' =
     (\<lparr>handler = JSONHandler, AddSource = False, Level = 0\<rparr>, 0,
      Some (JoinError [ErrUnknownLogLevel, LibError ''slog: level string: unknown name''])) \<and>
   errors_Is (JoinError [ErrUnknownLogLevel, LibError ''slog: level string: unknown name''])
     ErrUnknownLogLevel \<and>
   (\<exists>a. Slog LevelWarn ''Failed to parse log level envvar'' [] a
          \<in> set (trace (snd (main sample_platform empty_broker))))"
proof -
  have lv: "Getenv sample_environ (ENVVAR_LOG_LEVEL sample_platform) = ''verbose''"
    by (simp add: Getenv_def sample_defs)
  have un: "UnmarshalText sample_platform ''verbose'' =
     Inl (LibError ''slog: level string: unknown name'')"
    by (simp add: sample_defs)
  have nl: "NewAppLogger sample_platform ''dev'' ''verbose'' =
     (\<lparr>handler = JSONHandler, AddSource = False, Level = 0\<rparr>, 0,
      Some (JoinError [ErrUnknownLogLevel, LibError ''slog: level string: unknown name'']))"
    by (simp add: NewAppLogger_def sample_defs errors_Join_def List.map_filter_def LevelInfo_def)
  note th = logger_level_never_fatal [of sample_platform _ _ _ _ _ _ _ _ empty_broker
      sample_environ]
  have "\<exists>a. Slog LevelWarn ''Failed to parse log level envvar'' [] a
          \<in> set (trace (snd (main sample_platform empty_broker)))"
    using th [THEN conjunct2, THEN conjunct2, THEN conjunct2, THEN conjunct2, THEN conjunct2,
        rule_format, of "LibError ''slog: level string: unknown name''"]
      sample_dotenv [of "init_world sample_platform empty_broker"] lv un
    by simp
  with lv un nl show ?thesis by simp
qed

subsection \<open>The readiness wait\<close>

lemma waitForPubSubEmulator_run:
  assumes "waitForPubSubEmulator P host logger timeout w = (r, w')"
  shows "\<exists>k. dials w' = dials w + k \<and>
     (\<forall>j<k. check_time P (time_Now P w) j \<le> now (time_Now P w) + timeout) \<and>
     (\<forall>j. Suc j < k \<longrightarrow> dial_err (dial P (dials w + j)) \<noteq> None) \<and>
     (r = None \<longrightarrow>
        0 < k \<and> dial_err (dial P (dials w + (k - 1))) = None \<and>
        now w' = check_time P (time_Now P w) (k - 1) +
                 int (dial_elapsed (dial P (dials w + (k - 1))))) \<and>
     (r \<noteq> None \<longrightarrow>
        r = Some (Errorf ''Pub/Sub emulator did not become available within %s''
                    [ADuration timeout]) \<and>
        now (time_Now P w) + timeout < check_time P (time_Now P w) k \<and>
        now w' = check_time P (time_Now P w) k \<and>
        (\<forall>j<k. dial_err (dial P (dials w + j)) \<noteq> None)) \<and>
     int k \<le> max 0 (timeout div (2 * Second) + 1)"
proof -
  let ?w0 = "time_Now P w"
  let ?D = "now ?w0 + timeout"
  from assms have run: "waitLoop P host timeout ?D ?w0 = (r, w')"
    by (simp add: waitForPubSubEmulator_def Let_def)
  from waitLoop_schedule [OF run] obtain k where
    d: "dials w' = dials w + k" and
    st: "\<forall>j<k. check_time P ?w0 j \<le> ?D" and
    fl: "\<forall>j. Suc j < k \<longrightarrow> dial_err (dial P (dials w + j)) \<noteq> None" and
    res: "case r of
          None \<Rightarrow>
            0 < k \<and> dial_err (dial P (dials w + (k - 1))) = None \<and>
            now w' = check_time P ?w0 (k - 1) + int (dial_elapsed (dial P (dials w + (k - 1)))) \<and>
            reads w' = reads ?w0 + k
        | Some e \<Rightarrow>
            e = Errorf ''Pub/Sub emulator did not become available within %s''
                  [ADuration timeout] \<and>
            ?D < check_time P ?w0 k \<and> now w' = check_time P ?w0 k \<and>
            reads w' = Suc (reads ?w0 + k) \<and>
            (\<forall>j<k. dial_err (dial P (dials w + j)) \<noteq> None)"
    unfolding time_Now_simps by blast
  note b = waitLoop_bound [OF st]
  from d st fl res b show ?thesis
    by (intro exI [of _ k]) (auto split: option.splits)
qed

text \<open>
  C4. \<^verbatim>\<open>waitForPubSubEmulator\<close> is a total function (its loop is defined
  with a proof of termination: each round moves the clock by at least two seconds
  towards the deadline, every dial returning after a finite time). The deadline is the
  time read on entry plus the timeout, and it is compared with the clock only before a
  dial. Of every call, with \<open>k\<close> the number of dials made: the broker is not touched;
  the events are those of the \<open>k\<close> dials in their order, a failed dial being followed
  by a debug line and a sleep of two seconds, a successful one by the closing of the
  connection and an info line; every dial was begun when the clock was not past the
  deadline, and every dial but the last failed; the result is nil exactly when there
  was a dial and the last one succeeded, and then the call returns when that dial
  does; otherwise the result is the error naming the timeout, every dial failed, and
  the clock at the check that ended the loop was past the deadline; at most
  \<open>timeout div 2 s + 1\<close> dials are made. In particular: when the first check finds
  the clock past the deadline, the error is returned and no dial is made; when it
  does not, a dial is made, and if that dial succeeds the result is nil after this one
  dial; and when no dial ever succeeds, the result is the error. A dial begun by the
  deadline gives nil when it succeeds, however late.
\<close>

theorem waitForPubSubEmulator_polls:
  assumes "waitForPubSubEmulator P host logger timeout w = (r, w')"
  shows "broker w' = broker w \<and>
    (\<exists>k. dials w' = dials w + k \<and>
       trace w' =
         trace w @ concat (map (\<lambda>i. attempt_events host (dial P i)) [dials w..<dials w + k]) \<and>
       (\<forall>j<k. check_time P (time_Now P w) j \<le> now (time_Now P w) + timeout) \<and>
       (\<forall>j. Suc j < k \<longrightarrow> dial_err (dial P (dials w + j)) \<noteq> None) \<and>
       (r = None \<longleftrightarrow> 0 < k \<and> dial_err (dial P (dials w + (k - 1))) = None) \<and>
       (r = None \<longrightarrow>
          now w' = check_time P (time_Now P w) (k - 1) +
                   int (dial_elapsed (dial P (dials w + (k - 1))))) \<and>
       (r \<noteq> None \<longrightarrow>
          r = Some (Errorf ''Pub/Sub emulator did not become available within %s''
                      [ADuration timeout]) \<and>
          now (time_Now P w) + timeout < check_time P (time_Now P w) k \<and>
          now w' = check_time P (time_Now P w) k \<and>
          (\<forall>j<k. dial_err (dial P (dials w + j)) \<noteq> None)) \<and>
       int k \<le> max 0 (timeout div (2 * Second) + 1)) \<and>
    (timeout < int (tick P (Suc (reads w))) \<longrightarrow>
       r = Some (Errorf ''Pub/Sub emulator did not become available within %s''
                   [ADuration timeout]) \<and>
       dials w' = dials w \<and> trace w' = trace w) \<and>
    (int (tick P (Suc (reads w))) \<le> timeout \<longrightarrow>
       dials w < dials w' \<and>
       (dial_err (dial P (dials w)) = None \<longrightarrow> r = None \<and> dials w' = Suc (dials w))) \<and>
    ((\<forall>i. dials w \<le> i \<longrightarrow> dial_err (dial P i) \<noteq> None) \<longrightarrow> r \<noteq> None)"
proof -
  let ?w0 = "time_Now P w"
  let ?D = "now ?w0 + timeout"
  let ?err = "Some (Errorf ''Pub/Sub emulator did not become available within %s''
                      [ADuration timeout])"
  from assms have run: "waitLoop P host timeout ?D ?w0 = (r, w')"
    by (simp add: waitForPubSubEmulator_def Let_def)
  have first: "check_time P ?w0 0 = now ?w0 + int (tick P (Suc (reads w)))"
    by (simp add: time_Now_simps)
  from waitLoop_frame [OF run] have f: "broker w' = broker w"
    by (simp add: time_Now_simps)
  from waitLoop_trace [OF run] have t: "trace w' =
      trace w @ concat (map (\<lambda>i. attempt_events host (dial P i)) [dials w..<dials w'])"
    by (simp add: time_Now_simps)
  from waitForPubSubEmulator_run [OF assms] obtain k where
    d: "dials w' = dials w + k" and
    st: "\<forall>j<k. check_time P ?w0 j \<le> ?D" and
    fl: "\<forall>j. Suc j < k \<longrightarrow> dial_err (dial P (dials w + j)) \<noteq> None" and
    ok: "r = None \<longrightarrow>
        0 < k \<and> dial_err (dial P (dials w + (k - 1))) = None \<and>
        now w' = check_time P ?w0 (k - 1) + int (dial_elapsed (dial P (dials w + (k - 1))))" and
    bad: "r \<noteq> None \<longrightarrow> r = ?err \<and> ?D < check_time P ?w0 k \<and>
        now w' = check_time P ?w0 k \<and> (\<forall>j<k. dial_err (dial P (dials w + j)) \<noteq> None)" and
    b: "int k \<le> max 0 (timeout div (2 * Second) + 1)"
    by blast
  have iff: "r = None \<longleftrightarrow> 0 < k \<and> dial_err (dial P (dials w + (k - 1))) = None"
  proof
    assume "r = None" with ok show "0 < k \<and> dial_err (dial P (dials w + (k - 1))) = None"
      by blast
  next
    assume a: "0 < k \<and> dial_err (dial P (dials w + (k - 1))) = None"
    show "r = None"
    proof (rule ccontr)
      assume "r \<noteq> None"
      with bad have "\<forall>j<k. dial_err (dial P (dials w + j)) \<noteq> None" by blast
      moreover from a have "k - 1 < k" by simp
      ultimately show False using a by blast
    qed
  qed
  have part1: "\<exists>k. dials w' = dials w + k \<and>
       trace w' =
         trace w @ concat (map (\<lambda>i. attempt_events host (dial P i)) [dials w..<dials w + k]) \<and>
       (\<forall>j<k. check_time P ?w0 j \<le> ?D) \<and>
       (\<forall>j. Suc j < k \<longrightarrow> dial_err (dial P (dials w + j)) \<noteq> None) \<and>
       (r = None \<longleftrightarrow> 0 < k \<and> dial_err (dial P (dials w + (k - 1))) = None) \<and>
       (r = None \<longrightarrow>
          now w' = check_time P ?w0 (k - 1) +
                   int (dial_elapsed (dial P (dials w + (k - 1))))) \<and>
       (r \<noteq> None \<longrightarrow> r = ?err \<and> ?D < check_time P ?w0 k \<and>
          now w' = check_time P ?w0 k \<and>
          (\<forall>j<k. dial_err (dial P (dials w + j)) \<noteq> None)) \<and>
       int k \<le> max 0 (timeout div (2 * Second) + 1)"
  proof (intro exI [of _ k] conjI)
    from t d show "trace w' =
         trace w @ concat (map (\<lambda>i. attempt_events host (dial P i)) [dials w..<dials w + k])"
      by simp
    from ok show "r = None \<longrightarrow>
          now w' = check_time P ?w0 (k - 1) +
                   int (dial_elapsed (dial P (dials w + (k - 1))))"
      by blast
  qed (rule d st fl iff bad b)+
  have late: "r = ?err \<and> dials w' = dials w \<and> trace w' = trace w"
    if "timeout < int (tick P (Suc (reads w)))"
  proof -
    from that first have "?D < check_time P ?w0 0" by simp
    with run have "r = ?err" and "w' = time_Now P ?w0"
      by (simp_all add: waitLoop_timeout)
    then show ?thesis by (simp add: time_Now_simps)
  qed
  have in_time: "dials w < dials w' \<and>
       (dial_err (dial P (dials w)) = None \<longrightarrow> r = None \<and> dials w' = Suc (dials w))"
    if "int (tick P (Suc (reads w))) \<le> timeout"
  proof -
    from that first have nl: "\<not> ?D < check_time P ?w0 0" by simp
    have "0 < k"
    proof (rule ccontr)
      assume "\<not> 0 < k"
      then have k0: "k = 0" by simp
      with iff have "r \<noteq> None" by simp
      with bad k0 nl show False by simp
    qed
    with d have "dials w < dials w'" by simp
    moreover have "r = None \<and> dials w' = Suc (dials w)"
      if "dial_err (dial P (dials w)) = None"
    proof -
      from run nl that have "r = None" and "w' = after_ready P host ?w0"
        by (simp_all add: waitLoop_ready time_Now_simps)
      then show ?thesis by (simp add: after_ready_simps time_Now_simps)
    qed
    ultimately show ?thesis by blast
  qed
  have never: "r \<noteq> None" if "\<forall>i. dials w \<le> i \<longrightarrow> dial_err (dial P i) \<noteq> None"
  proof
    assume "r = None"
    with iff have "dial_err (dial P (dials w + (k - 1))) = None" by blast
    moreover from that have "dial_err (dial P (dials w + (k - 1))) \<noteq> None"
      by (rule allE [of _ "dials w + (k - 1)"]) simp
    ultimately show False by blast
  qed
  from f part1 late in_time never show ?thesis by blast
qed


lemma sample_wait:
  "fst (waitForPubSubEmulator sample_platform ''127.0.0.1:8085'' sample_logger (30 * Second)
          (init_world sample_platform empty_broker)) = None"
  "dials (snd (waitForPubSubEmulator sample_platform ''127.0.0.1:8085'' sample_logger
          (30 * Second) (init_world sample_platform empty_broker))) = 3"
  by (simp_all add: waitForPubSubEmulator_def waitLoop.simps sample_defs init_world_def
        time_Now_def say_def Second_def Let_def)

theorem waitForPubSubEmulator_polls_witness:
  "fst (waitForPubSubEmulator sample_platform ''127.0.0.1:8085'' sample_logger (30 * Second)
          (init_world sample_platform empty_broker)) = None \<and>
   trace (snd (waitForPubSubEmulator sample_platform ''127.0.0.1:8085'' sample_logger
          (30 * Second) (init_world sample_platform empty_broker))) =
     attempt_events ''127.0.0.1:8085'' (sample_dial 0) @
     attempt_events ''127.0.0.1:8085'' (sample_dial 1) @
     attempt_events ''127.0.0.1:8085'' (sample_dial 2) \<and>
   dial_err (sample_dial 2) = None \<and>
   fst (waitForPubSubEmulator (never_ready sample_platform) ''127.0.0.1:8085'' sample_logger
          (3 * Second) (init_world sample_platform empty_broker)) =
     Some (Errorf ''Pub/Sub emulator did not become available within %s''
             [ADuration (3 * Second)]) \<and>
   fst (waitForPubSubEmulator sample_platform ''127.0.0.1:8085'' sample_logger 0
          (init_world sample_platform empty_broker)) =
     Some (Errorf ''Pub/Sub emulator did not become available within %s'' [ADuration 0]) \<and>
   trace (snd (waitForPubSubEmulator sample_platform ''127.0.0.1:8085'' sample_logger 0
          (init_world sample_platform empty_broker))) = [] \<and>
   fst (waitForPubSubEmulator (settled_network sample_platform) ''127.0.0.1:8085''
          sample_logger (30 * Second) (init_world sample_platform empty_broker)) = None \<and>
   dials (snd (waitForPubSubEmulator (settled_network sample_platform) ''127.0.0.1:8085''
          sample_logger (30 * Second) (init_world sample_platform empty_broker))) = 1"
proof -
  let ?w0 = "init_world sample_platform empty_broker"
  let ?run = "waitForPubSubEmulator sample_platform ''127.0.0.1:8085'' sample_logger
                (30 * Second) ?w0"
  let ?out = "waitForPubSubEmulator (never_ready sample_platform) ''127.0.0.1:8085''
                sample_logger (3 * Second) ?w0"
  let ?zero = "waitForPubSubEmulator sample_platform ''127.0.0.1:8085'' sample_logger 0 ?w0"
  let ?one = "waitForPubSubEmulator (settled_network sample_platform) ''127.0.0.1:8085''
                sample_logger (30 * Second) ?w0"
  have zero: "dials ?w0 = 0" "trace ?w0 = []" "reads ?w0 = 0"
    by (simp_all add: init_world_def)
  have upt3: "[0..<3] = [0, 1, 2::nat]" by (simp add: upt_rec)
  have "?run = (fst ?run, snd ?run)" by simp
  note run = waitForPubSubEmulator_polls [OF this]
  have sd: "dial sample_platform = sample_dial" by (simp add: sample_platform_def)
  from run obtain k where k: "dials (snd ?run) = dials ?w0 + k" and
    tr: "trace (snd ?run) = trace ?w0 @ concat (map (\<lambda>i. attempt_events ''127.0.0.1:8085''
          (dial sample_platform i)) [dials ?w0..<dials ?w0 + k])"
    by blast
  from k have "k = 3" by (simp add: sample_wait zero)
  with tr have ok1: "trace (snd ?run) =
     attempt_events ''127.0.0.1:8085'' (sample_dial 0) @
     attempt_events ''127.0.0.1:8085'' (sample_dial 1) @
     attempt_events ''127.0.0.1:8085'' (sample_dial 2)"
    by (simp add: zero upt3 sd)
  have ok2: "dial_err (sample_dial 2) = None" by (simp add: sample_dial_def)
  have "?out = (fst ?out, snd ?out)" by simp
  note out = waitForPubSubEmulator_polls [OF this]
  have "\<forall>i. dials ?w0 \<le> i \<longrightarrow> dial_err (dial (never_ready sample_platform) i) \<noteq> None"
    by (simp add: never_ready_def)
  with out have "fst ?out \<noteq> None" by blast
  with out have ok3: "fst ?out =
      Some (Errorf ''Pub/Sub emulator did not become available within %s''
              [ADuration (3 * Second)])"
    by blast
  have "?zero = (fst ?zero, snd ?zero)" by simp
  note z = waitForPubSubEmulator_polls [OF this]
  have "0 < int (tick sample_platform (Suc (reads ?w0)))"
    by (simp add: sample_platform_def)
  with z have "fst ?zero =
      Some (Errorf ''Pub/Sub emulator did not become available within %s'' [ADuration 0]) \<and>
      trace (snd ?zero) = trace ?w0"
    by blast
  then have ok4: "fst ?zero =
      Some (Errorf ''Pub/Sub emulator did not become available within %s'' [ADuration 0])"
      "trace (snd ?zero) = []"
    by (simp_all add: zero)
  have "?one = (fst ?one, snd ?one)" by simp
  note one = waitForPubSubEmulator_polls [OF this]
  have "int (tick (settled_network sample_platform) (Suc (reads ?w0))) \<le> 30 * Second"
    and "dial_err (dial (settled_network sample_platform) (dials ?w0)) = None"
    by (simp_all add: settled_network_def Second_def)
  with one have "fst ?one = None \<and> dials (snd ?one) = Suc (dials ?w0)"
    by blast
  then have ok5: "fst ?one = None" "dials (snd ?one) = 1"
    by (simp_all add: zero)
  from sample_wait(1) ok1 ok2 ok3 ok4 ok5 show ?thesis by simp
qed

text \<open>
  A dial that is begun before the deadline and succeeds after it. The timeout is one
  second; the first reading of the clock is at 100 ns, so the deadline is at 1 s and
  100 ns; the only dial is begun at 200 ns and succeeds five seconds later. No dial
  has succeeded by the deadline, and the result is nil, four seconds after the
  deadline.
\<close>

theorem waitForPubSubEmulator_nil_after_deadline:
  "fst (waitForPubSubEmulator (slow_ready sample_platform) ''127.0.0.1:8085'' sample_logger
          (1 * Second) (init_world sample_platform empty_broker)) = None \<and>
   dials (snd (waitForPubSubEmulator (slow_ready sample_platform) ''127.0.0.1:8085''
          sample_logger (1 * Second) (init_world sample_platform empty_broker))) = 1 \<and>
   now (time_Now (slow_ready sample_platform) (init_world sample_platform empty_broker)) = 100 \<and>
   now (snd (waitForPubSubEmulator (slow_ready sample_platform) ''127.0.0.1:8085''
          sample_logger (1 * Second) (init_world sample_platform empty_broker))) =
     5 * Second + 200 \<and>
   now (time_Now (slow_ready sample_platform) (init_world sample_platform empty_broker)) +
     1 * Second <
   now (snd (waitForPubSubEmulator (slow_ready sample_platform) ''127.0.0.1:8085''
          sample_logger (1 * Second) (init_world sample_platform empty_broker)))"
  by (simp add: waitForPubSubEmulator_def waitLoop.simps sample_defs init_world_def
        time_Now_def say_def Second_def Let_def slow_ready_def)

subsection \<open>Topics are created only when absent\<close>

lemma plan_CreateTopic: "CreateTopic n \<in> set (plan b d t s c0) \<Longrightarrow> n \<notin> topics b"
  by (auto simp: plan_def split: if_splits)

lemma provisioned_topics:
  assumes q: "quiet (init_world P b) w1"
    and run: "provision P logger \<lparr>client_project = Getenv env (ENVVAR_GOOGLE_PROJECT_ID P)\<rparr>
         (Getenv env (ENVVAR_TOPIC_ID P)) (Getenv env (ENVVAR_SUBSCRIPTION_ID P))
         (Getenv env (ENVVAR_DLT_TOPIC_ID P)) w1 = (r, w')"
  shows "topics b \<subseteq> topics (broker w') \<and>
         (Rpc (CreateTopic n) e \<in> set (trace w') \<longrightarrow> n \<notin> topics b)"
proof -
  from provision_topics_mono [OF run] quiet_start(1) [OF q]
  have "topics b \<subseteq> topics (broker w')" by simp
  moreover have "n \<notin> topics b" if "Rpc (CreateTopic n) e \<in> set (trace w')"
  proof -
    from that have "CreateTopic n \<in> set (map fst (rpc_calls (trace w')))"
      by (force simp: rpc_calls_mem [symmetric])
    with provisioned_calls(1) [OF q run] set_mono_prefix
    have "CreateTopic n \<in> set (plan b (dltName P env) (topicName P env) (subName P env)
            (subConfig (topicName P env) (dltName P env)))"
      by blast
    then show ?thesis by (rule plan_CreateTopic)
  qed
  ultimately show ?thesis by blast
qed

lemma main_topics_kept:
  assumes "main P b = (r, w')"
  shows "topics b \<subseteq> topics (broker w') \<and>
         (Rpc (CreateTopic n) e \<in> set (trace w') \<longrightarrow> n \<notin> topics b)"
  using assms
proof (cases rule: main_cases)
  case (halted h)
  with quiet_start [OF halted(2)] show ?thesis
    by (simp add: rpc_calls_mem [symmetric])
next
  case (provisioned env logger w1)
  from provisioned_topics [OF provisioned(7,9)] show ?thesis .
qed

lemma main_part_000_topics_kept:
  assumes "main_part_000 P b = (r, w')"
  shows "topics b \<subseteq> topics (broker w') \<and>
         (Rpc (CreateTopic n) e \<in> set (trace w') \<longrightarrow> n \<notin> topics b)"
  using assms
proof (cases rule: main_part_000_cases)
  case (halted h)
  with quiet_start [OF halted(2)] show ?thesis
    by (simp add: rpc_calls_mem [symmetric])
next
  case (provisioned env logger w1)
  from provisioned_topics [OF provisioned(7,8)] show ?thesis .
qed

lemma create_dlt_topic_run:
  assumes "create_dlt_topic P logger c dltID w = (r, w')"
  shows "topics (broker w) \<subseteq> topics (broker w') \<and>
      subscriptions (broker w') = subscriptions (broker w) \<and>
      (rpc_fault P (rpcs w) = None \<and> Client_Topic c dltID \<in> topics (broker w) \<longrightarrow>
         r = Inr (Client_Topic c dltID) \<and> broker w' = broker w \<and>
         trace w' = trace w @
           [Slog LevelInfo ''Creating DLT topic...'' [] [slog_String ''dltID'' dltID],
            Rpc (TopicExists (Client_Topic c dltID)) None,
            Slog LevelWarn ''DLT topic '%s' already exists.'' [AAttr ''dltID'' dltID] []]) \<and>
      (rpc_fault P (rpcs w) = None \<and> Client_Topic c dltID \<notin> topics (broker w) \<and>
       rpc_fault P (Suc (rpcs w)) = None \<longrightarrow>
         r = Inr (Client_Topic c dltID) \<and>
         topics (broker w') = insert (Client_Topic c dltID) (topics (broker w)) \<and>
         trace w' = trace w @
           [Slog LevelInfo ''Creating DLT topic...'' [] [slog_String ''dltID'' dltID],
            Rpc (TopicExists (Client_Topic c dltID)) None,
            Rpc (CreateTopic (Client_Topic c dltID)) None,
            Slog LevelInfo ''DLT topic '%s' created successfully.''
              [AAttr ''dltID'' dltID] []]) \<and>
      (\<forall>e. rpc_fault P (rpcs w) = None \<and> Client_Topic c dltID \<notin> topics (broker w) \<and>
       rpc_fault P (Suc (rpcs w)) = Some e \<longrightarrow>
         r = Inl (OsExit 1) \<and> broker w' = broker w \<and>
         trace w' = trace w @
           [Slog LevelInfo ''Creating DLT topic...'' [] [slog_String ''dltID'' dltID],
            Rpc (TopicExists (Client_Topic c dltID)) None,
            Rpc (CreateTopic (Client_Topic c dltID)) (Some e),
            StdLogFatal ''Failed to create DLT topic '%s': %v''
              [AString dltID, AError e]]) \<and>
      (\<forall>e. rpc_fault P (rpcs w) = Some e \<longrightarrow>
         r = Inl (OsExit 1) \<and> broker w' = broker w \<and>
         trace w' = trace w @
           [Slog LevelInfo ''Creating DLT topic...'' [] [slog_String ''dltID'' dltID],
            Rpc (TopicExists (Client_Topic c dltID)) (Some e),
            StdLogFatal ''Failed to check DLT topic existence: %v'' [AError e]])"
  using assms
  by (auto simp: create_dlt_topic_def lib_defs split: option.splits if_splits)

lemma create_main_topic_run:
  assumes "create_main_topic P logger c topicID w = (r, w')"
  shows "topics (broker w) \<subseteq> topics (broker w') \<and>
      subscriptions (broker w') = subscriptions (broker w) \<and>
      (rpc_fault P (rpcs w) = None \<and> Client_Topic c topicID \<in> topics (broker w) \<longrightarrow>
         r = Inr (Client_Topic c topicID) \<and> broker w' = broker w \<and>
         trace w' = trace w @
           [Slog LevelInfo ''Creating main topic '%s'...'' [AAttr ''topicID'' topicID] [],
            Rpc (TopicExists (Client_Topic c topicID)) None,
            Slog LevelWarn ''Main topic '%s' already exists.''
              [AAttr ''topicID'' topicID] []]) \<and>
      (rpc_fault P (rpcs w) = None \<and> Client_Topic c topicID \<notin> topics (broker w) \<and>
       rpc_fault P (Suc (rpcs w)) = None \<longrightarrow>
         r = Inr (Client_Topic c topicID) \<and>
         topics (broker w') = insert (Client_Topic c topicID) (topics (broker w)) \<and>
         trace w' = trace w @
           [Slog LevelInfo ''Creating main topic '%s'...'' [AAttr ''topicID'' topicID] [],
            Rpc (TopicExists (Client_Topic c topicID)) None,
            Rpc (CreateTopic (Client_Topic c topicID)) None,
            Slog LevelInfo ''Main topic '%s' created successfully.''
              [AAttr ''topicID'' topicID] []]) \<and>
      (\<forall>e. rpc_fault P (rpcs w) = None \<and> Client_Topic c topicID \<notin> topics (broker w) \<and>
       rpc_fault P (Suc (rpcs w)) = Some e \<longrightarrow>
         r = Inl (OsExit 1) \<and> broker w' = broker w \<and>
         trace w' = trace w @
           [Slog LevelInfo ''Creating main topic '%s'...'' [AAttr ''topicID'' topicID] [],
            Rpc (TopicExists (Client_Topic c topicID)) None,
            Rpc (CreateTopic (Client_Topic c topicID)) (Some e),
            StdLogFatal ''Failed to create main topic '%s': %v''
              [AString topicID, AError e]]) \<and>
      (\<forall>e. rpc_fault P (rpcs w) = Some e \<longrightarrow>
         r = Inl (OsExit 1) \<and> broker w' = broker w \<and>
         trace w' = trace w @
           [Slog LevelInfo ''Creating main topic '%s'...'' [AAttr ''topicID'' topicID] [],
            Rpc (TopicExists (Client_Topic c topicID)) (Some e),
            StdLogFatal ''Failed to check main topic existence: %v'' [AError e]])"
  using assms
  by (auto simp: create_main_topic_def lib_defs split: option.splits if_splits)

lemma create_pull_subscription_no_fault:
  assumes nf: "\<forall>n. rpc_fault P n = None"
    and t: "topic \<in> topics (broker w)"
    and run: "create_pull_subscription P logger c subID topicID topic dltTopic w = (r, w')"
  shows "r = Inr ()"
  using run t
  by (auto simp: create_pull_subscription_def delete_if_present_def lib_defs nf subConfig_def
        split: if_splits)

lemma provision_no_fault:
  assumes nf: "\<forall>n. rpc_fault P n = None"
    and run: "provision P logger c topicID subID dltID w = (r, w')"
  shows "r = Inr () \<and>
    (Client_Topic c dltID \<in> topics (broker w) \<longrightarrow>
       Slog LevelWarn ''DLT topic '%s' already exists.'' [AAttr ''dltID'' dltID] []
         \<in> set (trace w')) \<and>
    (Client_Topic c dltID \<notin> topics (broker w) \<longrightarrow>
       Rpc (CreateTopic (Client_Topic c dltID)) None \<in> set (trace w')) \<and>
    (Client_Topic c topicID \<in> insert (Client_Topic c dltID) (topics (broker w)) \<longrightarrow>
       Slog LevelWarn ''Main topic '%s' already exists.'' [AAttr ''topicID'' topicID] []
         \<in> set (trace w')) \<and>
    (Client_Topic c topicID \<notin> insert (Client_Topic c dltID) (topics (broker w)) \<longrightarrow>
       Rpc (CreateTopic (Client_Topic c topicID)) None \<in> set (trace w'))"
proof -
  let ?d = "Client_Topic c dltID" and ?t = "Client_Topic c topicID"
  let ?warn_d = "Slog LevelWarn ''DLT topic '%s' already exists.'' [AAttr ''dltID'' dltID] []"
  let ?warn_t = "Slog LevelWarn ''Main topic '%s' already exists.''
                   [AAttr ''topicID'' topicID] []"
  obtain r1 w1 where s1: "create_dlt_topic P logger c dltID w = (r1, w1)"
    by (cases "create_dlt_topic P logger c dltID w")
  from create_dlt_topic_run [OF s1] nf
  have r1: "r1 = Inr ?d"
    and b1: "topics (broker w1) = insert ?d (topics (broker w))"
    and e1: "?d \<in> topics (broker w) \<longrightarrow> ?warn_d \<in> set (trace w1)"
            "?d \<notin> topics (broker w) \<longrightarrow> Rpc (CreateTopic ?d) None \<in> set (trace w1)"
    by (cases "?d \<in> topics (broker w)"; auto)+
  obtain r2 w2 where s2: "create_main_topic P logger c topicID w1 = (r2, w2)"
    by (cases "create_main_topic P logger c topicID w1")
  from create_main_topic_run [OF s2] nf
  have r2: "r2 = Inr ?t"
    and b2: "?t \<in> topics (broker w2)"
    and e2: "?t \<in> topics (broker w1) \<longrightarrow> ?warn_t \<in> set (trace w2)"
            "?t \<notin> topics (broker w1) \<longrightarrow> Rpc (CreateTopic ?t) None \<in> set (trace w2)"
    by (cases "?t \<in> topics (broker w1)"; auto)+
  from create_main_topic_step [OF s2] have m2: "set (trace w1) \<subseteq> set (trace w2)"
    by auto
  obtain r3 w3 where s3: "create_pull_subscription P logger c subID topicID ?t ?d w2 = (r3, w3)"
    by (cases "create_pull_subscription P logger c subID topicID ?t ?d w2")
  from create_pull_subscription_no_fault [OF nf b2 s3] have r3: "r3 = Inr ()" .
  from create_pull_subscription_step [OF s3] have m3: "set (trace w2) \<subseteq> set (trace w3)"
    by auto
  from run s1 s2 s3 r1 r2 r3 have r: "r = Inr ()" and m4: "set (trace w3) \<subseteq> set (trace w')"
    by (auto simp: provision_def then_do_def say_def)
  from e1 e2 b1 m2 m3 m4 r show ?thesis by auto
qed

lemma logger_setup_clock:
  "logger_setup P env w = (r, w') \<Longrightarrow> dials w' = dials w \<and> reads w' = reads w"
  by (auto simp: logger_setup_def check_logger_err_def then_do_def say_def
        split: prod.splits option.splits if_splits)

lemma wait_ready_at_once:
  assumes "int (tick P (Suc (reads w))) \<le> 30 * Second"
    and "dial_err (dial P (dials w)) = None"
  shows "wait_ready P logger addr w = (Inr (), after_ready P addr (time_Now P w))"
proof -
  from assms have "\<not> now (time_Now P w) + 30 * Second < check_time P (time_Now P w) 0"
    and "dial_err (dial P (dials (time_Now P w))) = None"
    by (simp_all add: time_Now_simps)
  then have "waitLoop P addr (30 * Second) (now (time_Now P w) + 30 * Second) (time_Now P w) =
      (None, after_ready P addr (time_Now P w))"
    by (rule waitLoop_ready)
  then show ?thesis by (simp add: wait_ready_def waitForPubSubEmulator_def Let_def)
qed

lemma main_start:
  assumes env: "fst (dotenv_init P (init_world P b)) = Inr env"
    and vals: "Getenv env (ENVVAR_EMULATOR_HOST P) \<noteq> []"
      "Getenv env (ENVVAR_GOOGLE_PROJECT_ID P) \<noteq> []"
      "Getenv env (ENVVAR_TOPIC_ID P) \<noteq> []"
      "Getenv env (ENVVAR_SUBSCRIPTION_ID P) \<noteq> []"
      "Getenv env (ENVVAR_DLT_TOPIC_ID P) \<noteq> []"
    and res: "ResolveTCPAddr P (Getenv env (ENVVAR_EMULATOR_HOST P)) = Inr addr"
    and tk: "int (tick P 1) \<le> 30 * Second"
    and dl: "dial_err (dial P 0) = None"
    and nc: "NewClient_err P = None"
  shows "\<exists>logger w1. quiet (init_world P b) w1 \<and>
           main P b =
           provision P logger \<lparr>client_project = Getenv env (ENVVAR_GOOGLE_PROJECT_ID P)\<rparr>
             (Getenv env (ENVVAR_TOPIC_ID P)) (Getenv env (ENVVAR_SUBSCRIPTION_ID P))
             (Getenv env (ENVVAR_DLT_TOPIC_ID P)) w1"
proof -
  let ?w0 = "init_world P b"
  let ?h = "Getenv env (ENVVAR_EMULATOR_HOST P)"
  let ?p = "Getenv env (ENVVAR_GOOGLE_PROJECT_ID P)"
  let ?t = "Getenv env (ENVVAR_TOPIC_ID P)"
  let ?s = "Getenv env (ENVVAR_SUBSCRIPTION_ID P)"
  let ?d = "Getenv env (ENVVAR_DLT_TOPIC_ID P)"
  from env have s0: "dotenv_init P ?w0 = (Inr env, ?w0)"
    using dotenv_init_world [of P ?w0 env "snd (dotenv_init P ?w0)"]
    by (simp add: prod_eq_iff)
  from logger_setup_continues [of P env ?w0] obtain logger w1 where
    s1: "logger_setup P env ?w0 = (Inr logger, w1)" by blast
  note q1 = logger_setup_quiet [OF s1]
  from logger_setup_clock [OF s1] have c1: "dials w1 = 0" "reads w1 = 0"
    by (simp_all add: init_world_def)
  from vals have s2: "validate_env ?h ?p ?t ?s ?d w1 = (Inr (), w1)"
    by (simp add: validate_env_def)
  from res have s3: "resolve_addr P logger ?h w1 = (Inr addr, w1)"
    by (simp add: resolve_addr_def)
  let ?w4 = "after_ready P addr (time_Now P w1)"
  from tk dl c1 have s4: "wait_ready P logger addr w1 = (Inr (), ?w4)"
    by (intro wait_ready_at_once) simp_all
  note q4 = wait_ready_quiet [OF s4]
  obtain r5 w5 where s5: "new_client P logger ?h ?p ?w4 = (r5, w5)"
    by (cases "new_client P logger ?h ?p ?w4")
  note q5 = new_client_quiet [OF s5]
  from s5 nc have r5: "r5 = Inr \<lparr>client_project = ?p\<rparr>"
    by (auto simp: new_client_def)
  from q1 q4 q5 have "quiet ?w0 w5" by (blast intro: quiet_trans)
  moreover from s0 s1 s2 s3 s4 s5 r5
  have "main P b = provision P logger \<lparr>client_project = ?p\<rparr> ?t ?s ?d w5"
    by (simp add: main_def then_do_def Let_def)
  ultimately show ?thesis by blast
qed

lemma main_part_000_start:
  assumes env: "fst (dotenv_init_part_000 P (init_world P b)) = Inr env"
    and vals: "Getenv env (ENVVAR_EMULATOR_HOST P) \<noteq> []"
      "Getenv env (ENVVAR_GOOGLE_PROJECT_ID P) \<noteq> []"
      "Getenv env (ENVVAR_TOPIC_ID P) \<noteq> []"
      "Getenv env (ENVVAR_SUBSCRIPTION_ID P) \<noteq> []"
      "Getenv env (ENVVAR_DLT_TOPIC_ID P) \<noteq> []"
    and nc: "NewClient_err P = None"
  shows "\<exists>logger w1. quiet (init_world P b) w1 \<and>
           main_part_000 P b =
           provision P logger \<lparr>client_project = Getenv env (ENVVAR_GOOGLE_PROJECT_ID P)\<rparr>
             (Getenv env (ENVVAR_TOPIC_ID P)) (Getenv env (ENVVAR_SUBSCRIPTION_ID P))
             (Getenv env (ENVVAR_DLT_TOPIC_ID P)) w1"
proof -
  let ?w0 = "init_world P b"
  let ?h = "Getenv env (ENVVAR_EMULATOR_HOST P)"
  let ?p = "Getenv env (ENVVAR_GOOGLE_PROJECT_ID P)"
  let ?t = "Getenv env (ENVVAR_TOPIC_ID P)"
  let ?s = "Getenv env (ENVVAR_SUBSCRIPTION_ID P)"
  let ?d = "Getenv env (ENVVAR_DLT_TOPIC_ID P)"
  from env have s0: "dotenv_init_part_000 P ?w0 = (Inr env, ?w0)"
    by (auto simp: dotenv_init_part_000_def log_Fatal_def Let_def split: sum.splits)
  from logger_setup_continues [of P env ?w0] obtain logger w1 where
    s1: "logger_setup P env ?w0 = (Inr logger, w1)" by blast
  note q1 = logger_setup_quiet [OF s1]
  from vals have s2: "validate_env ?h ?p ?t ?s ?d w1 = (Inr (), w1)"
    by (simp add: validate_env_def)
  obtain r5 w5 where s5: "new_client P logger ?h ?p w1 = (r5, w5)"
    by (cases "new_client P logger ?h ?p w1")
  note q5 = new_client_quiet [OF s5]
  from s5 nc have r5: "r5 = Inr \<lparr>client_project = ?p\<rparr>"
    by (auto simp: new_client_def)
  from q1 q5 have "quiet ?w0 w5" by (blast intro: quiet_trans)
  moreover from s0 s1 s2 s5 r5
  have "main_part_000 P b = provision P logger \<lparr>client_project = ?p\<rparr> ?t ?s ?d w5"
    by (simp add: main_part_000_def then_do_def Let_def)
  ultimately show ?thesis by blast
qed

lemma provisioned_no_fault:
  assumes q: "quiet (init_world P b) w1"
    and nf: "\<forall>n. rpc_fault P n = None"
    and run: "provision P logger \<lparr>client_project = Getenv env (ENVVAR_GOOGLE_PROJECT_ID P)\<rparr>
         (Getenv env (ENVVAR_TOPIC_ID P)) (Getenv env (ENVVAR_SUBSCRIPTION_ID P))
         (Getenv env (ENVVAR_DLT_TOPIC_ID P)) w1 = (r, w')"
  shows "r = Inr () \<and>
    topics (broker w') = insert (topicName P env) (insert (dltName P env) (topics b)) \<and>
    (dltName P env \<in> topics b \<longrightarrow>
       Slog LevelWarn ''DLT topic '%s' already exists.''
         [AAttr ''dltID'' (Getenv env (ENVVAR_DLT_TOPIC_ID P))] [] \<in> set (trace w')) \<and>
    (dltName P env \<notin> topics b \<longrightarrow>
       Rpc (CreateTopic (dltName P env)) None \<in> set (trace w')) \<and>
    (topicName P env \<in> insert (dltName P env) (topics b) \<longrightarrow>
       Slog LevelWarn ''Main topic '%s' already exists.''
         [AAttr ''topicID'' (Getenv env (ENVVAR_TOPIC_ID P))] [] \<in> set (trace w')) \<and>
    (topicName P env \<notin> insert (dltName P env) (topics b) \<longrightarrow>
       Rpc (CreateTopic (topicName P env)) None \<in> set (trace w'))"
proof -
  from q have b: "broker w1 = b" by (rule quiet_start)
  note nfp = provision_no_fault [OF nf run, unfolded b, folded dltName_def topicName_def]
  then have "r = Inr ()" by blast
  with provision_done [OF run [unfolded this]] b
  have "topics (broker w') = insert (topicName P env) (insert (dltName P env) (topics b))"
    by (simp add: topicName_def dltName_def)
  with nfp show ?thesis by blast
qed


lemma main_topics_live:
  assumes run: "main P b = (r', w'')"
  shows "topics b \<subseteq> topics (broker w'') \<and>
      (Rpc (CreateTopic n) e \<in> set (trace w'') \<longrightarrow> n \<notin> topics b) \<and>
      (fst (dotenv_init P (init_world P b)) = Inr env \<and>
       Getenv env (ENVVAR_EMULATOR_HOST P) \<noteq> [] \<and>
       Getenv env (ENVVAR_GOOGLE_PROJECT_ID P) \<noteq> [] \<and>
       Getenv env (ENVVAR_TOPIC_ID P) \<noteq> [] \<and>
       Getenv env (ENVVAR_SUBSCRIPTION_ID P) \<noteq> [] \<and>
       Getenv env (ENVVAR_DLT_TOPIC_ID P) \<noteq> [] \<and>
       ResolveTCPAddr P (Getenv env (ENVVAR_EMULATOR_HOST P)) = Inr addr \<and>
       int (tick P 1) \<le> 30 * Second \<and> dial_err (dial P 0) = None \<and>
       NewClient_err P = None \<and> (\<forall>i. rpc_fault P i = None) \<longrightarrow>
         r' = Inr () \<and>
         topics (broker w'') = insert (topicName P env) (insert (dltName P env) (topics b)) \<and>
         (dltName P env \<in> topics b \<longrightarrow>
            Slog LevelWarn ''DLT topic '%s' already exists.''
              [AAttr ''dltID'' (Getenv env (ENVVAR_DLT_TOPIC_ID P))] [] \<in> set (trace w'')) \<and>
         (dltName P env \<notin> topics b \<longrightarrow>
            Rpc (CreateTopic (dltName P env)) None \<in> set (trace w'')) \<and>
         (topicName P env \<in> insert (dltName P env) (topics b) \<longrightarrow>
            Slog LevelWarn ''Main topic '%s' already exists.''
              [AAttr ''topicID'' (Getenv env (ENVVAR_TOPIC_ID P))] [] \<in> set (trace w'')) \<and>
         (topicName P env \<notin> insert (dltName P env) (topics b) \<longrightarrow>
            Rpc (CreateTopic (topicName P env)) None \<in> set (trace w'')))"
    (is "_ \<and> _ \<and> (?H \<longrightarrow> ?C)")
proof (intro conjI)
  from main_topics_kept [OF run]
  show "topics b \<subseteq> topics (broker w'')"
    and "Rpc (CreateTopic n) e \<in> set (trace w'') \<longrightarrow> n \<notin> topics b"
    by blast+
  show "?H \<longrightarrow> ?C"
  proof
    assume h: ?H
    then have nf: "\<forall>i. rpc_fault P i = None" by blast
    from h main_start [of P b env addr] obtain logger w1 where
      q: "quiet (init_world P b) w1" and
      m: "main P b =
            provision P logger \<lparr>client_project = Getenv env (ENVVAR_GOOGLE_PROJECT_ID P)\<rparr>
              (Getenv env (ENVVAR_TOPIC_ID P)) (Getenv env (ENVVAR_SUBSCRIPTION_ID P))
              (Getenv env (ENVVAR_DLT_TOPIC_ID P)) w1"
      by blast
    from m run have "provision P logger
        \<lparr>client_project = Getenv env (ENVVAR_GOOGLE_PROJECT_ID P)\<rparr>
        (Getenv env (ENVVAR_TOPIC_ID P)) (Getenv env (ENVVAR_SUBSCRIPTION_ID P))
        (Getenv env (ENVVAR_DLT_TOPIC_ID P)) w1 = (r', w'')"
      by simp
    from provisioned_no_fault [OF q nf this] show ?C .
  qed
qed

lemma main_part_000_topics_live:
  assumes run: "main_part_000 P b = (r', w'')"
  shows "topics b \<subseteq> topics (broker w'') \<and>
      (Rpc (CreateTopic n) e \<in> set (trace w'') \<longrightarrow> n \<notin> topics b) \<and>
      (fst (dotenv_init_part_000 P (init_world P b)) = Inr env \<and>
       Getenv env (ENVVAR_EMULATOR_HOST P) \<noteq> [] \<and>
       Getenv env (ENVVAR_GOOGLE_PROJECT_ID P) \<noteq> [] \<and>
       Getenv env (ENVVAR_TOPIC_ID P) \<noteq> [] \<and>
       Getenv env (ENVVAR_SUBSCRIPTION_ID P) \<noteq> [] \<and>
       Getenv env (ENVVAR_DLT_TOPIC_ID P) \<noteq> [] \<and>
       NewClient_err P = None \<and> (\<forall>i. rpc_fault P i = None) \<longrightarrow>
         r' = Inr () \<and>
         topics (broker w'') = insert (topicName P env) (insert (dltName P env) (topics b)) \<and>
         (dltName P env \<in> topics b \<longrightarrow>
            Slog LevelWarn ''DLT topic '%s' already exists.''
              [AAttr ''dltID'' (Getenv env (ENVVAR_DLT_TOPIC_ID P))] [] \<in> set (trace w'')) \<and>
         (dltName P env \<notin> topics b \<longrightarrow>
            Rpc (CreateTopic (dltName P env)) None \<in> set (trace w'')) \<and>
         (topicName P env \<in> insert (dltName P env) (topics b) \<longrightarrow>
            Slog LevelWarn ''Main topic '%s' already exists.''
              [AAttr ''topicID'' (Getenv env (ENVVAR_TOPIC_ID P))] [] \<in> set (trace w'')) \<and>
         (topicName P env \<notin> insert (dltName P env) (topics b) \<longrightarrow>
            Rpc (CreateTopic (topicName P env)) None \<in> set (trace w'')))"
    (is "_ \<and> _ \<and> (?H \<longrightarrow> ?C)")
proof (intro conjI)
  from main_part_000_topics_kept [OF run]
  show "topics b \<subseteq> topics (broker w'')"
    and "Rpc (CreateTopic n) e \<in> set (trace w'') \<longrightarrow> n \<notin> topics b"
    by blast+
  show "?H \<longrightarrow> ?C"
  proof
    assume h: ?H
    then have nf: "\<forall>i. rpc_fault P i = None" by blast
    from h main_part_000_start [of P b env] obtain logger w1 where
      q: "quiet (init_world P b) w1" and
      m: "main_part_000 P b =
            provision P logger \<lparr>client_project = Getenv env (ENVVAR_GOOGLE_PROJECT_ID P)\<rparr>
              (Getenv env (ENVVAR_TOPIC_ID P)) (Getenv env (ENVVAR_SUBSCRIPTION_ID P))
              (Getenv env (ENVVAR_DLT_TOPIC_ID P)) w1"
      by blast
    from m run have "provision P logger
        \<lparr>client_project = Getenv env (ENVVAR_GOOGLE_PROJECT_ID P)\<rparr>
        (Getenv env (ENVVAR_TOPIC_ID P)) (Getenv env (ENVVAR_SUBSCRIPTION_ID P))
        (Getenv env (ENVVAR_DLT_TOPIC_ID P)) w1 = (r', w'')"
      by simp
    from provisioned_no_fault [OF q nf this] show ?C .
  qed
qed

text \<open>
  C3. Of each of the two topic sections (dead-letter topic first, main topic second),
  run from any state, with \<open>d\<close> the full name of its topic. No topic leaves the broker
  and the subscriptions stay. The section logs its opening line and issues
  \<^verbatim>\<open>Exists\<close> for \<open>d\<close>. When the check is answered and \<open>d\<close> is in the broker, the
  section logs the warning and hands on the handle: nothing else happens, so no
  \<^verbatim>\<open>CreateTopic\<close> is issued and the broker stays as it is. When the check is answered
  and \<open>d\<close> is not in the broker, \<^verbatim>\<open>CreateTopic\<close> is issued for \<open>d\<close>: if the
  transport delivers it, \<open>d\<close> is added to the broker and the section logs the creation
  and hands on the handle; if the transport fails it, the run ends with the fatal line
  and exit status 1, the broker as it was. When the transport fails the check, the run
  ends likewise. Of a whole run of \<open>main\<close> (either copy): every topic of the initial
  broker is still there, and \<^verbatim>\<open>CreateTopic\<close> is issued only for names the initial
  broker did not hold. And when the start of \<open>main\<close> succeeds (the environment is
  loaded and holds the five values, the address resolves, the first dial is made in
  time and succeeds, the client is created) and the transport fails no call, the run
  reaches its end, the broker holds both topics besides those it held, the warning is
  logged for a topic that was there (for the main topic also when it is the dead-letter
  topic), and \<^verbatim>\<open>CreateTopic\<close> is delivered for a topic that was not.
\<close>

theorem topics_created_only_if_absent:
  "(create_dlt_topic P logger c dltID w = (r, w') \<longrightarrow>
      topics (broker w) \<subseteq> topics (broker w') \<and>
      subscriptions (broker w') = subscriptions (broker w) \<and>
      (rpc_fault P (rpcs w) = None \<and> Client_Topic c dltID \<in> topics (broker w) \<longrightarrow>
         r = Inr (Client_Topic c dltID) \<and> broker w' = broker w \<and>
         trace w' = trace w @
           [Slog LevelInfo ''Creating DLT topic...'' [] [slog_String ''dltID'' dltID],
            Rpc (TopicExists (Client_Topic c dltID)) None,
            Slog LevelWarn ''DLT topic '%s' already exists.'' [AAttr ''dltID'' dltID] []]) \<and>
      (rpc_fault P (rpcs w) = None \<and> Client_Topic c dltID \<notin> topics (broker w) \<and>
       rpc_fault P (Suc (rpcs w)) = None \<longrightarrow>
         r = Inr (Client_Topic c dltID) \<and>
         topics (broker w') = insert (Client_Topic c dltID) (topics (broker w)) \<and>
         trace w' = trace w @
           [Slog LevelInfo ''Creating DLT topic...'' [] [slog_String ''dltID'' dltID],
            Rpc (TopicExists (Client_Topic c dltID)) None,
            Rpc (CreateTopic (Client_Topic c dltID)) None,
            Slog LevelInfo ''DLT topic '%s' created successfully.''
              [AAttr ''dltID'' dltID] []]) \<and>
      (\<forall>e. rpc_fault P (rpcs w) = None \<and> Client_Topic c dltID \<notin> topics (broker w) \<and>
       rpc_fault P (Suc (rpcs w)) = Some e \<longrightarrow>
         r = Inl (OsExit 1) \<and> broker w' = broker w \<and>
         trace w' = trace w @
           [Slog LevelInfo ''Creating DLT topic...'' [] [slog_String ''dltID'' dltID],
            Rpc (TopicExists (Client_Topic c dltID)) None,
            Rpc (CreateTopic (Client_Topic c dltID)) (Some e),
            StdLogFatal ''Failed to create DLT topic '%s': %v''
              [AString dltID, AError e]]) \<and>
      (\<forall>e. rpc_fault P (rpcs w) = Some e \<longrightarrow>
         r = Inl (OsExit 1) \<and> broker w' = broker w \<and>
         trace w' = trace w @
           [Slog LevelInfo ''Creating DLT topic...'' [] [slog_String ''dltID'' dltID],
            Rpc (TopicExists (Client_Topic c dltID)) (Some e),
            StdLogFatal ''Failed to check DLT topic existence: %v'' [AError e]])) \<and>
   (create_main_topic P logger c topicID w = (r, w') \<longrightarrow>
      topics (broker w) \<subseteq> topics (broker w') \<and>
      subscriptions (broker w') = subscriptions (broker w) \<and>
      (rpc_fault P (rpcs w) = None \<and> Client_Topic c topicID \<in> topics (broker w) \<longrightarrow>
         r = Inr (Client_Topic c topicID) \<and> broker w' = broker w \<and>
         trace w' = trace w @
           [Slog LevelInfo ''Creating main topic '%s'...'' [AAttr ''topicID'' topicID] [],
            Rpc (TopicExists (Client_Topic c topicID)) None,
            Slog LevelWarn ''Main topic '%s' already exists.''
              [AAttr ''topicID'' topicID] []]) \<and>
      (rpc_fault P (rpcs w) = None \<and> Client_Topic c topicID \<notin> topics (broker w) \<and>
       rpc_fault P (Suc (rpcs w)) = None \<longrightarrow>
         r = Inr (Client_Topic c topicID) \<and>
         topics (broker w') = insert (Client_Topic c topicID) (topics (broker w)) \<and>
         trace w' = trace w @
           [Slog LevelInfo ''Creating main topic '%s'...'' [AAttr ''topicID'' topicID] [],
            Rpc (TopicExists (Client_Topic c topicID)) None,
            Rpc (CreateTopic (Client_Topic c topicID)) None,
            Slog LevelInfo ''Main topic '%s' created successfully.''
              [AAttr ''topicID'' topicID] []]) \<and>
      (\<forall>e. rpc_fault P (rpcs w) = None \<and> Client_Topic c topicID \<notin> topics (broker w) \<and>
       rpc_fault P (Suc (rpcs w)) = Some e \<longrightarrow>
         r = Inl (OsExit 1) \<and> broker w' = broker w \<and>
         trace w' = trace w @
           [Slog LevelInfo ''Creating main topic '%s'...'' [AAttr ''topicID'' topicID] [],
            Rpc (TopicExists (Client_Topic c topicID)) None,
            Rpc (CreateTopic (Client_Topic c topicID)) (Some e),
            StdLogFatal ''Failed to create main topic '%s': %v''
              [AString topicID, AError e]]) \<and>
      (\<forall>e. rpc_fault P (rpcs w) = Some e \<longrightarrow>
         r = Inl (OsExit 1) \<and> broker w' = broker w \<and>
         trace w' = trace w @
           [Slog LevelInfo ''Creating main topic '%s'...'' [AAttr ''topicID'' topicID] [],
            Rpc (TopicExists (Client_Topic c topicID)) (Some e),
            StdLogFatal ''Failed to check main topic existence: %v'' [AError e]])) \<and>
   (main P b = (r', w'') \<longrightarrow>
      topics b \<subseteq> topics (broker w'') \<and>
      (Rpc (CreateTopic n) e \<in> set (trace w'') \<longrightarrow> n \<notin> topics b) \<and>
      (fst (dotenv_init P (init_world P b)) = Inr env \<and>
       Getenv env (ENVVAR_EMULATOR_HOST P) \<noteq> [] \<and>
       Getenv env (ENVVAR_GOOGLE_PROJECT_ID P) \<noteq> [] \<and>
       Getenv env (ENVVAR_TOPIC_ID P) \<noteq> [] \<and>
       Getenv env (ENVVAR_SUBSCRIPTION_ID P) \<noteq> [] \<and>
       Getenv env (ENVVAR_DLT_TOPIC_ID P) \<noteq> [] \<and>
       ResolveTCPAddr P (Getenv env (ENVVAR_EMULATOR_HOST P)) = Inr addr \<and>
       int (tick P 1) \<le> 30 * Second \<and> dial_err (dial P 0) = None \<and>
       NewClient_err P = None \<and> (\<forall>i. rpc_fault P i = None) \<longrightarrow>
         r' = Inr () \<and>
         topics (broker w'') = insert (topicName P env) (insert (dltName P env) (topics b)) \<and>
         (dltName P env \<in> topics b \<longrightarrow>
            Slog LevelWarn ''DLT topic '%s' already exists.''
              [AAttr ''dltID'' (Getenv env (ENVVAR_DLT_TOPIC_ID P))] [] \<in> set (trace w'')) \<and>
         (dltName P env \<notin> topics b \<longrightarrow>
            Rpc (CreateTopic (dltName P env)) None \<in> set (trace w'')) \<and>
         (topicName P env \<in> insert (dltName P env) (topics b) \<longrightarrow>
            Slog LevelWarn ''Main topic '%s' already exists.''
              [AAttr ''topicID'' (Getenv env (ENVVAR_TOPIC_ID P))] [] \<in> set (trace w'')) \<and>
         (topicName P env \<notin> insert (dltName P env) (topics b) \<longrightarrow>
            Rpc (CreateTopic (topicName P env)) None \<in> set (trace w'')))) \<and>
   (main_part_000 P b = (r', w'') \<longrightarrow>
      topics b \<subseteq> topics (broker w'') \<and>
      (Rpc (CreateTopic n) e \<in> set (trace w'') \<longrightarrow> n \<notin> topics b) \<and>
      (fst (dotenv_init_part_000 P (init_world P b)) = Inr env \<and>
       Getenv env (ENVVAR_EMULATOR_HOST P) \<noteq> [] \<and>
       Getenv env (ENVVAR_GOOGLE_PROJECT_ID P) \<noteq> [] \<and>
       Getenv env (ENVVAR_TOPIC_ID P) \<noteq> [] \<and>
       Getenv env (ENVVAR_SUBSCRIPTION_ID P) \<noteq> [] \<and>
       Getenv env (ENVVAR_DLT_TOPIC_ID P) \<noteq> [] \<and>
       NewClient_err P = None \<and> (\<forall>i. rpc_fault P i = None) \<longrightarrow>
         r' = Inr () \<and>
         topics (broker w'') = insert (topicName P env) (insert (dltName P env) (topics b)) \<and>
         (dltName P env \<in> topics b \<longrightarrow>
            Slog LevelWarn ''DLT topic '%s' already exists.''
              [AAttr ''dltID'' (Getenv env (ENVVAR_DLT_TOPIC_ID P))] [] \<in> set (trace w'')) \<and>
         (dltName P env \<notin> topics b \<longrightarrow>
            Rpc (CreateTopic (dltName P env)) None \<in> set (trace w'')) \<and>
         (topicName P env \<in> insert (dltName P env) (topics b) \<longrightarrow>
            Slog LevelWarn ''Main topic '%s' already exists.''
              [AAttr ''topicID'' (Getenv env (ENVVAR_TOPIC_ID P))] [] \<in> set (trace w'')) \<and>
         (topicName P env \<notin> insert (dltName P env) (topics b) \<longrightarrow>
            Rpc (CreateTopic (topicName P env)) None \<in> set (trace w''))))"
  apply (rule conjI, rule impI, erule create_dlt_topic_run)
  apply (rule conjI, rule impI, erule create_main_topic_run)
  apply (rule conjI, rule impI, erule main_topics_live)
  apply (rule impI, erule main_part_000_topics_live)
  done


lemma settled_dotenv:
  "fst (dotenv_init (settled_network sample_platform) w) = Inr sample_environ"
  "fst (dotenv_init_part_000 sample_platform w) = Inr sample_environ"
  by (simp_all add: dotenv_init_def dotenv_init_part_000_def godotenv_Load_def sample_defs
        settled_network_def Getenv_def)

lemma settled_start:
  "Getenv sample_environ (ENVVAR_EMULATOR_HOST (settled_network sample_platform)) \<noteq> [] \<and>
   Getenv sample_environ (ENVVAR_GOOGLE_PROJECT_ID (settled_network sample_platform)) \<noteq> [] \<and>
   Getenv sample_environ (ENVVAR_TOPIC_ID (settled_network sample_platform)) \<noteq> [] \<and>
   Getenv sample_environ (ENVVAR_SUBSCRIPTION_ID (settled_network sample_platform)) \<noteq> [] \<and>
   Getenv sample_environ (ENVVAR_DLT_TOPIC_ID (settled_network sample_platform)) \<noteq> [] \<and>
   ResolveTCPAddr (settled_network sample_platform)
     (Getenv sample_environ (ENVVAR_EMULATOR_HOST (settled_network sample_platform))) =
     Inr ''[::1]:8085'' \<and>
   int (tick (settled_network sample_platform) 1) \<le> 30 * Second \<and>
   dial_err (dial (settled_network sample_platform) 0) = None \<and>
   NewClient_err (settled_network sample_platform) = None \<and>
   (\<forall>i. rpc_fault (settled_network sample_platform) i = None)"
  by (simp add: sample_defs settled_network_def Getenv_def Second_def)

lemma sample_start:
  "Getenv sample_environ (ENVVAR_EMULATOR_HOST sample_platform) \<noteq> [] \<and>
   Getenv sample_environ (ENVVAR_GOOGLE_PROJECT_ID sample_platform) \<noteq> [] \<and>
   Getenv sample_environ (ENVVAR_TOPIC_ID sample_platform) \<noteq> [] \<and>
   Getenv sample_environ (ENVVAR_SUBSCRIPTION_ID sample_platform) \<noteq> [] \<and>
   Getenv sample_environ (ENVVAR_DLT_TOPIC_ID sample_platform) \<noteq> [] \<and>
   NewClient_err sample_platform = None \<and>
   (\<forall>i. rpc_fault sample_platform i = None)"
  by (simp add: sample_defs Getenv_def)

lemma settled_names:
  "dltName (settled_network sample_platform) sample_environ = ''projects/p/topics/d''"
  "topicName (settled_network sample_platform) sample_environ = ''projects/p/topics/t''"
  "Getenv sample_environ (ENVVAR_DLT_TOPIC_ID (settled_network sample_platform)) = ''d''"
  "Getenv sample_environ (ENVVAR_TOPIC_ID (settled_network sample_platform)) = ''t''"
  "Getenv sample_environ (ENVVAR_DLT_TOPIC_ID sample_platform) = ''d''"
  "Getenv sample_environ (ENVVAR_TOPIC_ID sample_platform) = ''t''"
  by (simp_all add: dltName_def topicName_def sample_defs settled_network_def Getenv_def
        Client_Topic_def)

theorem topics_created_only_if_absent_witness:
  "''projects/p/topics/t'' \<in> topics stale_broker \<and>
   ''projects/p/topics/d'' \<notin> topics stale_broker \<and>
   create_main_topic sample_platform sample_logger sample_client ''t''
     (init_world sample_platform stale_broker) =
     (Inr ''projects/p/topics/t'',
      snd (create_main_topic sample_platform sample_logger sample_client ''t''
             (init_world sample_platform stale_broker))) \<and>
   broker (snd (create_main_topic sample_platform sample_logger sample_client ''t''
             (init_world sample_platform stale_broker))) = stale_broker \<and>
   trace (snd (create_main_topic sample_platform sample_logger sample_client ''t''
             (init_world sample_platform stale_broker))) =
     [Slog LevelInfo ''Creating main topic '%s'...'' [AAttr ''topicID'' ''t''] [],
      Rpc (TopicExists ''projects/p/topics/t'') None,
      Slog LevelWarn ''Main topic '%s' already exists.'' [AAttr ''topicID'' ''t''] []] \<and>
   topics (broker (snd (create_dlt_topic sample_platform sample_logger sample_client ''d''
             (init_world sample_platform stale_broker)))) =
     {''projects/p/topics/d'', ''projects/p/topics/t''} \<and>
   trace (snd (create_dlt_topic sample_platform sample_logger sample_client ''d''
             (init_world sample_platform stale_broker))) =
     [Slog LevelInfo ''Creating DLT topic...'' [] [slog_String ''dltID'' ''d''],
      Rpc (TopicExists ''projects/p/topics/d'') None,
      Rpc (CreateTopic ''projects/p/topics/d'') None,
      Slog LevelInfo ''DLT topic '%s' created successfully.'' [AAttr ''dltID'' ''d''] []] \<and>
   fst (create_dlt_topic (failing_delete sample_platform) sample_logger sample_client ''d''
          ((init_world sample_platform stale_broker)\<lparr>rpcs := 3\<rparr>)) = Inl (OsExit 1) \<and>
   broker (snd (create_dlt_topic (failing_delete sample_platform) sample_logger sample_client
          ''d'' ((init_world sample_platform stale_broker)\<lparr>rpcs := 3\<rparr>))) = stale_broker \<and>
   fst (create_main_topic (failing_delete sample_platform) sample_logger sample_client ''t''
          ((init_world sample_platform stale_broker)\<lparr>rpcs := 4\<rparr>)) = Inl (OsExit 1) \<and>
   fst (main (settled_network sample_platform) stale_broker) = Inr () \<and>
   Slog LevelWarn ''Main topic '%s' already exists.'' [AAttr ''topicID'' ''t''] []
     \<in> set (trace (snd (main (settled_network sample_platform) stale_broker))) \<and>
   Rpc (CreateTopic ''projects/p/topics/d'') None
     \<in> set (trace (snd (main (settled_network sample_platform) stale_broker))) \<and>
   fst (main_part_000 sample_platform stale_broker) = Inr () \<and>
   Slog LevelWarn ''Main topic '%s' already exists.'' [AAttr ''topicID'' ''t''] []
     \<in> set (trace (snd (main_part_000 sample_platform stale_broker))) \<and>
   Rpc (CreateTopic ''projects/p/topics/d'') None
     \<in> set (trace (snd (main_part_000 sample_platform stale_broker)))"
proof -
  let ?w = "init_world sample_platform stale_broker"
  let ?F = "failing_delete sample_platform"
  let ?S = "settled_network sample_platform"
  let ?m = "create_main_topic sample_platform sample_logger sample_client ''t'' ?w"
  let ?d = "create_dlt_topic sample_platform sample_logger sample_client ''d'' ?w"
  let ?df = "create_dlt_topic ?F sample_logger sample_client ''d'' (?w\<lparr>rpcs := 3\<rparr>)"
  let ?mf = "create_main_topic ?F sample_logger sample_client ''t'' (?w\<lparr>rpcs := 4\<rparr>)"
  let ?run = "main ?S stale_broker"
  let ?old = "main_part_000 sample_platform stale_broker"
  have w: "trace ?w = []" "broker ?w = stale_broker" "rpcs ?w = 0"
    by (simp_all add: init_world_def)
  have names: "Client_Topic sample_client ''t'' = ''projects/p/topics/t''"
    "Client_Topic sample_client ''d'' = ''projects/p/topics/d''"
    by (simp_all add: Client_Topic_def sample_client_def)
  have there: "''projects/p/topics/t'' \<in> topics stale_broker"
    and absent: "''projects/p/topics/d'' \<notin> topics stale_broker"
    and tops: "topics stale_broker = {''projects/p/topics/t''}"
    by (simp_all add: stale_broker_def)
  have ok: "rpc_fault sample_platform 0 = None" "rpc_fault sample_platform (Suc 0) = None"
    by (simp_all add: sample_platform_def)
  have bad: "rpc_fault ?F 3 = None" "rpc_fault ?F (Suc 3) = Some (LibError ''unavailable'')"
    "rpc_fault ?F 4 = Some (LibError ''unavailable'')"
    by (simp_all add: failing_delete_def)
  note th = topics_created_only_if_absent
  have "?m = (fst ?m, snd ?m)" by simp
  from th [THEN conjunct2, THEN conjunct1, rule_format, OF this] there ok w
  have m: "fst ?m = Inr ''projects/p/topics/t''" "broker (snd ?m) = stale_broker"
    "trace (snd ?m) =
     [Slog LevelInfo ''Creating main topic '%s'...'' [AAttr ''topicID'' ''t''] [],
      Rpc (TopicExists ''projects/p/topics/t'') None,
      Slog LevelWarn ''Main topic '%s' already exists.'' [AAttr ''topicID'' ''t''] []]"
    by (simp_all add: names)
  have "?d = (fst ?d, snd ?d)" by simp
  from th [THEN conjunct1, rule_format, OF this] absent ok w
  have d: "topics (broker (snd ?d)) = {''projects/p/topics/d'', ''projects/p/topics/t''}"
    "trace (snd ?d) =
     [Slog LevelInfo ''Creating DLT topic...'' [] [slog_String ''dltID'' ''d''],
      Rpc (TopicExists ''projects/p/topics/d'') None,
      Rpc (CreateTopic ''projects/p/topics/d'') None,
      Slog LevelInfo ''DLT topic '%s' created successfully.'' [AAttr ''dltID'' ''d''] []]"
    by (simp_all add: names tops)
  have "?df = (fst ?df, snd ?df)" by simp
  from th [THEN conjunct1, rule_format, OF this] absent bad w
  have df: "fst ?df = Inl (OsExit 1)" "broker (snd ?df) = stale_broker"
    by (simp_all add: names)
  have "?mf = (fst ?mf, snd ?mf)" by simp
  from th [THEN conjunct2, THEN conjunct1, rule_format, OF this] bad w
  have mf: "fst ?mf = Inl (OsExit 1)"
    by (simp_all add: names)
  have "?run = (fst ?run, snd ?run)" by simp
  note live = th [THEN conjunct2, THEN conjunct2, THEN conjunct1, rule_format, OF this,
      THEN conjunct2, THEN conjunct2, rule_format, of sample_environ "''[::1]:8085''"]
  from live settled_dotenv(1) settled_start there absent
  have run: "fst ?run = Inr ()"
    "Slog LevelWarn ''Main topic '%s' already exists.'' [AAttr ''topicID'' ''t''] []
       \<in> set (trace (snd ?run))"
    "Rpc (CreateTopic ''projects/p/topics/d'') None \<in> set (trace (snd ?run))"
    by (simp_all add: settled_names)
  have "?old = (fst ?old, snd ?old)" by simp
  note live_old = th [THEN conjunct2, THEN conjunct2, THEN conjunct2, rule_format, OF this,
      THEN conjunct2, THEN conjunct2, rule_format, of sample_environ]
  from live_old settled_dotenv(2) sample_start there absent
  have old: "fst ?old = Inr ()"
    "Slog LevelWarn ''Main topic '%s' already exists.'' [AAttr ''topicID'' ''t''] []
       \<in> set (trace (snd ?old))"
    "Rpc (CreateTopic ''projects/p/topics/d'') None \<in> set (trace (snd ?old))"
    by (simp_all add: settled_names sample_names)
  from m(1) have m1: "?m = (Inr ''projects/p/topics/t'', snd ?m)"
    by (simp add: prod_eq_iff)
  from there absent m1 m(2,3) d df mf run old show ?thesis
    by (intro conjI)
qed

end
